(* ===== verification/Prelude.thy ===== *)
theory Prelude
  imports Complex_Main "HOL-Library.Word" "HOL-Library.Monad_Syntax"
begin

text \<open>
  The shared ground of the development: the status codes every libdisir operation returns,
  the C integers, the \<^verbatim>\<open>double\<close> of the values and restrictions, the C string functions
  the sources call (\<^verbatim>\<open>strtol\<close>, the \<^verbatim>\<open>%d\<close> and \<^verbatim>\<open>%lf\<close> conversions of
  \<^verbatim>\<open>snprintf\<close>), and the generic lemmas and lemma collections of the components.

  An operation that can have undefined behaviour (a NULL or dangling pointer is read, a buffer
  is overrun) or that aborts through \<^verbatim>\<open>dx_crash_and_burn\<close> returns an option: \<open>None\<close> is
  that fault. Statuses are ordinary results. Memory allocation always succeeds, so the branches
  that return \<^verbatim>\<open>DISIR_STATUS_NO_MEMORY\<close> are the only ones left out.
\<close>

section \<open>Lemma collections\<close>

named_theorems disir_defs "definitions unfolded by the component proofs"
named_theorems store_simps "how the store and the queues read after an update"

section \<open>Status codes\<close>

text \<open>\<^verbatim>\<open>enum disir_status\<close> of include/disir/disir.h, without its prefix.\<close>

datatype status =
    OK | NO_CAN_DO | INVALID_ARGUMENT | TOO_FEW_ARGUMENTS | CONTEXT_IN_WRONG_STATE
  | WRONG_CONTEXT | INVALID_CONTEXT | DESTROYED_CONTEXT | FATAL_CONTEXT | BAD_CONTEXT_OBJECT
  | NO_MEMORY | NO_ERROR | INTERNAL_ERROR | INSUFFICIENT_RESOURCES | EXISTS
  | CONFLICTING_SEMVER | CONFLICT | EXHAUSTED | MOLD_MISSING | WRONG_VALUE_TYPE
  | NOT_EXIST | RESTRICTION_VIOLATED | ELEMENTS_INVALID | NOT_SUPPORTED | PLUGIN_ERROR
  | LOAD_ERROR | CONFIG_INVALID | GROUP_MISSING | PERMISSION_ERROR | FS_ERROR
  | DEFAULT_MISSING

section \<open>C integers\<close>

text \<open>
  The values an \<^verbatim>\<open>int\<close> and an \<^verbatim>\<open>int64_t\<close> can hold, and the conversions the compiler
  inserts (two's complement wrap-around).
\<close>

definition INT_MIN :: int where "INT_MIN = - (2 ^ 31)"
definition INT_MAX :: int where "INT_MAX = 2 ^ 31 - 1"
definition LONG_MIN :: int where "LONG_MIN = - (2 ^ 63)"
definition LONG_MAX :: int where "LONG_MAX = 2 ^ 63 - 1"

definition to_int32 :: "int \<Rightarrow> int" where
  "to_int32 i = sint (word_of_int i :: 32 word)"

lemma to_int32_id:
  assumes "INT_MIN \<le> i" and "i \<le> INT_MAX"
  shows "to_int32 i = i"
  using assms by (simp add: to_int32_def INT_MIN_def INT_MAX_def sint_sbintrunc'
      signed_take_bit_int_eq_self_iff)

lemma to_int32_bounds: "INT_MIN \<le> to_int32 i \<and> to_int32 i \<le> INT_MAX"
  using sint_range_size [of "word_of_int i :: 32 word"]
  by (simp add: to_int32_def INT_MIN_def INT_MAX_def word_size)

section \<open>Doubles\<close>

text \<open>
  An IEEE 754 double: a finite one is the rational it denotes (\<open>-0.0\<close> is identified with
  \<open>0.0\<close>), and \<open>dbl_round\<close> is the rounding to nearest, ties to even, at 53 bits of
  precision, with gradual underflow and overflow to infinity. The comparisons are those of C:
  every comparison with a NaN but \<open>!=\<close> is false.
\<close>

datatype double = DFin rat | DInf bool | DNan

fun bitlen :: "nat \<Rightarrow> nat" where
  "bitlen n = (if n = 0 then 0 else Suc (bitlen (n div 2)))"

declare bitlen.simps [simp del]

definition round_half_even :: "rat \<Rightarrow> int" where
  "round_half_even q =
     (let f = \<lfloor>q\<rfloor>; r = q - of_int f
      in if r < 1 / 2 then f else if 1 / 2 < r then f + 1 else if even f then f else f + 1)"

definition pow2 :: "int \<Rightarrow> rat" where
  "pow2 e = (if 0 \<le> e then 2 ^ nat e else 1 / 2 ^ nat (- e))"

definition dbl_scale :: "rat \<Rightarrow> int" where
  "dbl_scale q =
     (let (n, d) = quotient_of \<bar>q\<bar>;
          s = 53 - (int (bitlen (nat n)) - int (bitlen (nat d)));
          s' = (if \<bar>q\<bar> * pow2 s < 2 ^ 53 then s else s - 1)
      in min s' 1074)"

definition dbl_round :: "rat \<Rightarrow> double" where
  "dbl_round q =
     (let s = dbl_scale q;
          r = of_int (round_half_even (q * pow2 s)) * pow2 (- s)
      in if \<bar>r\<bar> < 2 ^ 1024 then DFin r else DInf (r < 0))"

definition dbl_of_int :: "int \<Rightarrow> double" where
  "dbl_of_int i = dbl_round (of_int i)"

definition dbl_zero :: double where "dbl_zero = DFin 0"

fun dbl_le :: "double \<Rightarrow> double \<Rightarrow> bool" where
  "dbl_le (DFin a) (DFin b) = (a \<le> b)"
| "dbl_le (DInf True) (DFin b) = True"
| "dbl_le (DInf False) (DFin b) = False"
| "dbl_le (DFin a) (DInf n) = (\<not> n)"
| "dbl_le (DInf m) (DInf n) = (m \<or> \<not> n)"
| "dbl_le _ _ = False"

fun dbl_eq :: "double \<Rightarrow> double \<Rightarrow> bool" where
  "dbl_eq (DFin a) (DFin b) = (a = b)"
| "dbl_eq (DInf m) (DInf n) = (m = n)"
| "dbl_eq _ _ = False"

text \<open>The subtraction of two doubles, and the C casts to integers (undefined out of range).\<close>

fun dbl_minus :: "double \<Rightarrow> double \<Rightarrow> double" where
  "dbl_minus (DFin a) (DFin b) = dbl_round (a - b)"
| "dbl_minus (DInf m) (DFin b) = DInf m"
| "dbl_minus (DFin a) (DInf n) = DInf (\<not> n)"
| "dbl_minus (DInf m) (DInf n) = (if m = n then DNan else DInf m)"
| "dbl_minus _ _ = DNan"

definition rat_trunc :: "rat \<Rightarrow> int" where
  "rat_trunc q = (if 0 \<le> q then \<lfloor>q\<rfloor> else \<lceil>q\<rceil>)"

fun dbl_to_int :: "int \<Rightarrow> int \<Rightarrow> double \<Rightarrow> int option" where
  "dbl_to_int lo hi (DFin q) =
     (let i = rat_trunc q in if lo \<le> i \<and> i \<le> hi then Some i else None)"
| "dbl_to_int lo hi _ = None"

definition dbl_to_int32 :: "double \<Rightarrow> int option" where
  "dbl_to_int32 d = dbl_to_int INT_MIN INT_MAX d"

definition dbl_to_int64 :: "double \<Rightarrow> int option" where
  "dbl_to_int64 d = dbl_to_int LONG_MIN LONG_MAX d"

subsection \<open>Rounding is exact on the integers up to \<open>2 ^ 53\<close>\<close>

lemma bitlen_le: "n < 2 ^ k \<Longrightarrow> bitlen n \<le> k"
proof (induction k arbitrary: n)
  case 0
  then show ?case by (simp add: bitlen.simps)
next
  case (Suc k)
  then have "n div 2 < 2 ^ k" by (simp add: less_mult_imp_div_less mult.commute)
  with Suc.IH have "bitlen (n div 2) \<le> k" by blast
  then show ?case by (subst bitlen.simps) simp
qed

lemma round_half_even_of_int [simp]: "round_half_even (of_int i) = i"
  by (simp add: round_half_even_def)

lemma pow2_mult: "pow2 s * pow2 (- s) = 1"
  by (auto simp: pow2_def)

lemma dbl_round_exact:
  assumes "q * pow2 (dbl_scale q) = of_int i" and "\<bar>q\<bar> < 2 ^ 1024"
  shows "dbl_round q = DFin q"
proof -
  have "of_int (round_half_even (q * pow2 (dbl_scale q))) * pow2 (- dbl_scale q) = q"
    using assms(1) pow2_mult [of "dbl_scale q"]
    by (metis mult.assoc mult.right_neutral round_half_even_of_int)
  with assms(2) show ?thesis by (simp add: dbl_round_def Let_def)
qed

lemma pow2_of_int: "0 \<le> s \<Longrightarrow> of_int i * pow2 s = of_int (i * 2 ^ nat s)"
  by (simp add: pow2_def)

lemma dbl_scale_small:
  assumes "\<bar>i\<bar> < 2 ^ 53"
  shows "0 \<le> dbl_scale (of_int i)"
proof -
  have "nat \<bar>i\<bar> < 2 ^ 53" using assms by (simp add: nat_less_iff)
  then have "bitlen (nat \<bar>i\<bar>) \<le> 53" by (rule bitlen_le)
  moreover have "bitlen 1 = 1" by (simp add: bitlen.simps)
  ultimately show ?thesis
    by (simp add: dbl_scale_def Let_def quotient_of_int flip: of_int_abs)
qed

lemma dbl_of_int_exact: "\<bar>i\<bar> < 2 ^ 53 \<Longrightarrow> dbl_of_int i = DFin (of_int i)"
proof -
  assume small: "\<bar>i\<bar> < 2 ^ 53"
  then have "\<bar>of_int i :: rat\<bar> < 2 ^ 53"
    by (metis of_int_abs of_int_less_numeral_power_cancel_iff)
  then have "\<bar>of_int i :: rat\<bar> < 2 ^ 1024"
    by (rule order_less_trans) (rule power_strict_increasing, simp_all)
  moreover have "of_int i * pow2 (dbl_scale (of_int i)) =
      (of_int (i * 2 ^ nat (dbl_scale (of_int i))) :: rat)"
    by (rule pow2_of_int [OF dbl_scale_small [OF small]])
  ultimately show ?thesis unfolding dbl_of_int_def by (rule dbl_round_exact [rotated])
qed

text \<open>The same for evaluation, which need not round small integers.\<close>

lemma dbl_of_int_code [code]: "dbl_of_int i = (if \<bar>i\<bar> < 2 ^ 53 then DFin (of_int i) else dbl_round (of_int i))"
  by (simp add: dbl_of_int_exact) (simp add: dbl_of_int_def)

section \<open>C strings\<close>

text \<open>
  A \<^verbatim>\<open>char *\<close> is the list of the bytes before the terminator, a NULL-able one an
  option. \<open>cstr\<close> is the string a reader of a buffer sees: it ends at the first zero byte.
\<close>

definition nul :: char where "nul = CHR 0x00"

definition cstr :: "string \<Rightarrow> string" where
  "cstr s = takeWhile (\<lambda>c. c \<noteq> nul) s"

definition digit_char :: "nat \<Rightarrow> char" where
  "digit_char d = char_of (48 + d)"

fun show_nat :: "nat \<Rightarrow> string" where
  "show_nat n = (if n < 10 then [digit_char n] else show_nat (n div 10) @ [digit_char (n mod 10)])"

declare show_nat.simps [simp del]

definition show_int :: "int \<Rightarrow> string" where
  "show_int i = (if i < 0 then ''-'' @ show_nat (nat (- i)) else show_nat (nat i))"

text \<open>\<^verbatim>\<open>%lf\<close>: six digits after the point, the exact value rounded to nearest even.\<close>

fun pad_left :: "nat \<Rightarrow> string \<Rightarrow> string" where
  "pad_left n s = replicate (n - length s) (CHR ''0'') @ s"

fun show_dbl :: "double \<Rightarrow> string" where
  "show_dbl (DFin q) =
     (let m = nat (round_half_even (\<bar>q\<bar> * 1000000))
      in (if q < 0 then ''-'' else '''') @ show_nat (m div 1000000) @ ''.'' @
         pad_left 6 (show_nat (m mod 1000000)))"
| "show_dbl (DInf n) = (if n then ''-inf'' else ''inf'')"
| "show_dbl DNan = ''nan''"

text \<open>
  \<^verbatim>\<open>strtol (s, &endptr, 10)\<close>: leading white space, an optional sign and the longest run of
  digits, clamped to the range of \<^verbatim>\<open>long\<close>. \<open>None\<close> is the case of no digit, where C
  sets \<^verbatim>\<open>endptr\<close> to the start; otherwise the value and the rest of the string.
\<close>

definition is_digit :: "char \<Rightarrow> bool" where
  "is_digit c \<longleftrightarrow> 48 \<le> (of_char c :: nat) \<and> (of_char c :: nat) \<le> 57"

definition is_space :: "char \<Rightarrow> bool" where
  "is_space c \<longleftrightarrow> (of_char c :: nat) = 32 \<or> (9 \<le> (of_char c :: nat) \<and> (of_char c :: nat) \<le> 13)"

fun digits_value :: "nat \<Rightarrow> string \<Rightarrow> nat" where
  "digits_value a [] = a"
| "digits_value a (c # cs) = digits_value (10 * a + (of_char c - 48)) cs"

definition strtol10 :: "string \<Rightarrow> (int \<times> string) option" where
  "strtol10 s =
     (let s1 = dropWhile is_space s;
          neg = (case s1 of c # _ \<Rightarrow> c = CHR ''-'' | [] \<Rightarrow> False);
          s2 = (case s1 of c # cs \<Rightarrow> if c = CHR ''-'' \<or> c = CHR ''+'' then cs else s1 | [] \<Rightarrow> []);
          ds = takeWhile is_digit s2;
          v = (if neg then - int (digits_value 0 ds) else int (digits_value 0 ds))
      in if ds = [] then None
         else Some (max LONG_MIN (min LONG_MAX v), dropWhile is_digit s2))"

lemma is_digit_digit_char: "d < 10 \<Longrightarrow> is_digit (digit_char d)"
  by (simp add: is_digit_def digit_char_def take_bit_eq_mod)

lemma of_char_digit_char: "d < 10 \<Longrightarrow> of_char (digit_char d) = 48 + d"
  by (simp add: digit_char_def take_bit_eq_mod)

lemma digits_value_append: "digits_value a (xs @ [c]) = 10 * digits_value a xs + (of_char c - 48)"
  by (induction xs arbitrary: a) auto

lemma show_nat_digits: "c \<in> set (show_nat n) \<Longrightarrow> is_digit c"
proof (induction n rule: show_nat.induct)
  case (1 n)
  then show ?case
    by (cases "n < 10") (auto simp: show_nat.simps [of n] is_digit_digit_char)
qed

lemma show_nat_nonempty [simp]: "show_nat n \<noteq> []"
  by (subst show_nat.simps) simp

lemma digits_value_show_nat: "digits_value 0 (show_nat n) = n"
proof (induction n rule: show_nat.induct)
  case (1 n)
  then show ?case
    by (cases "n < 10")
      (simp_all add: show_nat.simps [of n] digits_value_append of_char_digit_char)
qed

lemma is_space_not_digit: "is_digit c \<Longrightarrow> \<not> is_space c"
  by (auto simp: is_digit_def is_space_def)

lemma hd_show_nat_digit: "is_digit (hd (show_nat n))"
  using show_nat_digits [of "hd (show_nat n)" n] by simp

text \<open>What \<^verbatim>\<open>%d\<close> prints, \<open>strtol\<close> reads back, up to the first character after it.\<close>

lemma takeWhile_digits_show_nat:
  "(rest = [] \<or> \<not> is_digit (hd rest)) \<Longrightarrow> takeWhile is_digit (show_nat n @ rest) = show_nat n"
  by (cases rest) (auto simp: takeWhile_append2 show_nat_digits)

lemma dropWhile_digits_show_nat:
  "(rest = [] \<or> \<not> is_digit (hd rest)) \<Longrightarrow> dropWhile is_digit (show_nat n @ rest) = rest"
  by (cases rest) (auto simp: dropWhile_append2 show_nat_digits)

lemma strtol10_show_nat:
  assumes rest: "rest = [] \<or> \<not> is_digit (hd rest)" and n: "int n \<le> LONG_MAX"
  shows "strtol10 (show_nat n @ rest) = Some (int n, rest)"
proof -
  obtain c cs where c: "show_nat n = c # cs" by (cases "show_nat n") auto
  with hd_show_nat_digit [of n] have d: "is_digit c" by simp
  then have ns: "\<not> is_space c" and nm: "c \<noteq> CHR ''-''" and np: "c \<noteq> CHR ''+''"
    by (auto simp: is_space_not_digit is_digit_def)
  have "dropWhile is_space (show_nat n @ rest) = show_nat n @ rest"
    using c ns by simp
  then show ?thesis
    using c nm np n takeWhile_digits_show_nat [OF rest, of n] dropWhile_digits_show_nat [OF rest, of n]
      digits_value_show_nat [of n]
    by (simp add: strtol10_def Let_def LONG_MIN_def)
qed

section \<open>Generic lemmas\<close>

lemma bind_SomeD: "Option.bind m f = Some y \<Longrightarrow> \<exists>x. m = Some x \<and> f x = Some y"
  by (cases m) auto

text \<open>Taking a computation in the option monad apart, step by step.\<close>

lemma bind_SomeE: "Option.bind m f = Some y \<Longrightarrow> (\<And>x. m = Some x \<Longrightarrow> f x = Some y \<Longrightarrow> P) \<Longrightarrow> P"
  by (cases m) auto

lemma if_SomeE:
  "(if b then x else y) = Some z \<Longrightarrow> (b \<Longrightarrow> x = Some z \<Longrightarrow> P) \<Longrightarrow> (\<not> b \<Longrightarrow> y = Some z \<Longrightarrow> P) \<Longrightarrow> P"
  by (simp split: if_splits)

lemma prod_SomeE:
  "(case x of (a, b) \<Rightarrow> f a b) = Some z \<Longrightarrow> (\<And>a b. x = (a, b) \<Longrightarrow> f a b = Some z \<Longrightarrow> P) \<Longrightarrow> P"
  by (cases x) simp

lemma option_SomeE:
  "(case x of None \<Rightarrow> u | Some a \<Rightarrow> f a) = Some z \<Longrightarrow> (x = None \<Longrightarrow> u = Some z \<Longrightarrow> P) \<Longrightarrow>
   (\<And>a. x = Some a \<Longrightarrow> f a = Some z \<Longrightarrow> P) \<Longrightarrow> P"
  by (cases x) simp_all

lemma list_SomeE:
  "(case x of [] \<Rightarrow> u | a # as \<Rightarrow> f a as) = Some z \<Longrightarrow> (x = [] \<Longrightarrow> u = Some z \<Longrightarrow> P) \<Longrightarrow>
   (\<And>a as. x = a # as \<Longrightarrow> f a as = Some z \<Longrightarrow> P) \<Longrightarrow> P"
  by (cases x) simp_all

lemma let_SomeE: "(let x = a in f x) = Some z \<Longrightarrow> (\<And>x. x = a \<Longrightarrow> f x = Some z \<Longrightarrow> P) \<Longrightarrow> P"
  by simp

lemma None_SomeE: "None = Some z \<Longrightarrow> P"
  by simp

lemma Some_SomeE: "Some y = Some z \<Longrightarrow> (y = z \<Longrightarrow> P) \<Longrightarrow> P"
  by simp

lemmas do_elims = bind_SomeE if_SomeE prod_SomeE option_SomeE list_SomeE let_SomeE None_SomeE Some_SomeE

lemma filter_remove1: "filter P (remove1 x xs) = (if P x then remove1 x (filter P xs) else filter P xs)"
  by (induction xs) auto

lemma remove1_snoc_notin: "x \<notin> set xs \<Longrightarrow> remove1 x (xs @ [x]) = xs"
  by (induction xs) auto

end
