(* ===== verification/Values.thy ===== *)
theory Values
  imports Prelude
begin

text \<open>
  lib/util.c: semantic versions and the typed values (\<^verbatim>\<open>struct disir_value\<close>) that keyvals,
  defaults, documentation and names hold, with their comparison, copy, printing and typed
  accessors; and the value type helpers of lib/context_util.c.
\<close>

section \<open>Versions\<close>

text \<open>\<^verbatim>\<open>struct disir_version\<close>: two \<^verbatim>\<open>uint32_t\<close>.\<close>

datatype version = Version (sv_major: "32 word") (sv_minor: "32 word")

text \<open>
  The subtraction of two \<^verbatim>\<open>uint32_t\<close> wraps, and its result is stored in an \<^verbatim>\<open>int\<close>.
\<close>

definition dc_version_compare :: "version \<Rightarrow> version \<Rightarrow> int" where
  "dc_version_compare s1 s2 =
     (let res = sint (sv_major s1 - sv_major s2)
      in if res = 0 then sint (sv_minor s1 - sv_minor s2) else res)"

definition dc_version_string :: "bool \<Rightarrow> int \<Rightarrow> version option \<Rightarrow> string option" where
  "dc_version_string has_buffer buffer_size version =
     (case version of None \<Rightarrow> None | Some v \<Rightarrow>
        if \<not> has_buffer then None
        else let out = show_nat (unat (sv_major v)) @ ''.'' @ show_nat (unat (sv_minor v))
             in if int (length out) \<ge> buffer_size then None else Some out)"

definition dc_version_set :: "version option \<Rightarrow> version option \<Rightarrow> version option" where
  "dc_version_set destination source =
     (case (destination, source) of
        (Some d, Some v) \<Rightarrow> Some (Version (sv_major v) (sv_minor v))
      | _ \<Rightarrow> destination)"

text \<open>
  The output version is written field by field, so a failure after the major number leaves the
  new major number behind. A \<^verbatim>\<open>long\<close> is stored into an \<^verbatim>\<open>uint32_t\<close> modulo \<open>2 ^ 32\<close>.
\<close>

definition dc_version_convert :: "string option \<Rightarrow> version option \<Rightarrow> status \<times> version option" where
  "dc_version_convert input version =
     (case (input, version) of
        (Some s, Some v) \<Rightarrow>
          (case strtol10 s of
             None \<Rightarrow> (INVALID_ARGUMENT, Some v)
           | Some (major, end1) \<Rightarrow>
               (case end1 of
                  [] \<Rightarrow> (INVALID_ARGUMENT, Some v)
                | c # start2 \<Rightarrow>
                    if c \<noteq> CHR ''.'' then (INVALID_ARGUMENT, Some v)
                    else let v1 = Version (word_of_int major) (sv_minor v)
                         in (case strtol10 start2 of
                               None \<Rightarrow> (INVALID_ARGUMENT, Some v1)
                             | Some (minor, _) \<Rightarrow>
                                 (OK, Some (Version (sv_major v1) (word_of_int minor))))))
      | _ \<Rightarrow> (INVALID_ARGUMENT, version))"

text \<open>The order the comparison is meant to implement: major first, then minor.\<close>

instantiation version :: linorder
begin

definition less_eq_version :: "version \<Rightarrow> version \<Rightarrow> bool" where
  "less_eq_version v w \<longleftrightarrow>
     sv_major v < sv_major w \<or> sv_major v = sv_major w \<and> sv_minor v \<le> sv_minor w"

definition less_version :: "version \<Rightarrow> version \<Rightarrow> bool" where
  "less_version v w \<longleftrightarrow>
     sv_major v < sv_major w \<or> sv_major v = sv_major w \<and> sv_minor v < sv_minor w"

instance
proof
  fix x y z :: version
  show "x < y \<longleftrightarrow> x \<le> y \<and> \<not> y \<le> x"
    unfolding less_version_def less_eq_version_def by fastforce
  show "x \<le> x"
    unfolding less_eq_version_def by simp
  show "x \<le> z" if "x \<le> y" and "y \<le> z"
    using that unfolding less_eq_version_def by fastforce
  show "x = y" if "x \<le> y" and "y \<le> x"
    using that unfolding less_eq_version_def by (intro version.expand) fastforce
  show "x \<le> y \<or> y \<le> x"
    unfolding less_eq_version_def by fastforce
qed

end

text \<open>Both numbers below \<open>2 ^ 31\<close>: the versions on which the \<^verbatim>\<open>int\<close> difference is exact.\<close>

definition small_version :: "version \<Rightarrow> bool" where
  "small_version v \<longleftrightarrow> uint (sv_major v) < 2 ^ 31 \<and> uint (sv_minor v) < 2 ^ 31"

lemma sint_diff_exact:
  fixes a b :: "32 word"
  assumes "uint a < 2 ^ 31" and "uint b < 2 ^ 31"
  shows "sint (a - b) = uint a - uint b"
proof -
  have "a - b = word_of_int (uint a - uint b)"
    by simp
  then have "sint (a - b) = to_int32 (uint a - uint b)"
    by (simp add: to_int32_def)
  also have "\<dots> = uint a - uint b"
    using assms uint_ge_0 [of a] uint_ge_0 [of b]
    by (intro to_int32_id; simp only: INT_MIN_def INT_MAX_def; linarith)
  finally show ?thesis .
qed

lemma sint_diff_zero_iff: "sint (a - b :: 32 word) = 0 \<longleftrightarrow> a = b"
  by (metis eq_iff_diff_eq_0 signed_0 signed_eq_0_iff)

lemma dc_version_compare_eq_0 [simp]: "dc_version_compare v w = 0 \<longleftrightarrow> v = w"
  by (auto simp: dc_version_compare_def Let_def sint_diff_zero_iff intro: version.expand)

lemma dc_version_compare_refl [simp]: "dc_version_compare v v = 0"
  by simp

lemma dc_version_compare_less:
  assumes "small_version v" and "small_version w"
  shows "dc_version_compare v w < 0 \<longleftrightarrow> v < w"
proof -
  have "sv_major v = sv_major w \<longleftrightarrow> uint (sv_major v) = uint (sv_major w)"
    by (rule word_uint_eq_iff)
  with assms show ?thesis
    by (simp add: dc_version_compare_def Let_def small_version_def sint_diff_exact less_version_def
        word_less_def del: word_uint_eq_iff)
qed

lemma dc_version_compare_greater:
  assumes "small_version v" and "small_version w"
  shows "0 < dc_version_compare v w \<longleftrightarrow> w < v"
proof -
  have "dc_version_compare v w \<noteq> 0 \<longleftrightarrow> v \<noteq> w" by simp
  with dc_version_compare_less [OF assms] show ?thesis by (metis not_less_iff_gr_or_eq)
qed


section \<open>Value types\<close>

text \<open>
  \<^verbatim>\<open>enum disir_value_type\<close>. \<open>VT_INVALID\<close> is the code 0 that \<^verbatim>\<open>calloc\<close> leaves in a
  keyval whose type was never set; \<open>VT_UNKNOWN\<close> is the sentinel.
\<close>

datatype value_type =
    VT_INVALID | VT_STRING | VT_INTEGER | VT_FLOAT | VT_BOOLEAN | VT_ENUM | VT_UNKNOWN

fun dx_value_type_sanify :: "value_type \<Rightarrow> value_type" where
  "dx_value_type_sanify VT_INVALID = VT_UNKNOWN"
| "dx_value_type_sanify VT_UNKNOWN = VT_UNKNOWN"
| "dx_value_type_sanify t = t"

fun disir_value_type_string :: "value_type \<Rightarrow> string" where
  "disir_value_type_string VT_INVALID = ''INVALID_VALUE_TYPE''"
| "disir_value_type_string VT_STRING = ''STRING''"
| "disir_value_type_string VT_INTEGER = ''INTEGER''"
| "disir_value_type_string VT_FLOAT = ''FLOAT''"
| "disir_value_type_string VT_BOOLEAN = ''BOOLEAN''"
| "disir_value_type_string VT_ENUM = ''ENUM''"
| "disir_value_type_string VT_UNKNOWN = ''UNKNOWN''"

definition dx_value_type_string :: "value_type \<Rightarrow> string" where
  "dx_value_type_string t = disir_value_type_string (dx_value_type_sanify t)"

section \<open>Typed values\<close>

text \<open>
  \<^verbatim>\<open>struct disir_value\<close>. The anonymous union is a payload: \<open>PZero\<close> is the all-zero union
  of \<^verbatim>\<open>calloc\<close> (and the NULL string pointer), \<open>PStr cap s\<close> an owned heap buffer of
  \<open>cap\<close> bytes that holds \<open>s\<close> and a terminator. Reading a member other than the one last
  written is a fault, but that zero reads as zero in every member.
\<close>

datatype payload = PZero | PStr nat string | PBool "8 word" | PFloat double | PInt "64 word"

record disir_value =
  dv_type :: value_type
  dv_data :: payload
  dv_size :: int

definition value_zero :: disir_value where
  "value_zero = \<lparr>dv_type = VT_INVALID, dv_data = PZero, dv_size = 0\<rparr>"

fun as_string :: "payload \<Rightarrow> (nat \<times> string) option option" where
  "as_string PZero = Some None"
| "as_string (PStr cap s) = Some (Some (cap, s))"
| "as_string _ = None"

fun as_integer :: "payload \<Rightarrow> 64 word option" where
  "as_integer PZero = Some 0"
| "as_integer (PInt w) = Some w"
| "as_integer _ = None"

fun as_boolean :: "payload \<Rightarrow> 8 word option" where
  "as_boolean PZero = Some 0"
| "as_boolean (PBool w) = Some w"
| "as_boolean _ = None"

fun as_float :: "payload \<Rightarrow> double option" where
  "as_float PZero = Some dbl_zero"
| "as_float (PFloat d) = Some d"
| "as_float _ = None"

text \<open>
  The accessors. The value pointer is an option (\<open>None\<close> is NULL) and comes back updated; a
  getter takes whether its output pointer is non-NULL.
\<close>

definition dx_value_set_integer ::
  "disir_value option \<Rightarrow> 64 word \<Rightarrow> status \<times> disir_value option" where
  "dx_value_set_integer value integer =
     (case value of
        None \<Rightarrow> (INVALID_ARGUMENT, None)
      | Some v \<Rightarrow>
          if dv_type v \<noteq> VT_INTEGER then (WRONG_VALUE_TYPE, Some v)
          else (OK, Some (v\<lparr>dv_data := PInt integer\<rparr>)))"

definition dx_value_get_integer ::
  "disir_value option \<Rightarrow> bool \<Rightarrow> (status \<times> 64 word option) option" where
  "dx_value_get_integer value has_output =
     (case value of
        None \<Rightarrow> Some (INVALID_ARGUMENT, None)
      | Some v \<Rightarrow>
          if \<not> has_output then Some (INVALID_ARGUMENT, None)
          else if dv_type v \<noteq> VT_INTEGER then Some (WRONG_VALUE_TYPE, None)
          else map_option (\<lambda>i. (OK, Some i)) (as_integer (dv_data v)))"

definition dx_value_set_boolean ::
  "disir_value option \<Rightarrow> 8 word \<Rightarrow> status \<times> disir_value option" where
  "dx_value_set_boolean value boolean =
     (case value of
        None \<Rightarrow> (INVALID_ARGUMENT, None)
      | Some v \<Rightarrow>
          if dv_type v \<noteq> VT_BOOLEAN then (WRONG_VALUE_TYPE, Some v)
          else (OK, Some (v\<lparr>dv_data := PBool boolean\<rparr>)))"

definition dx_value_get_boolean ::
  "disir_value option \<Rightarrow> bool \<Rightarrow> (status \<times> 8 word option) option" where
  "dx_value_get_boolean value has_output =
     (case value of
        None \<Rightarrow> Some (INVALID_ARGUMENT, None)
      | Some v \<Rightarrow>
          if \<not> has_output then Some (INVALID_ARGUMENT, None)
          else if dv_type v \<noteq> VT_BOOLEAN then Some (WRONG_VALUE_TYPE, None)
          else map_option (\<lambda>b. (OK, Some b)) (as_boolean (dv_data v)))"

definition dx_value_set_float ::
  "disir_value option \<Rightarrow> double \<Rightarrow> status \<times> disir_value option" where
  "dx_value_set_float value input_double =
     (case value of
        None \<Rightarrow> (INVALID_ARGUMENT, None)
      | Some v \<Rightarrow>
          if dv_type v \<noteq> VT_FLOAT then (WRONG_VALUE_TYPE, Some v)
          else (OK, Some (v\<lparr>dv_data := PFloat input_double\<rparr>)))"

definition dx_value_get_float ::
  "disir_value option \<Rightarrow> bool \<Rightarrow> (status \<times> double option) option" where
  "dx_value_get_float value has_output =
     (case value of
        None \<Rightarrow> Some (INVALID_ARGUMENT, None)
      | Some v \<Rightarrow>
          if \<not> has_output then Some (INVALID_ARGUMENT, None)
          else if dv_type v \<noteq> VT_FLOAT then Some (WRONG_VALUE_TYPE, None)
          else map_option (\<lambda>d. (OK, Some d)) (as_float (dv_data v)))"

text \<open>
  \<^verbatim>\<open>dx_value_set_string\<close>: the buffer is reused when the stored string is longer than the new
  one, and otherwise replaced by one of \<open>len + 1\<close> bytes. The copy faults when \<open>len\<close> is
  negative, when it runs past the terminator of the input, or when it does not fit the buffer.
\<close>

definition dx_value_set_string ::
  "disir_value option \<Rightarrow> string option \<Rightarrow> int \<Rightarrow> (status \<times> disir_value option) option" where
  "dx_value_set_string value input len =
     (case value of
        None \<Rightarrow> Some (INVALID_ARGUMENT, None)
      | Some v \<Rightarrow>
          if dv_type v \<noteq> VT_STRING \<and> dv_type v \<noteq> VT_ENUM then Some (WRONG_VALUE_TYPE, Some v)
          else (case input of
            None \<Rightarrow>
              do {
                _ \<leftarrow> (if 0 < dv_size v then as_string (dv_data v) else Some None);
                Some (OK, Some (v\<lparr>dv_data := PZero, dv_size := 0\<rparr>))
              }
          | Some s \<Rightarrow>
              do {
                buffer \<leftarrow> as_string (dv_data v);
                let cap = (case buffer of
                             None \<Rightarrow> nat (len + 1)
                           | Some (c, _) \<Rightarrow> if dv_size v - 1 < len then nat (len + 1) else c);
                if len < 0 \<or> int (length s) + 1 < len \<or> int cap < len + 1 then None
                else Some (OK, Some (v\<lparr>dv_data := PStr cap (take (nat len) (s @ [nul])),
                                       dv_size := len\<rparr>))
              }))"

definition dx_value_get_string ::
  "disir_value option \<Rightarrow> bool \<Rightarrow> (status \<times> (string option \<times> int) option) option" where
  "dx_value_get_string value has_output =
     (case value of
        None \<Rightarrow> Some (INVALID_ARGUMENT, None)
      | Some v \<Rightarrow>
          if \<not> has_output then Some (INVALID_ARGUMENT, None)
          else if dv_type v \<noteq> VT_STRING \<and> dv_type v \<noteq> VT_ENUM then Some (WRONG_VALUE_TYPE, None)
          else map_option (\<lambda>b. (OK, Some (map_option snd b, dv_size v))) (as_string (dv_data v)))"

text \<open>
  \<^verbatim>\<open>dx_value_copy\<close>, \<^verbatim>\<open>dx_value_compare\<close> (whose result is an \<^verbatim>\<open>int\<close>: a 64 bit
  difference is truncated, the difference of two doubles is cast) and \<^verbatim>\<open>dx_value_stringify\<close>.
  \<^verbatim>\<open>memcmp\<close> compares unsigned bytes; only the sign of its result is determined.
\<close>

definition dx_value_copy ::
  "disir_value \<Rightarrow> disir_value \<Rightarrow> (status \<times> disir_value option) option" where
  "dx_value_copy destination source =
     (case dx_value_type_sanify (dv_type source) of
        VT_ENUM \<Rightarrow> do {
          b \<leftarrow> as_string (dv_data source);
          dx_value_set_string (Some destination) (map_option snd b) (to_int32 (dv_size source))
        }
      | VT_STRING \<Rightarrow> do {
          b \<leftarrow> as_string (dv_data source);
          dx_value_set_string (Some destination) (map_option snd b) (to_int32 (dv_size source))
        }
      | VT_INTEGER \<Rightarrow> do {
          i \<leftarrow> as_integer (dv_data source);
          Some (dx_value_set_integer (Some destination) i)
        }
      | VT_FLOAT \<Rightarrow> do {
          d \<leftarrow> as_float (dv_data source);
          Some (dx_value_set_float (Some destination) d)
        }
      | VT_BOOLEAN \<Rightarrow> do {
          b \<leftarrow> as_boolean (dv_data source);
          Some (dx_value_set_boolean (Some destination) b)
        }
      | _ \<Rightarrow> None)"

fun memcmp :: "string \<Rightarrow> string \<Rightarrow> int" where
  "memcmp (a # as) (b # bs) =
     (if a = b then memcmp as bs else if (of_char a :: nat) < of_char b then -1 else 1)"
| "memcmp _ _ = 0"

definition dx_value_compare :: "disir_value \<Rightarrow> disir_value \<Rightarrow> int option" where
  "dx_value_compare v1 v2 =
     (if dv_type v1 \<noteq> dv_type v2 then Some INT_MIN
      else if dv_size v1 \<noteq> dv_size v2 then Some (to_int32 (dv_size v1 - dv_size v2))
      else if dx_value_type_sanify (dv_type v1) = VT_ENUM \<or>
              dx_value_type_sanify (dv_type v1) = VT_STRING then do {
          b1 \<leftarrow> as_string (dv_data v1);
          b2 \<leftarrow> as_string (dv_data v2);
          (case (b1, b2) of
             (Some (_, s1), Some (_, s2)) \<Rightarrow>
               Some (memcmp (take (nat (dv_size v1)) s1) (take (nat (dv_size v1)) s2))
           | _ \<Rightarrow> if dv_size v1 = 0 then Some 0 else None)
        }
      else if dx_value_type_sanify (dv_type v1) = VT_INTEGER then do {
          i1 \<leftarrow> as_integer (dv_data v1);
          i2 \<leftarrow> as_integer (dv_data v2);
          Some (to_int32 (sint (i1 - i2)))
        }
      else if dx_value_type_sanify (dv_type v1) = VT_FLOAT then do {
          d1 \<leftarrow> as_float (dv_data v1);
          d2 \<leftarrow> as_float (dv_data v2);
          dbl_to_int32 (dbl_minus d1 d2)
        }
      else if dx_value_type_sanify (dv_type v1) = VT_BOOLEAN then do {
          b1 \<leftarrow> as_boolean (dv_data v1);
          b2 \<leftarrow> as_boolean (dv_data v2);
          Some (uint b1 - uint b2)
        }
      else Some INT_MIN)"

text \<open>
  The output buffer of \<^verbatim>\<open>snprintf\<close> receives the text cut to the buffer. The string case
  of \<^verbatim>\<open>dx_value_stringify\<close> (here \<open>stringify_string\<close>) writes the terminator at the index of
  the whole size, not of the size it copied, which overruns the buffer exactly when the string
  does not fit. The size is left unset for a value without a type.
\<close>

definition snprintf_into :: "int \<Rightarrow> string \<Rightarrow> (string \<times> int) option" where
  "snprintf_into n s =
     (if n < 0 then None else Some (take (nat (n - 1)) s, int (length s)))"

definition stringify_string ::
  "disir_value \<Rightarrow> int \<Rightarrow> (status \<times> string \<times> int option) option" where
  "stringify_string v output_buffer_size =
     do {
       b \<leftarrow> as_string (dv_data v);
       let n = to_int32 (dv_size v);
       let copy_size = (if n \<ge> output_buffer_size then output_buffer_size - 1 else n);
       src \<leftarrow> (case b of
                None \<Rightarrow> if copy_size = 0 then Some [] else None
              | Some (cap, s) \<Rightarrow>
                  if copy_size < 0 \<or> int cap < copy_size then None
                  else Some (take (nat copy_size) (s @ [nul])));
       if n < 0 \<or> output_buffer_size \<le> n then None
       else Some (OK, src, Some n)
     }"

definition dx_value_stringify ::
  "disir_value \<Rightarrow> int \<Rightarrow> (status \<times> string \<times> int option) option" where
  "dx_value_stringify v output_buffer_size =
     (case dv_type v of
        VT_ENUM \<Rightarrow> stringify_string v output_buffer_size
      | VT_STRING \<Rightarrow> stringify_string v output_buffer_size
      | VT_INTEGER \<Rightarrow> do {
          i \<leftarrow> as_integer (dv_data v);
          (out, n) \<leftarrow> snprintf_into output_buffer_size (show_int (sint i));
          Some (OK, out, Some n)
        }
      | VT_FLOAT \<Rightarrow> do {
          d \<leftarrow> as_float (dv_data v);
          (out, n) \<leftarrow> snprintf_into output_buffer_size (show_dbl d);
          Some (OK, out, Some n)
        }
      | VT_BOOLEAN \<Rightarrow> do {
          b \<leftarrow> as_boolean (dv_data v);
          (out, n) \<leftarrow> snprintf_into output_buffer_size (if b \<noteq> 0 then ''True'' else ''False'');
          Some (OK, out, Some n)
        }
      | _ \<Rightarrow> Some (INVALID_ARGUMENT, [], None))"

section \<open>Correctness of the versions\<close>

text \<open>
  On versions whose numbers are below \<open>2 ^ 31\<close>, \<^verbatim>\<open>dc_version_compare\<close> is a
  comparison for the order on (major, minor): its result is negative, zero or positive exactly
  when the first version is lower than, equal to or higher than the second.
\<close>

theorem version_compare_order:
  assumes "small_version v" and "small_version w"
  shows "(dc_version_compare v w < 0 \<longleftrightarrow> v < w) \<and> (dc_version_compare v w = 0 \<longleftrightarrow> v = w) \<and>
         (0 < dc_version_compare v w \<longleftrightarrow> w < v)"
  by (simp add: dc_version_compare_less dc_version_compare_greater assms)

theorem version_compare_order_witness:
  "dc_version_compare (Version 1 9) (Version 2 0) < 0 \<and> Version 1 9 < Version 2 0"
proof -
  have "small_version (Version 1 9)" and "small_version (Version 2 0)"
    by (simp_all add: small_version_def)
  from version_compare_order [OF this] show ?thesis
    by (simp add: less_version_def)
qed

text \<open>
  Without that bound the order breaks: a major number \<open>2 ^ 31 + 1\<close> apart makes the
  wrapped difference positive, so the lower version compares as the higher one.
\<close>

theorem version_compare_wraps:
  "Version 0 0 < Version 2147483649 0 \<and> 0 < dc_version_compare (Version 0 0) (Version 2147483649 0)"
  by (simp add: less_version_def dc_version_compare_def Let_def)

text \<open>
  C30. What \<^verbatim>\<open>dc_version_string\<close> writes, \<^verbatim>\<open>dc_version_convert\<close> reads back, whatever the
  output version held before.
\<close>

theorem version_string_roundtrip:
  assumes "dc_version_string True n (Some v) = Some s"
  shows "dc_version_convert (Some s) (Some v0) = (OK, Some v)"
proof -
  have s: "s = show_nat (unat (sv_major v)) @ ''.'' @ show_nat (unat (sv_minor v))"
    using assms by (simp add: dc_version_string_def Let_def split: if_splits)
  have b: "int (unat w) \<le> LONG_MAX" for w :: "32 word"
    using unsigned_less [of w, where ?'a = int] by (simp add: LONG_MAX_def)
  have "strtol10 s = Some (int (unat (sv_major v)), ''.'' @ show_nat (unat (sv_minor v)))"
    unfolding s by (rule strtol10_show_nat [OF _ b]) (simp add: is_digit_def)
  moreover have "strtol10 (show_nat (unat (sv_minor v))) = Some (int (unat (sv_minor v)), [])"
    using strtol10_show_nat [of "[]", OF _ b] by simp
  ultimately show ?thesis
    by (simp add: dc_version_convert_def Let_def version.expand)
qed

theorem version_string_roundtrip_witness:
  "dc_version_string True 8 (Some (Version 12 7)) = Some ''12.7'' \<and>
   dc_version_convert (Some ''12.7'') (Some (Version 1 0)) = (OK, Some (Version 12 7))"
proof -
  have s: "dc_version_string True 8 (Some (Version 12 7)) = Some ''12.7''"
    by code_simp
  from s version_string_roundtrip [OF s] show ?thesis by simp
qed

section \<open>Correctness of the values\<close>

text \<open>
  A value is well formed when a string it owns has its recorded size and a buffer with room for
  the terminator.
\<close>

definition value_ok :: "disir_value \<Rightarrow> bool" where
  "value_ok v \<longleftrightarrow> 0 \<le> dv_size v \<and> dv_size v < INT_MAX \<and>
     (case dv_data v of PStr cap s \<Rightarrow> dv_size v = int (length s) \<and> dv_size v < int cap
                      | _ \<Rightarrow> True)"

definition string_typed :: "disir_value \<Rightarrow> bool" where
  "string_typed v \<longleftrightarrow> (dv_type v = VT_STRING \<or> dv_type v = VT_ENUM) \<and> as_string (dv_data v) \<noteq> None"

lemma value_ok_zero [simp]: "value_ok value_zero"
  by (simp add: value_ok_def value_zero_def INT_MAX_def)

lemma as_string_cases:
  assumes "as_string p = Some b"
  obtains "p = PZero" "b = None" | cap s where "p = PStr cap s" "b = Some (cap, s)"
  using assms by (cases p) auto

lemma set_string_stores:
  assumes "value_ok v" and "string_typed v" and "0 \<le> len" and "len \<le> int (length s)"
    and "len < INT_MAX"
  obtains cap where
    "dx_value_set_string (Some v) (Some s) len =
       Some (OK, Some (v\<lparr>dv_data := PStr cap (take (nat len) s), dv_size := len\<rparr>))"
    and "len < int cap"
proof -
  from assms(2) obtain b where b: "as_string (dv_data v) = Some b"
    by (auto simp: string_typed_def)
  define cap where "cap = (case b of None \<Rightarrow> nat (len + 1)
      | Some (c, _) \<Rightarrow> if dv_size v - 1 < len then nat (len + 1) else c)"
  have "len < int cap"
    using b assms(1,3) by (cases rule: as_string_cases) (auto simp: cap_def value_ok_def)
  moreover have "take (nat len) (s @ [nul]) = take (nat len) s"
    using assms(4) by simp
  ultimately show thesis
    using that [of cap] assms b
    by (auto simp: dx_value_set_string_def string_typed_def cap_def Let_def)
qed

lemma value_ok_set_string:
  assumes "0 \<le> len" and "len \<le> int (length s)" and "len < INT_MAX" and "len < int cap"
  shows "value_ok (v\<lparr>dv_data := PStr cap (take (nat len) s), dv_size := len\<rparr>)"
  using assms by (simp add: value_ok_def)

text \<open>
  Storing a string into a well formed string or enum value never overruns a buffer: the
  operation returns OK, keeps the value well formed, and the getter then returns exactly the
  first \<open>len\<close> bytes of the input.
\<close>

theorem set_string_get_string:
  assumes "value_ok v" and "string_typed v" and "0 \<le> len" and "len \<le> int (length s)"
    and "len < INT_MAX"
  shows "\<exists>v'. dx_value_set_string (Some v) (Some s) len = Some (OK, Some v') \<and>
              value_ok v' \<and> string_typed v' \<and> dv_type v' = dv_type v \<and>
              dx_value_get_string (Some v') True = Some (OK, Some (Some (take (nat len) s), len))"
proof -
  obtain cap where set: "dx_value_set_string (Some v) (Some s) len =
       Some (OK, Some (v\<lparr>dv_data := PStr cap (take (nat len) s), dv_size := len\<rparr>))"
    and cap: "len < int cap"
    by (rule set_string_stores [OF assms])
  with assms(2) value_ok_set_string [OF assms(3-5) cap, of v] show ?thesis
    by (auto simp: string_typed_def dx_value_get_string_def)
qed

theorem set_string_get_string_witness:
  "\<exists>v'. dx_value_set_string (Some (value_zero\<lparr>dv_type := VT_STRING\<rparr>)) (Some ''abc'') 3 =
          Some (OK, Some v') \<and> value_ok v' \<and>
        dx_value_get_string (Some v') True = Some (OK, Some (Some ''abc'', 3))"
proof -
  have "value_ok (value_zero\<lparr>dv_type := VT_STRING\<rparr>)"
    and "string_typed (value_zero\<lparr>dv_type := VT_STRING\<rparr>)"
    by (simp_all add: value_ok_def string_typed_def value_zero_def INT_MAX_def)
  from set_string_get_string [OF this, of 3 "''abc''"] show ?thesis
    by (auto simp: INT_MAX_def)
qed

text \<open>
  The values that compare equal to themselves: no NaN or infinity (whose difference is cast to
  an \<^verbatim>\<open>int\<close> with undefined result), and a payload of the recorded type.
\<close>

definition comparable :: "disir_value \<Rightarrow> bool" where
  "comparable v \<longleftrightarrow> value_ok v \<and>
     (case dv_type v of
        VT_STRING \<Rightarrow> \<exists>cap s. dv_data v = PStr cap s
      | VT_ENUM \<Rightarrow> \<exists>cap s. dv_data v = PStr cap s
      | VT_INTEGER \<Rightarrow> as_integer (dv_data v) \<noteq> None
      | VT_BOOLEAN \<Rightarrow> as_boolean (dv_data v) \<noteq> None
      | VT_FLOAT \<Rightarrow> \<exists>q. as_float (dv_data v) = Some (DFin q)
      | _ \<Rightarrow> False)"

lemma memcmp_refl [simp]: "memcmp s s = 0"
  by (induction s) auto

lemma memcmp_eq_0: "length a = length b \<Longrightarrow> memcmp a b = 0 \<longleftrightarrow> a = b"
  by (induction a b rule: memcmp.induct) auto

lemma to_int32_0 [simp]: "to_int32 0 = 0"
  by (simp add: to_int32_def)

lemma dbl_round_0 [simp]: "dbl_round 0 = DFin 0"
  using dbl_of_int_exact [of 0] by (simp add: dbl_of_int_def)

lemma dbl_minus_self: "dbl_to_int32 (dbl_minus (DFin q) (DFin q)) = Some 0"
  by (simp add: dbl_to_int32_def rat_trunc_def INT_MIN_def INT_MAX_def)

lemma value_compare_refl: "comparable v \<Longrightarrow> dx_value_compare v v = Some 0"
  by (auto simp: comparable_def dx_value_compare_def dbl_minus_self simp del: dbl_minus.simps
      split: value_type.splits)

text \<open>
  Comparing two integer values looks at the low 32 bits of their difference only: values
  that agree modulo \<open>2 ^ 32\<close> compare equal.
\<close>

theorem value_compare_integer:
  assumes "dv_type v = VT_INTEGER" and "dv_type w = VT_INTEGER" and "dv_size v = dv_size w"
    and "dv_data v = PInt i" and "dv_data w = PInt j"
  shows "dx_value_compare v w = Some 0 \<longleftrightarrow> (ucast i :: 32 word) = ucast j"
proof -
  have "to_int32 (sint (i - j)) = 0 \<longleftrightarrow> (word_of_int (sint (i - j)) :: 32 word) = 0"
    by (simp add: to_int32_def signed_eq_0_iff)
  also have "(word_of_int (sint (i - j)) :: 32 word) = ucast i - ucast j"
    by transfer (simp add: take_bit_signed_take_bit,
        subst (1 2) take_bit_diff [symmetric], simp)
  finally show ?thesis
    using assms by (auto simp: dx_value_compare_def)
qed

theorem value_compare_integer_witness:
  "dx_value_compare \<lparr>dv_type = VT_INTEGER, dv_data = PInt 7, dv_size = 0\<rparr>
                    \<lparr>dv_type = VT_INTEGER, dv_data = PInt 4294967303, dv_size = 0\<rparr> = Some 0"
  using value_compare_integer [of "\<lparr>dv_type = VT_INTEGER, dv_data = PInt 7, dv_size = 0\<rparr>"
      "\<lparr>dv_type = VT_INTEGER, dv_data = PInt 4294967303, dv_size = 0\<rparr>" 7 4294967303]
  by simp

lemma value_copy_string:
  assumes "dx_value_set_string (Some d) (Some s) len = Some (OK, Some d')"
  shows "\<exists>cap. d' = d\<lparr>dv_data := PStr cap (take (nat len) (s @ [nul])), dv_size := len\<rparr>"
  using assms by (auto simp: dx_value_set_string_def Let_def split: if_splits option.splits
      Option.bind_splits)

lemma comparable_copy_string:
  assumes s: "comparable s" "dv_data s = PStr cap str" "dv_type s = VT_STRING \<or> dv_type s = VT_ENUM"
    and t: "dv_type d = dv_type s"
    and c: "dx_value_set_string (Some d) (Some str) (to_int32 (dv_size s)) = Some (OK, Some d')"
  shows "dx_value_compare d' s = Some 0"
proof -
  have l: "dv_size s = int (length str)" using s by (auto simp: comparable_def value_ok_def)
  have n: "to_int32 (dv_size s) = int (length str)"
    unfolding l using s by (intro to_int32_id) (auto simp: comparable_def value_ok_def INT_MIN_def)
  from value_copy_string [OF c] obtain cap' where
    "d' = d\<lparr>dv_data := PStr cap' str, dv_size := dv_size s\<rparr>"
    unfolding n by (auto simp: l)
  with s t show ?thesis by (auto simp: dx_value_compare_def)
qed

text \<open>
  Copying a value and comparing the copy with the original gives 0, for every type: the
  pair of operations an update of a keyval to a new default relies on.
\<close>

theorem value_copy_compare:
  assumes copy: "dx_value_copy d s = Some (OK, Some d')" and s: "comparable s"
    and t: "dv_type d = dv_type s" and n: "dv_size d = dv_size s"
  shows "dx_value_compare d' s = Some 0"
proof (cases "dv_type s = VT_STRING \<or> dv_type s = VT_ENUM")
  case True
  with s obtain cap str where d: "dv_data s = PStr cap str" by (auto simp: comparable_def)
  with copy True have "dx_value_set_string (Some d) (Some str) (to_int32 (dv_size s)) =
      Some (OK, Some d')"
    by (auto simp: dx_value_copy_def)
  with s d True t show ?thesis by (intro comparable_copy_string)
next
  case False
  with s consider i where "dv_type s = VT_INTEGER" "as_integer (dv_data s) = Some i"
    | b where "dv_type s = VT_BOOLEAN" "as_boolean (dv_data s) = Some b"
    | q where "dv_type s = VT_FLOAT" "as_float (dv_data s) = Some (DFin q)"
    by (auto simp: comparable_def split: value_type.splits)
  then show ?thesis
    by cases (use copy t n in \<open>auto simp: dx_value_copy_def dx_value_compare_def dbl_minus_self
      dx_value_set_integer_def dx_value_set_boolean_def dx_value_set_float_def
      simp del: dbl_minus.simps\<close>)
qed

theorem value_copy_compare_witness:
  "\<exists>d'. dx_value_copy \<lparr>dv_type = VT_INTEGER, dv_data = PZero, dv_size = 0\<rparr>
          \<lparr>dv_type = VT_INTEGER, dv_data = PInt 42, dv_size = 0\<rparr> = Some (OK, Some d') \<and>
        dx_value_compare d' \<lparr>dv_type = VT_INTEGER, dv_data = PInt 42, dv_size = 0\<rparr> = Some 0"
proof -
  let ?d = "\<lparr>dv_type = VT_INTEGER, dv_data = PZero, dv_size = 0\<rparr>"
  let ?s = "\<lparr>dv_type = VT_INTEGER, dv_data = PInt 42, dv_size = 0\<rparr>"
  have c: "dx_value_copy ?d ?s = Some (OK, Some ?s)"
    by (simp add: dx_value_copy_def dx_value_set_integer_def)
  have s: "comparable ?s" by (simp add: comparable_def value_ok_def INT_MAX_def)
  from value_copy_compare [OF c s] c show ?thesis by simp
qed

text \<open>
  C31. Printing a string or enum value into a buffer of \<open>n\<close> bytes is defined exactly when the
  string and its terminator fit, and then prints it whole. The truncation that the function
  prepares for a buffer that is too small never happens: it writes outside the buffer instead.
\<close>

theorem stringify_string_fits:
  assumes "value_ok v" and "dv_type v = VT_STRING \<or> dv_type v = VT_ENUM"
    and "dv_data v = PStr cap s"
  shows "dx_value_stringify v n =
           (if int (length s) < n then Some (OK, s, Some (int (length s))) else None)"
proof -
  have sz: "dv_size v = int (length s)" and "to_int32 (dv_size v) = dv_size v"
    using assms by (auto simp: value_ok_def INT_MIN_def intro!: to_int32_id)
  moreover have "length s < cap" using assms by (simp add: value_ok_def)
  ultimately have "stringify_string v n =
      (if int (length s) < n then Some (OK, s, Some (int (length s))) else None)"
    using assms(3) by (auto simp: stringify_string_def Let_def)
  with assms(2) show ?thesis by (auto simp: dx_value_stringify_def)
qed

theorem stringify_string_fits_witness:
  "dx_value_stringify \<lparr>dv_type = VT_STRING, dv_data = PStr 4 ''abc'', dv_size = 3\<rparr> 3 = None \<and>
   dx_value_stringify \<lparr>dv_type = VT_STRING, dv_data = PStr 4 ''abc'', dv_size = 3\<rparr> 4 =
     Some (OK, ''abc'', Some 3)"
  using stringify_string_fits
    [of "\<lparr>dv_type = VT_STRING, dv_data = PStr 4 ''abc'', dv_size = 3\<rparr>" 4 "''abc''"]
  by (simp add: value_ok_def INT_MAX_def)

end
