(* ===== verification/Multimap.thy ===== *)
theory Multimap
  imports Prelude
begin

text \<open>
  3rdparty/void-multimap/multimap.c, the chained hash map from keys to ordered value lists that
  the element storage and the comparison are built on. A bucket is the list of its chain's
  nodes; a node's \<^verbatim>\<open>value_size\<close> is the length of its value list, and its capacity is
  kept. The comparison and hash callbacks are arguments, as in C. \<^verbatim>\<open>int\<close> counters are
  naturals: the bucket count doubles from 64 and stays far below \<open>2 ^ 31\<close>.

  The lemmas show that every operation keeps the hash table invariant and acts on the abstract
  multimap (the list of values of each key, in insertion order) as it should, resizing
  included; that the resizing recursion ends; and that no value is written outside its array.
\<close>

section \<open>The data and the operations\<close>

record ('k, 'v) mapnode =
  mn_key :: 'k
  value_list :: "'v list"
  value_capacity :: nat

record ('k, 'v) multimap =
  buckets :: "('k, 'v) mapnode list list"
  nbuckets :: nat
  mm_size :: nat

definition INIT_NUM_BUCKETS :: nat where "INIT_NUM_BUCKETS = 64"
definition INIT_VALUE_LIST_CAPACITY :: nat where "INIT_VALUE_LIST_CAPACITY = 8"

definition new_node :: "'k \<Rightarrow> 'v \<Rightarrow> ('k, 'v) mapnode" where
  "new_node key v =
     \<lparr>mn_key = key, value_list = [v], value_capacity = INIT_VALUE_LIST_CAPACITY\<rparr>"

definition multimap_create :: "('k, 'v) multimap" where
  "multimap_create =
     \<lparr>buckets = replicate INIT_NUM_BUCKETS [], nbuckets = INIT_NUM_BUCKETS, mm_size = 0\<rparr>"

text \<open>
  The walk \<^verbatim>\<open>while (*node && cmpfunc (key, node->key)) node = &node->next\<close>, which returns
  the node found; and the chain with that node replaced, or unlinked.
\<close>

fun chain_find :: "('k \<Rightarrow> 'k \<Rightarrow> int) \<Rightarrow> 'k \<Rightarrow> ('k, 'v) mapnode list \<Rightarrow> ('k, 'v) mapnode option" where
  "chain_find cmp key [] = None"
| "chain_find cmp key (n # ns) =
     (if cmp key (mn_key n) \<noteq> 0 then chain_find cmp key ns else Some n)"

fun chain_set :: "('k \<Rightarrow> 'k \<Rightarrow> int) \<Rightarrow> 'k \<Rightarrow> ('k, 'v) mapnode option \<Rightarrow>
    ('k, 'v) mapnode list \<Rightarrow> ('k, 'v) mapnode list" where
  "chain_set cmp key n' [] = []"
| "chain_set cmp key n' (n # ns) =
     (if cmp key (mn_key n) \<noteq> 0 then n # chain_set cmp key n' ns
      else (case n' of None \<Rightarrow> ns | Some m \<Rightarrow> m # ns))"

definition bucket_of :: "('k \<Rightarrow> nat) \<Rightarrow> ('k, 'v) multimap \<Rightarrow> 'k \<Rightarrow> nat" where
  "bucket_of hash m key = hash key mod nbuckets m"

definition find_node :: "('k \<Rightarrow> 'k \<Rightarrow> int) \<Rightarrow> ('k \<Rightarrow> nat) \<Rightarrow> ('k, 'v) multimap \<Rightarrow> 'k \<Rightarrow>
    ('k, 'v) mapnode option" where
  "find_node cmp hash m key = chain_find cmp key (buckets m ! bucket_of hash m key)"

definition append_value :: "'v \<Rightarrow> ('k, 'v) mapnode \<Rightarrow> ('k, 'v) mapnode" where
  "append_value v n =
     n\<lparr>value_list := value_list n @ [v],
       value_capacity := (if length (value_list n) = value_capacity n
                          then 2 * value_capacity n else value_capacity n)\<rparr>"

text \<open>
  \<^verbatim>\<open>multimap_push_value\<close> and \<^verbatim>\<open>resize_map\<close> call each other; the push is written over the
  resize it calls, and the recursion is tied by fuel below.
\<close>

definition push_value_with :: "(('k, 'v) multimap \<Rightarrow> ('k, 'v) multimap option) \<Rightarrow>
    ('k \<Rightarrow> 'k \<Rightarrow> int) \<Rightarrow> ('k \<Rightarrow> nat) \<Rightarrow> ('k, 'v) multimap \<Rightarrow> 'k \<Rightarrow> 'v \<Rightarrow>
    (int \<times> ('k, 'v) multimap) option" where
  "push_value_with resize cmp hash m key v =
     (let idx = bucket_of hash m key; chain = buckets m ! idx
      in case chain_find cmp key chain of
           Some n \<Rightarrow>
             if v \<in> set (value_list n) then Some (-1, m)
             else Some (0, m\<lparr>buckets := (buckets m)[idx := chain_set cmp key (Some (append_value v n)) chain],
                             mm_size := mm_size m + 1\<rparr>)
         | None \<Rightarrow>
             let m' = m\<lparr>buckets := (buckets m)[idx := chain @ [new_node key v]],
                        mm_size := mm_size m + 1\<rparr>
             in if nbuckets m' div 2 \<le> mm_size m' then map_option (\<lambda>r. (0, r)) (resize m')
                else Some (0, m'))"

fun push_all :: "(('k, 'v) multimap \<Rightarrow> 'k \<Rightarrow> 'v \<Rightarrow> (int \<times> ('k, 'v) multimap) option) \<Rightarrow>
    ('k \<times> 'v) list \<Rightarrow> ('k, 'v) multimap \<Rightarrow> ('k, 'v) multimap option" where
  "push_all push [] m = Some m"
| "push_all push ((k, v) # es) m =
     (case push m k v of None \<Rightarrow> None | Some (_, m') \<Rightarrow> push_all push es m')"

definition chain_entries :: "('k, 'v) mapnode list \<Rightarrow> ('k \<times> 'v) list" where
  "chain_entries ns = concat (map (\<lambda>n. map (Pair (mn_key n)) (value_list n)) ns)"

definition mm_entries :: "('k, 'v) multimap \<Rightarrow> ('k \<times> 'v) list" where
  "mm_entries m = concat (map chain_entries (buckets m))"

definition resize_map :: "(('k, 'v) multimap \<Rightarrow> 'k \<Rightarrow> 'v \<Rightarrow> (int \<times> ('k, 'v) multimap) option) \<Rightarrow>
    ('k, 'v) multimap \<Rightarrow> ('k, 'v) multimap option" where
  "resize_map push m =
     push_all push (mm_entries m)
       \<lparr>buckets = replicate (2 * nbuckets m) [], nbuckets = 2 * nbuckets m, mm_size = 0\<rparr>"

primrec push_value_fuel :: "nat \<Rightarrow> ('k \<Rightarrow> 'k \<Rightarrow> int) \<Rightarrow> ('k \<Rightarrow> nat) \<Rightarrow> ('k, 'v) multimap \<Rightarrow>
    'k \<Rightarrow> 'v \<Rightarrow> (int \<times> ('k, 'v) multimap) option" where
  "push_value_fuel 0 cmp hash = push_value_with (\<lambda>_. None) cmp hash"
| "push_value_fuel (Suc d) cmp hash =
     push_value_with (resize_map (push_value_fuel d cmp hash)) cmp hash"

lemma push_value_fuel_code [code]:
  "push_value_fuel 0 cmp hash m key v = push_value_with (\<lambda>_. None) cmp hash m key v"
  "push_value_fuel (Suc d) cmp hash m key v =
     push_value_with (resize_map (push_value_fuel d cmp hash)) cmp hash m key v"
  by simp_all

text \<open>One unit of fuel per entry is more than the nesting of resizes can use.\<close>

definition multimap_push_value :: "('k \<Rightarrow> 'k \<Rightarrow> int) \<Rightarrow> ('k \<Rightarrow> nat) \<Rightarrow> ('k, 'v) multimap \<Rightarrow>
    'k \<Rightarrow> 'v \<Rightarrow> (int \<times> ('k, 'v) multimap) option" where
  "multimap_push_value cmp hash m key v = push_value_fuel (mm_size m + 2) cmp hash m key v"

definition multimap_get_first :: "('k \<Rightarrow> 'k \<Rightarrow> int) \<Rightarrow> ('k \<Rightarrow> nat) \<Rightarrow> ('k, 'v) multimap option \<Rightarrow>
    'k \<Rightarrow> 'v option" where
  "multimap_get_first cmp hash mp key =
     (case mp of None \<Rightarrow> None | Some m \<Rightarrow>
        (case find_node cmp hash m key of None \<Rightarrow> None
         | Some n \<Rightarrow> (case value_list n of [] \<Rightarrow> None | v # _ \<Rightarrow> Some v)))"

text \<open>The iterator of \<^verbatim>\<open>multimap_fetch\<close> is the copy of the value list still to be returned.\<close>

definition multimap_fetch :: "('k \<Rightarrow> 'k \<Rightarrow> int) \<Rightarrow> ('k \<Rightarrow> nat) \<Rightarrow> ('k, 'v) multimap option \<Rightarrow>
    'k \<Rightarrow> 'v list option" where
  "multimap_fetch cmp hash mp key =
     (case mp of None \<Rightarrow> None | Some m \<Rightarrow> map_option value_list (find_node cmp hash m key))"

fun multimap_iterator_next :: "'v list option \<Rightarrow> 'v option \<times> 'v list option" where
  "multimap_iterator_next None = (None, None)"
| "multimap_iterator_next (Some []) = (None, Some [])"
| "multimap_iterator_next (Some (v # vs)) = (Some v, Some vs)"

text \<open>
  \<^verbatim>\<open>multimap_remove_value\<close> shifts the values behind the first match down by one, and unlinks
  a node that has no value left.
\<close>

definition multimap_remove_value :: "('k \<Rightarrow> 'k \<Rightarrow> int) \<Rightarrow> ('k \<Rightarrow> nat) \<Rightarrow> ('k, 'v) multimap \<Rightarrow>
    'k \<Rightarrow> 'v \<Rightarrow> 'v option \<times> ('k, 'v) multimap" where
  "multimap_remove_value cmp hash m key v =
     (let idx = bucket_of hash m key; chain = buckets m ! idx
      in case chain_find cmp key chain of
           None \<Rightarrow> (None, m)
         | Some n \<Rightarrow>
             if v \<notin> set (value_list n) then (None, m)
             else let vs = remove1 v (value_list n);
                      n' = (if vs = [] then None else Some (n\<lparr>value_list := vs\<rparr>))
                  in (Some v, m\<lparr>buckets := (buckets m)[idx := chain_set cmp key n' chain],
                                mm_size := mm_size m - 1\<rparr>))"

definition multimap_size :: "('k, 'v) multimap \<Rightarrow> nat" where
  "multimap_size m = mm_size m"

definition multimap_contains_key :: "('k \<Rightarrow> 'k \<Rightarrow> int) \<Rightarrow> ('k \<Rightarrow> nat) \<Rightarrow> ('k, 'v) multimap \<Rightarrow>
    'k \<Rightarrow> bool" where
  "multimap_contains_key cmp hash m key \<longleftrightarrow> find_node cmp hash m key \<noteq> None"

section \<open>The invariant and the abstract multimap\<close>

definition node_ok :: "('k, 'v) mapnode \<Rightarrow> bool" where
  "node_ok n \<longleftrightarrow> value_list n \<noteq> [] \<and> distinct (value_list n) \<and>
     length (value_list n) \<le> value_capacity n"

definition bucket_ok :: "('k \<Rightarrow> nat) \<Rightarrow> nat \<Rightarrow> nat \<Rightarrow> ('k, 'v) mapnode list \<Rightarrow> bool" where
  "bucket_ok hash nb i chain \<longleftrightarrow> distinct (map mn_key chain) \<and>
     (\<forall>n \<in> set chain. node_ok n \<and> hash (mn_key n) mod nb = i)"

definition multimap_inv :: "('k \<Rightarrow> nat) \<Rightarrow> ('k, 'v) multimap \<Rightarrow> bool" where
  "multimap_inv hash m \<longleftrightarrow> 2 \<le> nbuckets m \<and> length (buckets m) = nbuckets m \<and>
     (\<forall>i < nbuckets m. bucket_ok hash (nbuckets m) i (buckets m ! i)) \<and>
     mm_size m = length (mm_entries m)"

text \<open>The values of a key, in insertion order: what the code observes of the map.\<close>

definition mm_values :: "('k \<Rightarrow> 'k \<Rightarrow> int) \<Rightarrow> ('k \<Rightarrow> nat) \<Rightarrow> ('k, 'v) multimap \<Rightarrow> 'k \<Rightarrow> 'v list" where
  "mm_values cmp hash m key =
     (case find_node cmp hash m key of None \<Rightarrow> [] | Some n \<Rightarrow> value_list n)"

definition entries_of :: "'k \<Rightarrow> ('k \<times> 'v) list \<Rightarrow> 'v list" where
  "entries_of k es = map snd (filter (\<lambda>e. fst e = k) es)"

lemma entries_of_simps [simp]:
  "entries_of k [] = []"
  "entries_of k ((k', v) # es) = (if k' = k then v # entries_of k es else entries_of k es)"
  "entries_of k (es @ es') = entries_of k es @ entries_of k es'"
  by (simp_all add: entries_of_def)

lemma entries_of_node: "entries_of k (map (Pair k') vs) = (if k' = k then vs else [])"
  by (induction vs) auto

lemma chain_entries_simps [simp]:
  "chain_entries [] = []"
  "chain_entries (n # ns) = map (Pair (mn_key n)) (value_list n) @ chain_entries ns"
  "chain_entries (ns @ ns') = chain_entries ns @ chain_entries ns'"
  by (simp_all add: chain_entries_def)

lemma entries_of_chain_notin: "k \<notin> mn_key ` set ns \<Longrightarrow> entries_of k (chain_entries ns) = []"
  by (induction ns) (auto simp: entries_of_node)

lemma entries_of_concat_single:
  assumes "j < length bs" and "\<And>i. i < length bs \<Longrightarrow> i \<noteq> j \<Longrightarrow> entries_of k (chain_entries (bs ! i)) = []"
  shows "entries_of k (concat (map chain_entries bs)) = entries_of k (chain_entries (bs ! j))"
  using assms
proof (induction bs arbitrary: j)
  case Nil
  then show ?case by simp
next
  case (Cons b bs)
  have none: "entries_of k (concat (map chain_entries xs)) = []"
    if "\<And>i. i < length xs \<Longrightarrow> entries_of k (chain_entries (xs ! i)) = []" for xs :: "('a, 'b) mapnode list list"
    using that by (induction xs) (force simp: nth_Cons split: nat.splits)+
  show ?case
  proof (cases j)
    case 0
    have "entries_of k (chain_entries (bs ! i)) = []" if "i < length bs" for i
      using Cons.prems(2) [of "Suc i"] that 0 by simp
    then show ?thesis using none [of bs] 0 by simp
  next
    case (Suc j')
    have "entries_of k (chain_entries b) = []"
      using Cons.prems(2) [of 0] Suc by simp
    moreover have "entries_of k (chain_entries (bs ! i)) = []" if "i < length bs" "i \<noteq> j'" for i
      using Cons.prems(2) [of "Suc i"] that Suc by simp
    then have "entries_of k (concat (map chain_entries bs)) = entries_of k (chain_entries (bs ! j'))"
      using Cons.prems(1) Suc by (intro Cons.IH) auto
    ultimately show ?thesis using Suc by simp
  qed
qed

lemma length_entries_update:
  assumes "i < length bs"
  shows "length (concat (map chain_entries (bs[i := c]))) + length (chain_entries (bs ! i)) =
         length (concat (map chain_entries bs)) + length (chain_entries c)"
proof -
  have "bs[i := c] = take i bs @ c # drop (Suc i) bs"
    by (rule upd_conv_take_nth_drop [OF assms])
  moreover have "concat (map chain_entries bs) =
      concat (map chain_entries (take i bs @ bs ! i # drop (Suc i) bs))"
    by (simp only: id_take_nth_drop [OF assms, symmetric])
  ultimately show ?thesis by simp
qed

section \<open>Correctness over the callbacks\<close>

text \<open>
  The contract of the callbacks: the comparison returns 0 exactly for equal keys. Everything
  below is proved once for any such pair, and interpreted on \<^verbatim>\<open>strcmp\<close> and
  \<^verbatim>\<open>djb2\<close> by the element storage.
\<close>

locale key_callbacks =
  fixes cmp :: "'k \<Rightarrow> 'k \<Rightarrow> int" and hash :: "'k \<Rightarrow> nat"
  assumes cmp_eq: "cmp a b = 0 \<longleftrightarrow> a = b"
begin

lemma chain_find_Some:
  "chain_find cmp key ns = Some n \<Longrightarrow> n \<in> set ns \<and> mn_key n = key"
  by (induction ns) (auto simp: cmp_eq split: if_splits)

lemma chain_find_None: "chain_find cmp key ns = None \<longleftrightarrow> key \<notin> mn_key ` set ns"
  by (induction ns) (auto simp: cmp_eq)

lemma chain_find_snoc:
  "chain_find cmp key ns = None \<Longrightarrow>
   chain_find cmp k (ns @ [n]) = (if mn_key n = k then (if key = k then Some n else
      (case chain_find cmp k ns of None \<Rightarrow> Some n | r \<Rightarrow> r)) else chain_find cmp k ns)"
  by (induction ns) (auto simp: cmp_eq split: option.splits)

lemma chain_find_set:
  assumes "distinct (map mn_key ns)" and "\<And>m. n' = Some m \<Longrightarrow> mn_key m = key"
    and "key \<in> mn_key ` set ns"
  shows "chain_find cmp k (chain_set cmp key n' ns) = (if k = key then n' else chain_find cmp k ns)"
  using assms
proof (induction ns)
  case Nil
  then show ?case by simp
next
  case (Cons a ns)
  show ?case
  proof (cases "mn_key a = key")
    case True
    with Cons.prems show ?thesis
      by (cases n') (auto simp: cmp_eq chain_find_None)
  next
    case False
    with Cons show ?thesis by (auto simp: cmp_eq)
  qed
qed

lemma entries_of_chain:
  "distinct (map mn_key ns) \<Longrightarrow>
   entries_of k (chain_entries ns) = (case chain_find cmp k ns of None \<Rightarrow> [] | Some n \<Rightarrow> value_list n)"
  by (induction ns) (auto simp: cmp_eq entries_of_node entries_of_chain_notin)

lemma length_entries_set:
  assumes "chain_find cmp key ns = Some n"
  shows "length (chain_entries (chain_set cmp key n' ns)) + length (value_list n) =
         length (chain_entries ns) + (case n' of None \<Rightarrow> 0 | Some m \<Rightarrow> length (value_list m))"
  using assms by (induction ns) (auto simp: cmp_eq split: option.splits if_splits)

lemma set_chain_set:
  "set (chain_set cmp key n' ns) \<subseteq> set ns \<union> (case n' of None \<Rightarrow> {} | Some m \<Rightarrow> {m})"
  by (induction ns) (auto split: option.splits)

lemma keys_chain_set:
  assumes "\<And>m. n' = Some m \<Longrightarrow> mn_key m = key"
  shows "distinct (map mn_key ns) \<Longrightarrow> distinct (map mn_key (chain_set cmp key n' ns))"
proof (induction ns)
  case (Cons a ns)
  have "mn_key ` set (chain_set cmp key n' ns) \<subseteq> insert key (mn_key ` set ns)"
    using set_chain_set [of key n' ns] assms by (force split: option.splits)
  with Cons assms show ?case by (cases n') (auto simp: cmp_eq)
qed simp

lemma bucket_ok_set:
  assumes "bucket_ok hash nb i ns" and "chain_find cmp key ns = Some n"
    and "\<And>m. n' = Some m \<Longrightarrow> mn_key m = key \<and> node_ok m"
  shows "bucket_ok hash nb i (chain_set cmp key n' ns)"
proof -
  have "hash key mod nb = i"
    using assms(1) chain_find_Some [OF assms(2)] by (auto simp: bucket_ok_def)
  then show ?thesis
    using assms keys_chain_set [of n' key ns] set_chain_set [of key n' ns]
    by (fastforce simp: bucket_ok_def split: option.splits)
qed

lemma chain_find_set_bucket:
  assumes "bucket_ok hash nb i ns" and "chain_find cmp key ns = Some n"
    and "\<And>m. n' = Some m \<Longrightarrow> mn_key m = key \<and> node_ok m"
  shows "chain_find cmp k (chain_set cmp key n' ns) = (if k = key then n' else chain_find cmp k ns)"
  using assms chain_find_Some [OF assms(2)]
  by (intro chain_find_set) (auto simp: bucket_ok_def)

abbreviation vals :: "('k, 'v) multimap \<Rightarrow> 'k \<Rightarrow> 'v list" where
  "vals \<equiv> mm_values cmp hash"

abbreviation inv :: "('k, 'v) multimap \<Rightarrow> bool" where
  "inv \<equiv> multimap_inv hash"

lemma bucket_of_less: "inv m \<Longrightarrow> bucket_of hash m key < length (buckets m)"
  by (auto simp: multimap_inv_def bucket_of_def)

lemma inv_bucket: "inv m \<Longrightarrow> bucket_ok hash (nbuckets m) (bucket_of hash m key) (buckets m ! bucket_of hash m key)"
  by (auto simp: multimap_inv_def bucket_of_def)

lemma vals_entries:
  assumes "inv m"
  shows "vals m k = entries_of k (mm_entries m)"
proof -
  have "entries_of k (chain_entries (buckets m ! i)) = []"
    if "i < length (buckets m)" and "i \<noteq> bucket_of hash m k" for i
    using that assms
    by (intro entries_of_chain_notin) (auto simp: multimap_inv_def bucket_ok_def bucket_of_def)
  with bucket_of_less [OF assms, of k] have "entries_of k (mm_entries m) =
      entries_of k (chain_entries (buckets m ! bucket_of hash m k))"
    by (simp add: mm_entries_def entries_of_concat_single)
  then show ?thesis
    using inv_bucket [OF assms, of k]
    by (simp add: mm_values_def find_node_def entries_of_chain bucket_ok_def)
qed

lemma node_found_ok: "inv m \<Longrightarrow> find_node cmp hash m key = Some n \<Longrightarrow> node_ok n \<and> mn_key n = key"
  using inv_bucket [of m key] chain_find_Some
  by (fastforce simp: find_node_def bucket_ok_def)

lemma distinct_vals: "inv m \<Longrightarrow> distinct (vals m k)"
  by (auto simp: mm_values_def node_ok_def dest: node_found_ok split: option.splits)

text \<open>What replacing the chain of one key does to the invariant and to the values.\<close>

lemma update_chain:
  assumes m: "inv m" and i: "i = bucket_of hash m key"
    and c: "bucket_ok hash (nbuckets m) i c"
    and sz: "sz + length (chain_entries (buckets m ! i)) = mm_size m + length (chain_entries c)"
  shows "inv (m\<lparr>buckets := (buckets m)[i := c], mm_size := sz\<rparr>)"
proof -
  have il: "i < length (buckets m)" using bucket_of_less [OF m] i by simp
  from length_entries_update [OF il, of c] have
    "length (concat (map chain_entries ((buckets m)[i := c]))) = sz"
    using sz m by (simp add: multimap_inv_def mm_entries_def)
  then show ?thesis
    using m c il by (auto simp: multimap_inv_def mm_entries_def nth_list_update)
qed

lemma vals_update_chain:
  assumes m: "inv m" and i: "i = bucket_of hash m key"
    and c: "\<And>k. bucket_of hash m k = i \<Longrightarrow> chain_find cmp k c = (if k = key then n' else
              chain_find cmp k (buckets m ! i))"
  shows "vals (m\<lparr>buckets := (buckets m)[i := c], mm_size := sz\<rparr>) =
         (vals m)(key := (case n' of None \<Rightarrow> [] | Some n \<Rightarrow> value_list n))"
proof
  fix k
  show "vals (m\<lparr>buckets := (buckets m)[i := c], mm_size := sz\<rparr>) k =
      ((vals m)(key := (case n' of None \<Rightarrow> [] | Some n \<Rightarrow> value_list n))) k"
    using bucket_of_less [OF m, of key] c [of k] i
    by (cases "bucket_of hash m k = i")
      (auto simp: mm_values_def find_node_def bucket_of_def)
qed

subsection \<open>Pushing without a resize\<close>

lemma push_existing:
  assumes m: "inv m" and n: "find_node cmp hash m key = Some n" and v: "v \<notin> set (value_list n)"
    and m': "m' = m\<lparr>buckets := (buckets m)[bucket_of hash m key :=
        chain_set cmp key (Some (append_value v n)) (buckets m ! bucket_of hash m key)],
      mm_size := mm_size m + 1\<rparr>"
  shows "inv m' \<and> vals m' = (vals m)(key := vals m key @ [v])"
proof -
  let ?ns = "buckets m ! bucket_of hash m key"
  from n have f: "chain_find cmp key ?ns = Some n" by (simp add: find_node_def)
  have nok: "node_ok n" and nk: "mn_key n = key" using node_found_ok [OF m n] by auto
  then have "0 < value_capacity n" by (cases "value_list n") (auto simp: node_ok_def)
  then have k: "mn_key (append_value v n) = key" and ok: "node_ok (append_value v n)"
    using nok nk v by (auto simp: append_value_def node_ok_def)
  have "inv m'"
    unfolding m' by (rule update_chain [OF m refl bucket_ok_set [OF inv_bucket [OF m] f]])
      (use k ok length_entries_set [OF f, of "Some (append_value v n)"]
        in \<open>auto simp: append_value_def\<close>)
  moreover have "vals m' = (vals m)(key := value_list (append_value v n))"
    unfolding m'
    by (subst vals_update_chain [OF m refl chain_find_set_bucket [OF inv_bucket [OF m] f]])
      (use k ok in auto)
  ultimately show ?thesis using n by (auto simp: append_value_def mm_values_def)
qed

lemma push_fresh:
  assumes m: "inv m" and n: "find_node cmp hash m key = None"
    and m': "m' = m\<lparr>buckets := (buckets m)[bucket_of hash m key :=
        buckets m ! bucket_of hash m key @ [new_node key v]], mm_size := mm_size m + 1\<rparr>"
  shows "inv m' \<and> vals m' = (vals m)(key := [v])"
proof -
  let ?ns = "buckets m ! bucket_of hash m key"
  from n have f: "chain_find cmp key ?ns = None" by (simp add: find_node_def)
  then have "bucket_ok hash (nbuckets m) (bucket_of hash m key) (?ns @ [new_node key v])"
    using inv_bucket [OF m, of key]
    by (auto simp: bucket_ok_def chain_find_None new_node_def node_ok_def bucket_of_def
        INIT_VALUE_LIST_CAPACITY_def)
  then have "inv m'"
    unfolding m' by (rule update_chain [OF m refl]) (simp add: new_node_def)
  moreover have "vals m' = (vals m)(key := value_list (new_node key v))"
    unfolding m'
    using vals_update_chain [OF m refl, where n' = "Some (new_node key v)"] f
    by (auto simp: chain_find_snoc new_node_def)
  ultimately show ?thesis by (simp add: new_node_def)
qed

subsection \<open>Pushing with the resizes it triggers\<close>

text \<open>What a push does to an abstract multimap.\<close>

definition pushed :: "('k, 'v) multimap \<Rightarrow> 'k \<Rightarrow> 'v \<Rightarrow> int \<Rightarrow> ('k, 'v) multimap \<Rightarrow> bool" where
  "pushed m k v r m' \<longleftrightarrow> inv m' \<and> nbuckets m \<le> nbuckets m' \<and>
     (if v \<in> set (vals m k) then r = -1 \<and> vals m' = vals m \<and> mm_size m' = mm_size m
      else r = 0 \<and> vals m' = (vals m)(k := vals m k @ [v]) \<and> mm_size m' = mm_size m + 1)"

lemma push_all_spec:
  assumes push: "\<And>m k v. inv m \<Longrightarrow> nb \<le> nbuckets m \<Longrightarrow> mm_size m < T \<Longrightarrow>
      \<exists>r m'. push m k v = Some (r, m') \<and> pushed m k v r m'"
    and m: "inv m" and nb: "nb \<le> nbuckets m" and T: "mm_size m + length es \<le> T"
    and d: "\<And>k. distinct (vals m k @ entries_of k es)"
  shows "\<exists>m'. push_all push es m = Some m' \<and> inv m' \<and> nbuckets m \<le> nbuckets m' \<and>
           (\<forall>k. vals m' k = vals m k @ entries_of k es) \<and> mm_size m' = mm_size m + length es"
  using m nb T d
proof (induction es arbitrary: m)
  case Nil
  then show ?case by simp
next
  case (Cons e es)
  obtain k v where e: "e = (k, v)" by (cases e)
  from push [of m k v] Cons.prems obtain r m1 where
    p: "push m k v = Some (r, m1)" and post: "pushed m k v r m1" by auto
  have "v \<notin> set (vals m k)" using Cons.prems(4) [of k] e by auto
  with post have m1: "inv m1" "nbuckets m \<le> nbuckets m1" "vals m1 = (vals m)(k := vals m k @ [v])"
    "mm_size m1 = mm_size m + 1" by (auto simp: pushed_def)
  have "distinct (vals m1 k' @ entries_of k' es)" for k'
    using Cons.prems(4) [of k'] e m1(3) by (cases "k' = k") auto
  with Cons.IH [of m1] Cons.prems m1 obtain m2 where
    "push_all push es m1 = Some m2" "inv m2" "nbuckets m1 \<le> nbuckets m2"
    "\<forall>k. vals m2 k = vals m1 k @ entries_of k es" "mm_size m2 = mm_size m1 + length es"
    by auto
  with p m1 e show ?case by auto
qed

definition empty_map :: "nat \<Rightarrow> ('k, 'v) multimap" where
  "empty_map nb = \<lparr>buckets = replicate nb [], nbuckets = nb, mm_size = 0\<rparr>"

lemma empty_map_simps [simp]: "nbuckets (empty_map nb) = nb" "mm_size (empty_map nb) = 0"
  by (simp_all add: empty_map_def)

lemma empty_map_inv: "2 \<le> nb \<Longrightarrow> inv (empty_map nb)"
  by (auto simp: empty_map_def multimap_inv_def bucket_ok_def mm_entries_def)

lemma empty_map_vals: "2 \<le> nb \<Longrightarrow> vals (empty_map nb) k = []"
  by (simp add: empty_map_def mm_values_def find_node_def bucket_of_def)

lemma resize_spec:
  fixes m :: "('k, 'v) multimap"
  assumes push: "\<And>m k v. inv m \<Longrightarrow> nb \<le> nbuckets m \<Longrightarrow> mm_size m < T \<Longrightarrow>
      \<exists>r m'. push m k v = Some (r, m') \<and> pushed m k v r m'"
    and m: "inv m" and nb: "nb \<le> 2 * nbuckets m" and T: "mm_size m \<le> T"
  shows "\<exists>m'. resize_map push m = Some m' \<and> inv m' \<and> 2 * nbuckets m \<le> nbuckets m' \<and>
           vals m' = vals m \<and> mm_size m' = mm_size m"
proof -
  let ?e = "empty_map (2 * nbuckets m) :: ('k, 'v) multimap"
  have two: "2 \<le> 2 * nbuckets m" and len: "length (mm_entries m) = mm_size m"
    using m by (auto simp: multimap_inv_def)
  have "\<exists>m'. push_all push (mm_entries m) ?e = Some m' \<and> inv m' \<and> nbuckets ?e \<le> nbuckets m' \<and>
      (\<forall>k. vals m' k = vals ?e k @ entries_of k (mm_entries m)) \<and>
      mm_size m' = mm_size ?e + length (mm_entries m)"
  proof (rule push_all_spec [of nb T push])
    show "distinct (vals ?e k @ entries_of k (mm_entries m))" for k
      using distinct_vals [OF m, of k] by (simp add: empty_map_vals [OF two] vals_entries [OF m])
  qed (use push two len T nb empty_map_inv [OF two] in auto)
  then show ?thesis
    by (auto simp: resize_map_def empty_map_vals [OF two] vals_entries [OF m] len fun_eq_iff
        simp flip: empty_map_def)
qed

lemma push_value_with_spec:
  assumes m: "inv m"
    and resize: "\<And>m'. inv m' \<Longrightarrow> nbuckets m' = nbuckets m \<Longrightarrow> mm_size m' = mm_size m + 1 \<Longrightarrow>
      nbuckets m' div 2 \<le> mm_size m' \<Longrightarrow>
      \<exists>r. resize m' = Some r \<and> inv r \<and> nbuckets m' \<le> nbuckets r \<and> vals r = vals m' \<and>
          mm_size r = mm_size m'"
  shows "\<exists>r m'. push_value_with resize cmp hash m k v = Some (r, m') \<and> pushed m k v r m'"
proof (cases "find_node cmp hash m k")
  case (Some n)
  then have vals: "vals m k = value_list n" by (simp add: mm_values_def)
  show ?thesis
  proof (cases "v \<in> set (value_list n)")
    case True
    with Some vals m show ?thesis
      by (simp add: push_value_with_def Let_def pushed_def find_node_def)
  next
    case False
    with Some vals push_existing [OF m Some False refl] show ?thesis
      by (simp add: push_value_with_def Let_def pushed_def find_node_def)
  qed
next
  case None
  then have vals: "vals m k = []" by (simp add: mm_values_def)
  define m' where "m' = m\<lparr>buckets := (buckets m)[bucket_of hash m k :=
        buckets m ! bucket_of hash m k @ [new_node k v]], mm_size := mm_size m + 1\<rparr>"
  have m': "inv m'" "vals m' = (vals m)(k := [v])" "nbuckets m' = nbuckets m"
    "mm_size m' = mm_size m + 1"
    using push_fresh [OF m None m'_def] by (simp_all add: m'_def)
  have push: "push_value_with resize cmp hash m k v =
      (if nbuckets m' div 2 \<le> mm_size m' then map_option (\<lambda>r. (0, r)) (resize m')
       else Some (0, m'))"
    using None by (simp add: push_value_with_def Let_def find_node_def m'_def)
  show ?thesis
    using push resize [OF m'(1,3,4)] m' vals by (auto simp: pushed_def)
qed

text \<open>
  With \<open>d\<close> units of fuel the size may reach \<open>nbuckets * 2 ^ d div 2\<close> before a push would
  need a resize it has no fuel for.
\<close>

lemma push_value_fuel_spec:
  fixes m :: "('k, 'v) multimap"
  assumes "inv m" and "nb \<le> nbuckets m" and "mm_size m < T" and "T < nb * 2 ^ d div 2"
  shows "\<exists>r m'. push_value_fuel d cmp hash m k v = Some (r, m') \<and> pushed m k v r m'"
  using assms
proof (induction d arbitrary: m k v nb)
  case 0
  have "nb div 2 \<le> nbuckets m div 2" using 0(2) by (rule div_le_mono)
  with 0 show ?case by (simp, intro push_value_with_spec) auto
next
  case (Suc d)
  have "\<exists>r. resize_map (push_value_fuel d cmp hash) m' = Some r \<and> inv r \<and>
      2 * nbuckets m' \<le> nbuckets r \<and> vals r = vals m' \<and> mm_size r = mm_size m'"
    if "inv m'" "nbuckets m' = nbuckets m" "mm_size m' = mm_size m + 1" for m' :: "('k, 'v) multimap"
  proof (rule resize_spec [of "2 * nb" T])
    show "\<exists>r m2. push_value_fuel d cmp hash m1 k v = Some (r, m2) \<and> pushed m1 k v r m2"
      if "inv m1" "2 * nb \<le> nbuckets m1" "mm_size m1 < T" for m1 :: "('k, 'v) multimap" and k v
      using Suc.IH [OF that(1,2,3)] Suc.prems(4) by (simp add: mult.assoc mult.left_commute)
  qed (use that Suc.prems in auto)
  then show ?case
    unfolding push_value_fuel.simps using Suc.prems(1)
    by (intro push_value_with_spec) fastforce+
qed

lemma push_value_spec:
  assumes "inv m"
  shows "\<exists>r m'. multimap_push_value cmp hash m k v = Some (r, m') \<and> pushed m k v r m'"
  unfolding multimap_push_value_def
proof (rule push_value_fuel_spec [of m 2 "mm_size m + 1"])
  have "mm_size m + 1 < 2 ^ (mm_size m + 1)" by (rule less_exp)
  also have "\<dots> \<le> 2 * 2 ^ (mm_size m + 2) div (2 :: nat)" by simp
  finally show "mm_size m + 1 < 2 * 2 ^ (mm_size m + 2) div 2" .
qed (use assms in \<open>auto simp: multimap_inv_def\<close>)

subsection \<open>Removing and looking up\<close>

lemma remove_value_spec:
  assumes m: "inv m" and r: "multimap_remove_value cmp hash m k v = (r, m')"
  shows "inv m' \<and> (if v \<in> set (vals m k)
           then r = Some v \<and> vals m' = (vals m)(k := remove1 v (vals m k)) \<and> mm_size m' + 1 = mm_size m
           else r = None \<and> m' = m)"
proof (cases "find_node cmp hash m k")
  case None
  with r m show ?thesis
    by (auto simp: multimap_remove_value_def Let_def find_node_def mm_values_def)
next
  case (Some n)
  let ?ns = "buckets m ! bucket_of hash m k"
  have vals: "vals m k = value_list n" using Some by (simp add: mm_values_def)
  have f: "chain_find cmp k ?ns = Some n" using Some by (simp add: find_node_def)
  show ?thesis
  proof (cases "v \<in> set (value_list n)")
    case False
    with r m f vals show ?thesis by (auto simp: multimap_remove_value_def Let_def)
  next
    case True
    define vs where "vs = remove1 v (value_list n)"
    define n' where "n' = (if vs = [] then None else Some (n\<lparr>value_list := vs\<rparr>))"
    have r': "r = Some v" and m': "m' = m\<lparr>buckets := (buckets m)[bucket_of hash m k :=
        chain_set cmp k n' ?ns], mm_size := mm_size m - 1\<rparr>"
      using r f True by (auto simp: multimap_remove_value_def Let_def n'_def vs_def)
    have nok: "node_ok n" and nk: "mn_key n = k" using node_found_ok [OF m Some] by auto
    have lvs: "length vs + 1 = length (value_list n)"
      using True by (auto simp: vs_def length_remove1 Suc_diff_Suc length_greater_0_conv [symmetric]
          simp del: length_greater_0_conv dest: length_pos_if_in_set)
    have ok: "mn_key a = k \<and> node_ok a" if "n' = Some a" for a
      using that nok nk lvs by (auto simp: n'_def vs_def node_ok_def split: if_splits)
    have len: "length (chain_entries (chain_set cmp k n' ?ns)) + 1 = length (chain_entries ?ns)"
      using length_entries_set [OF f, of n'] lvs by (auto simp: n'_def split: if_splits)
    have pos: "mm_size m = mm_size m - 1 + 1"
    proof -
      have "v \<in> set (entries_of k (mm_entries m))" using True vals vals_entries [OF m, of k] by simp
      then have "mm_entries m \<noteq> []" by (auto simp: entries_of_def)
      with m show ?thesis by (simp add: multimap_inv_def)
    qed
    have "inv m'"
      unfolding m' by (rule update_chain [OF m refl bucket_ok_set [OF inv_bucket [OF m] f ok]])
        (use len pos in simp_all)
    moreover have "vals m' = (vals m)(k := (case n' of None \<Rightarrow> [] | Some a \<Rightarrow> value_list a))"
      unfolding m'
      by (rule vals_update_chain [OF m refl chain_find_set_bucket [OF inv_bucket [OF m] f ok]])
    moreover have "(case n' of None \<Rightarrow> [] | Some a \<Rightarrow> value_list a) = vs"
      by (simp add: n'_def)
    ultimately show ?thesis using True vals r' pos by (simp add: vs_def m')
  qed
qed

lemma get_first_spec:
  "inv m \<Longrightarrow> multimap_get_first cmp hash (Some m) k = (case vals m k of [] \<Rightarrow> None | v # _ \<Rightarrow> Some v)"
  by (simp add: multimap_get_first_def mm_values_def split: option.splits)

lemma fetch_spec:
  "inv m \<Longrightarrow> multimap_fetch cmp hash (Some m) k = (if vals m k = [] then None else Some (vals m k))"
  using node_found_ok [of m k]
  by (auto simp: multimap_fetch_def mm_values_def node_ok_def split: option.splits)

lemma contains_key_spec:
  "inv m \<Longrightarrow> multimap_contains_key cmp hash m k \<longleftrightarrow> vals m k \<noteq> []"
  using node_found_ok [of m k]
  by (auto simp: multimap_contains_key_def mm_values_def node_ok_def split: option.splits)

lemma create_eq: "multimap_create = empty_map INIT_NUM_BUCKETS"
  by (simp add: multimap_create_def empty_map_def)

lemma create_spec: "inv multimap_create" "vals multimap_create = (\<lambda>_. [])"
  unfolding create_eq
  by (simp_all add: empty_map_inv empty_map_vals fun_eq_iff INIT_NUM_BUCKETS_def)

end

end
