(* ===== verification/VList.thy ===== *)
theory VList
  imports Prelude
begin

text \<open>
  3rdparty/void-list/list.c and list_iterator.c: the doubly linked list that keeps the elements
  of an element storage in insertion order. The list owns its nodes, which live in a heap of
  their own (\<open>nodes\<close>, with \<open>fresh\<close> the next free address); \<^verbatim>\<open>prev\<close> and
  \<^verbatim>\<open>next\<close> are addresses or NULL. Reading an address that holds no node is the fault
  \<open>None\<close>. The callbacks \<^verbatim>\<open>free\<close> and \<^verbatim>\<open>match\<close> are NULL, as libdisir leaves them.

  \<open>list_repr l vs\<close> says that \<open>l\<close> is a well-linked list of the values \<open>vs\<close>. The
  lemmas show that every operation stays within the heap and does to \<open>vs\<close> what its comment
  promises, and that both loops end. The locale \<open>value_list_store\<close> is the interface the
  element storage relies on, interpreted here on these operations.

  \<^verbatim>\<open>list_at\<close> and \<^verbatim>\<open>list_value_exist\<close> have no caller in libdisir and are not modelled:
  both read a field of the value an iterator returned, as if it were a node.
\<close>

section \<open>The data and the operations\<close>

record 'v list_node =
  nd_prev :: "nat option"
  nd_next :: "nat option"
  nd_val :: 'v

record 'v list_t =
  list_head :: "nat option"
  list_tail :: "nat option"
  list_len :: nat
  nodes :: "nat \<Rightarrow> 'v list_node option"
  fresh :: nat

definition list_create :: "'v list_t" where
  "list_create =
     \<lparr>list_head = None, list_tail = None, list_len = 0, nodes = (\<lambda>_. None), fresh = 0\<rparr>"

definition list_node_new :: "'v \<Rightarrow> 'v list_t \<Rightarrow> nat \<times> 'v list_t" where
  "list_node_new v l =
     (fresh l, l\<lparr>nodes := (nodes l)(fresh l \<mapsto> \<lparr>nd_prev = None, nd_next = None, nd_val = v\<rparr>),
                fresh := fresh l + 1\<rparr>)"

text \<open>Writing one field through a pointer: \<open>p->next = x\<close> and \<open>p->prev = x\<close>.\<close>

definition set_next :: "nat option \<Rightarrow> nat option \<Rightarrow> 'v list_t \<Rightarrow> 'v list_t option" where
  "set_next p x l =
     (do { a \<leftarrow> p; n \<leftarrow> nodes l a; Some (l\<lparr>nodes := (nodes l)(a \<mapsto> n\<lparr>nd_next := x\<rparr>)\<rparr>) })"

definition set_prev :: "nat option \<Rightarrow> nat option \<Rightarrow> 'v list_t \<Rightarrow> 'v list_t option" where
  "set_prev p x l =
     (do { a \<leftarrow> p; n \<leftarrow> nodes l a; Some (l\<lparr>nodes := (nodes l)(a \<mapsto> n\<lparr>nd_prev := x\<rparr>)\<rparr>) })"

definition list_rpush :: "'v list_t \<Rightarrow> 'v option \<Rightarrow> (int \<times> 'v list_t) option" where
  "list_rpush l value =
     (case value of None \<Rightarrow> Some (-1, l)
      | Some v \<Rightarrow>
          let (p, l1) = list_node_new v l
          in if list_len l \<noteq> 0 then do {
               l2 \<leftarrow> set_prev (Some p) (list_tail l1) l1;
               l3 \<leftarrow> set_next (Some p) None l2;
               l4 \<leftarrow> set_next (list_tail l3) (Some p) l3;
               Some (0, l4\<lparr>list_tail := Some p, list_len := list_len l4 + 1\<rparr>) }
             else do {
               l2 \<leftarrow> set_next (Some p) None (l1\<lparr>list_tail := Some p, list_head := Some p\<rparr>);
               l3 \<leftarrow> set_prev (Some p) None l2;
               Some (0, l3\<lparr>list_len := list_len l3 + 1\<rparr>) })"

definition list_lpush :: "'v list_t \<Rightarrow> 'v option \<Rightarrow> (int \<times> 'v list_t) option" where
  "list_lpush l value =
     (case value of None \<Rightarrow> Some (-1, l)
      | Some v \<Rightarrow>
          let (p, l1) = list_node_new v l
          in if list_len l \<noteq> 0 then do {
               l2 \<leftarrow> set_next (Some p) (list_head l1) l1;
               l3 \<leftarrow> set_prev (Some p) None l2;
               l4 \<leftarrow> set_prev (list_head l3) (Some p) l3;
               Some (0, l4\<lparr>list_head := Some p, list_len := list_len l4 + 1\<rparr>) }
             else do {
               l2 \<leftarrow> set_next (Some p) None (l1\<lparr>list_tail := Some p, list_head := Some p\<rparr>);
               l3 \<leftarrow> set_prev (Some p) None l2;
               Some (0, l3\<lparr>list_len := list_len l3 + 1\<rparr>) })"

text \<open>The pops detach the node and do not free it.\<close>

definition list_rpop :: "'v list_t \<Rightarrow> ('v option \<times> 'v list_t) option" where
  "list_rpop l =
     (if list_len l = 0 then Some (None, l)
      else do {
        p \<leftarrow> list_tail l;
        n \<leftarrow> nodes l p;
        let l1 = l\<lparr>list_len := list_len l - 1\<rparr>;
        l2 \<leftarrow> (if list_len l1 \<noteq> 0
              then set_next (nd_prev n) None (l1\<lparr>list_tail := nd_prev n\<rparr>)
              else Some (l1\<lparr>list_tail := None, list_head := None\<rparr>));
        l3 \<leftarrow> set_prev (Some p) None l2;
        l4 \<leftarrow> set_next (Some p) None l3;
        Some (Some (nd_val n), l4) })"

definition list_lpop :: "'v list_t \<Rightarrow> ('v option \<times> 'v list_t) option" where
  "list_lpop l =
     (if list_len l = 0 then Some (None, l)
      else do {
        p \<leftarrow> list_head l;
        n \<leftarrow> nodes l p;
        let l1 = l\<lparr>list_len := list_len l - 1\<rparr>;
        l2 \<leftarrow> (if list_len l1 \<noteq> 0
              then set_prev (nd_next n) None (l1\<lparr>list_head := nd_next n\<rparr>)
              else Some (l1\<lparr>list_tail := None, list_head := None\<rparr>));
        l3 \<leftarrow> set_prev (Some p) None l2;
        l4 \<leftarrow> set_next (Some p) None l3;
        Some (Some (nd_val n), l4) })"

text \<open>
  The walk of \<^verbatim>\<open>list_remove\<close> to the first node that holds the value: \<open>Some None\<close> when
  it runs off the end. It may not end on a list that is not well linked.
\<close>

partial_function (option) walk_to :: "('v list_t) \<Rightarrow> 'v \<Rightarrow> nat option \<Rightarrow> nat option option" where
  "walk_to l v p =
     (case p of None \<Rightarrow> Some None
      | Some a \<Rightarrow> do {
          n \<leftarrow> nodes l a;
          if nd_val n = v then Some (Some a) else walk_to l v (nd_next n) })"

definition list_remove :: "'v list_t \<Rightarrow> 'v \<Rightarrow> (int \<times> 'v list_t) option" where
  "list_remove l v = do {
     r \<leftarrow> walk_to l v (list_head l);
     case r of None \<Rightarrow> Some (-1, l)
     | Some a \<Rightarrow> do {
         n \<leftarrow> nodes l a;
         l1 \<leftarrow> (case nd_prev n of Some p \<Rightarrow> set_next (Some p) (nd_next n) l
               | None \<Rightarrow> Some (l\<lparr>list_head := nd_next n\<rparr>));
         l2 \<leftarrow> (case nd_next n of Some q \<Rightarrow> set_prev (Some q) (nd_prev n) l1
               | None \<Rightarrow> Some (l1\<lparr>list_tail := nd_prev n\<rparr>));
         Some (0, l2\<lparr>nodes := (nodes l2)(a := None), list_len := list_len l2 - 1\<rparr>) } }"

datatype list_direction = LIST_HEAD | LIST_TAIL

record list_iterator =
  it_next :: "nat option"
  it_direction :: list_direction

definition list_iterator_create :: "'v list_t \<Rightarrow> list_direction \<Rightarrow> list_iterator" where
  "list_iterator_create l d =
     \<lparr>it_next = (case d of LIST_HEAD \<Rightarrow> list_head l | LIST_TAIL \<Rightarrow> list_tail l),
      it_direction = d\<rparr>"

definition list_iterator_next :: "'v list_t \<Rightarrow> list_iterator \<Rightarrow> ('v option \<times> list_iterator) option" where
  "list_iterator_next l it =
     (case it_next it of None \<Rightarrow> Some (None, it)
      | Some a \<Rightarrow> do {
          n \<leftarrow> nodes l a;
          Some (Some (nd_val n),
                it\<lparr>it_next := (case it_direction it of LIST_HEAD \<Rightarrow> nd_next n | LIST_TAIL \<Rightarrow> nd_prev n)\<rparr>) })"

text \<open>The loop \<^verbatim>\<open>while ((v = list_iterator_next (iter)))\<close>, collecting what it visits.\<close>

partial_function (option) iterate_all :: "'v list_t \<Rightarrow> list_iterator \<Rightarrow> 'v list option" where
  "iterate_all l it = do {
     (r, it') \<leftarrow> list_iterator_next l it;
     case r of None \<Rightarrow> Some []
     | Some v \<Rightarrow> do { vs \<leftarrow> iterate_all l it'; Some (v # vs) } }"

declare walk_to.simps [code]
declare iterate_all.simps [code]

definition list_values :: "'v list_t \<Rightarrow> 'v list option" where
  "list_values l = iterate_all l (list_iterator_create l LIST_HEAD)"

section \<open>Well-linked lists\<close>

text \<open>
  \<open>dseg N pv ps vs nx\<close>: the addresses \<open>ps\<close> hold nodes with the values \<open>vs\<close>, each
  linked to its neighbours, the first back to \<open>pv\<close> and the last on to \<open>nx\<close>.
\<close>

fun hd_or :: "nat option \<Rightarrow> nat list \<Rightarrow> nat option" where
  "hd_or x [] = x"
| "hd_or x (p # ps) = Some p"

fun last_or :: "nat option \<Rightarrow> nat list \<Rightarrow> nat option" where
  "last_or x [] = x"
| "last_or x (p # ps) = last_or (Some p) ps"

fun dseg :: "(nat \<Rightarrow> 'v list_node option) \<Rightarrow> nat option \<Rightarrow> nat list \<Rightarrow> 'v list \<Rightarrow> nat option \<Rightarrow> bool" where
  "dseg N pv [] vs nx \<longleftrightarrow> vs = []"
| "dseg N pv (p # ps) vs nx \<longleftrightarrow>
     (case vs of [] \<Rightarrow> False
      | v # vs' \<Rightarrow> N p = Some \<lparr>nd_prev = pv, nd_next = hd_or nx ps, nd_val = v\<rparr> \<and>
                  dseg N (Some p) ps vs' nx)"

definition list_at_addrs :: "'v list_t \<Rightarrow> nat list \<Rightarrow> 'v list \<Rightarrow> bool" where
  "list_at_addrs l ps vs \<longleftrightarrow>
     dseg (nodes l) None ps vs None \<and> distinct ps \<and> (\<forall>p \<in> set ps. p < fresh l) \<and>
     list_head l = hd_or None ps \<and> list_tail l = last_or None ps \<and> list_len l = length vs"

definition list_repr :: "'v list_t \<Rightarrow> 'v list \<Rightarrow> bool" where
  "list_repr l vs \<longleftrightarrow> (\<exists>ps. list_at_addrs l ps vs)"

lemma last_or_snoc [simp]: "last_or x (ps @ [p]) = Some p"
  by (induction ps arbitrary: x) auto

lemma last_or_append: "last_or x (ps @ qs) = last_or (last_or x ps) qs"
  by (induction ps arbitrary: x) auto

lemma hd_or_append: "hd_or x (ps @ qs) = hd_or (hd_or x qs) ps"
  by (cases ps) auto

lemma dseg_length: "dseg N pv ps vs nx \<Longrightarrow> length ps = length vs"
  by (induction ps arbitrary: pv vs) (auto split: list.splits)

lemma dseg_append:
  "length ps = length vs \<Longrightarrow>
   dseg N pv (ps @ qs) (vs @ ws) nx \<longleftrightarrow>
   dseg N pv ps vs (hd_or nx qs) \<and> dseg N (last_or pv ps) qs ws nx"
  by (induction ps arbitrary: pv vs) (auto simp: hd_or_append split: list.splits)

lemma dseg_upd_other: "a \<notin> set ps \<Longrightarrow> dseg (N(a := x)) pv ps vs nx = dseg N pv ps vs nx"
  by (induction ps arbitrary: pv vs) (auto split: list.splits)

text \<open>The two updates every operation is made of: the last forward link, the first back link.\<close>

lemma dseg_set_nx:
  assumes "dseg N pv (ps @ [p]) vs nx" and "distinct (ps @ [p])" and "N p = Some n"
  shows "dseg (N(p \<mapsto> n\<lparr>nd_next := nx'\<rparr>)) pv (ps @ [p]) vs nx'"
proof -
  obtain us v where vs: "vs = us @ [v]" "length us = length ps"
    using dseg_length [OF assms(1)] by (cases vs rule: rev_cases) auto
  with assms show ?thesis
    by (auto simp: dseg_append dseg_upd_other)
qed

lemma dseg_set_pv:
  assumes "dseg N pv (p # ps) vs nx" and "p \<notin> set ps" and "N p = Some n"
  shows "dseg (N(p \<mapsto> n\<lparr>nd_prev := pv'\<rparr>)) pv' (p # ps) vs nx"
  using assms by (auto simp: dseg_upd_other split: list.splits)

section \<open>The operations on well-linked lists\<close>

lemma repr_create: "list_repr list_create []"
  by (auto simp: list_repr_def list_at_addrs_def list_create_def intro!: exI [of _ "[]"])

lemma list_rpush_spec:
  assumes l: "list_repr l vs"
  shows "\<exists>l'. list_rpush l (Some v) = Some (0, l') \<and> list_repr l' (vs @ [v])"
proof -
  obtain ps where ps: "list_at_addrs l ps vs" using l by (auto simp: list_repr_def)
  have new: "fresh l \<notin> set ps" using ps by (auto simp: list_at_addrs_def)
  show ?thesis
  proof (cases ps rule: rev_cases)
    case Nil
    with ps have "list_len l = 0" "vs = []" by (auto simp: list_at_addrs_def)
    with ps show ?thesis
      by (auto simp: list_rpush_def list_node_new_def set_next_def set_prev_def list_repr_def
          list_at_addrs_def intro!: exI [of _ "[fresh l]"])
  next
    case (snoc qs p)
    have seg: "dseg (nodes l) None (qs @ [p]) vs None" and d: "distinct (qs @ [p])"
      and len: "list_len l = length vs" "length vs = Suc (length qs)"
      and t: "list_tail l = Some p" and h: "list_head l = hd_or None ps"
      and less: "\<forall>a\<in>set ps. a < fresh l"
      using ps snoc dseg_length [of "nodes l" None ps vs None] by (auto simp: list_at_addrs_def)
    obtain us u where vs: "vs = us @ [u]" "length us = length qs"
      using len by (cases vs rule: rev_cases) auto
    with seg obtain n where n: "nodes l p = Some n" by (auto simp: dseg_append)
    define N where "N = (nodes l)(p \<mapsto> n\<lparr>nd_next := Some (fresh l)\<rparr>,
        fresh l \<mapsto> \<lparr>nd_prev = Some p, nd_next = None, nd_val = v\<rparr>)"
    define l' where "l' = l\<lparr>nodes := N, fresh := fresh l + 1, list_tail := Some (fresh l),
        list_len := list_len l + 1\<rparr>"
    have "p \<noteq> fresh l" using new snoc by auto
    then have run: "list_rpush l (Some v) = Some (0, l')"
      using t n len
      by (simp add: list_rpush_def list_node_new_def set_next_def set_prev_def l'_def N_def fun_upd_twist)
    have "dseg N None (qs @ [p]) vs (Some (fresh l))"
      using dseg_set_nx [OF seg d n, of "Some (fresh l)"] new snoc
      by (simp add: N_def dseg_upd_other)
    then have "dseg N None (ps @ [fresh l]) (vs @ [v]) None"
      using snoc len by (subst dseg_append) (auto simp: N_def)
    then have "list_at_addrs l' (ps @ [fresh l]) (vs @ [v])"
      using new d snoc less len h by (auto simp: list_at_addrs_def l'_def hd_or_append last_or_append)
    with run show ?thesis by (auto simp: list_repr_def)
  qed
qed

lemma list_lpush_spec:
  assumes l: "list_repr l vs"
  shows "\<exists>l'. list_lpush l (Some v) = Some (0, l') \<and> list_repr l' (v # vs)"
proof -
  obtain ps where ps: "list_at_addrs l ps vs" using l by (auto simp: list_repr_def)
  have new: "fresh l \<notin> set ps" using ps by (auto simp: list_at_addrs_def)
  show ?thesis
  proof (cases ps)
    case Nil
    with ps have "list_len l = 0" "vs = []" by (auto simp: list_at_addrs_def)
    with ps show ?thesis
      by (auto simp: list_lpush_def list_node_new_def set_next_def set_prev_def list_repr_def
          list_at_addrs_def intro!: exI [of _ "[fresh l]"])
  next
    case (Cons p qs)
    have seg: "dseg (nodes l) None (p # qs) vs None" and d: "distinct (p # qs)"
      and len: "list_len l = length vs" "length vs = Suc (length qs)"
      and h: "list_head l = Some p" and t: "list_tail l = last_or None ps"
      and less: "\<forall>a\<in>set ps. a < fresh l"
      using ps Cons dseg_length [of "nodes l" None ps vs None] by (auto simp: list_at_addrs_def)
    from seg obtain n where n: "nodes l p = Some n" by (auto split: list.splits)
    define N where "N = (nodes l)(p \<mapsto> n\<lparr>nd_prev := Some (fresh l)\<rparr>,
        fresh l \<mapsto> \<lparr>nd_prev = None, nd_next = Some p, nd_val = v\<rparr>)"
    define l' where "l' = l\<lparr>nodes := N, fresh := fresh l + 1, list_head := Some (fresh l),
        list_len := list_len l + 1\<rparr>"
    have "p \<noteq> fresh l" using new Cons by auto
    then have run: "list_lpush l (Some v) = Some (0, l')"
      using h n len
      by (simp add: list_lpush_def list_node_new_def set_next_def set_prev_def l'_def N_def fun_upd_twist)
    have "dseg N (Some (fresh l)) (p # qs) vs None"
      using dseg_set_pv [OF seg _ n, of "Some (fresh l)"] d new Cons
      unfolding N_def by (subst dseg_upd_other) auto
    then have "dseg N None (fresh l # ps) (v # vs) None"
      using Cons by (simp add: N_def)
    then have "list_at_addrs l' (fresh l # ps) (v # vs)"
      using new d Cons less len t by (auto simp: list_at_addrs_def l'_def)
    with run show ?thesis by (auto simp: list_repr_def)
  qed
qed

lemma walk_to_spec:
  "dseg (nodes l) pv ps vs None \<Longrightarrow>
   (if v \<in> set vs
    then \<exists>ps1 p ps2 vs1 vs2. ps = ps1 @ p # ps2 \<and> vs = vs1 @ v # vs2 \<and> length ps1 = length vs1 \<and>
           v \<notin> set vs1 \<and> walk_to l v (hd_or None ps) = Some (Some p)
    else walk_to l v (hd_or None ps) = Some None)"
proof (induction ps arbitrary: pv vs)
  case Nil
  then show ?case by (simp add: walk_to.simps)
next
  case (Cons p ps)
  then obtain u us where vs: "vs = u # us"
    and n: "nodes l p = Some \<lparr>nd_prev = pv, nd_next = hd_or None ps, nd_val = u\<rparr>"
    and seg: "dseg (nodes l) (Some p) ps us None"
    by (auto split: list.splits)
  show ?case
  proof (cases "u = v")
    case True
    with n vs show ?thesis by (auto simp: walk_to.simps intro!: exI [of _ "[]"])
  next
    case False
    with n have w: "walk_to l v (hd_or None (p # ps)) = walk_to l v (hd_or None ps)"
      by (simp add: walk_to.simps [of l v "Some p"])
    show ?thesis
    proof (cases "v \<in> set us")
      case True
      with Cons.IH [OF seg] obtain ps1 q ps2 vs1 vs2 where IH:
        "ps = ps1 @ q # ps2" "us = vs1 @ v # vs2" "length ps1 = length vs1" "v \<notin> set vs1"
        "walk_to l v (hd_or None ps) = Some (Some q)" by auto
      have "\<exists>ps1 q ps2 vs1 vs2. p # ps = ps1 @ q # ps2 \<and> vs = vs1 @ v # vs2 \<and>
          length ps1 = length vs1 \<and> v \<notin> set vs1 \<and>
          walk_to l v (hd_or None (p # ps)) = Some (Some q)"
        by (rule exI [of _ "p # ps1"], rule exI [of _ q], rule exI [of _ ps2],
            rule exI [of _ "u # vs1"], rule exI [of _ vs2]) (use IH vs w False in simp)
      moreover from True vs have "v \<in> set vs" by simp
      ultimately show ?thesis by simp
    next
      case v: False
      with Cons.IH [OF seg] vs w False show ?thesis by simp
    qed
  qed
qed

lemma dseg_cong: "(\<And>a. a \<in> set ps \<Longrightarrow> N a = N' a) \<Longrightarrow> dseg N pv ps vs nx = dseg N' pv ps vs nx"
  by (induction ps arbitrary: pv vs) (auto split: list.splits)

text \<open>The two halves of unlinking a node: the forward link before it, the back link after it.\<close>

lemma unlink_before:
  assumes "dseg (nodes l) None ps vs nx" and "distinct ps"
  shows "\<exists>l'. (case last_or None ps of Some p \<Rightarrow> set_next (Some p) nx' l
                | None \<Rightarrow> Some (l\<lparr>list_head := nx'\<rparr>)) = Some l' \<and>
           dseg (nodes l') None ps vs nx' \<and> (\<forall>a. a \<notin> set ps \<longrightarrow> nodes l' a = nodes l a) \<and>
           list_head l' = (if ps = [] then nx' else list_head l) \<and>
           list_tail l' = list_tail l \<and> list_len l' = list_len l \<and> fresh l' = fresh l"
proof (cases ps rule: rev_cases)
  case Nil
  with assms show ?thesis by simp
next
  case (snoc qs p)
  with assms obtain us u where "vs = us @ [u]" "length us = length qs"
    using dseg_length [OF assms(1)] by (cases vs rule: rev_cases) auto
  with assms snoc obtain n where n: "nodes l p = Some n" by (auto simp: dseg_append)
  have "dseg ((nodes l)(p \<mapsto> n\<lparr>nd_next := nx'\<rparr>)) None ps vs nx'"
    using dseg_set_nx [of "nodes l" None qs p vs nx n nx'] assms n snoc by simp
  with n snoc show ?thesis by (auto simp: set_next_def)
qed

lemma unlink_after:
  assumes "dseg (nodes l) pv ps vs None" and "distinct ps"
  shows "\<exists>l'. (case hd_or None ps of Some p \<Rightarrow> set_prev (Some p) pv' l
                | None \<Rightarrow> Some (l\<lparr>list_tail := pv'\<rparr>)) = Some l' \<and>
           dseg (nodes l') pv' ps vs None \<and> (\<forall>a. a \<notin> set ps \<longrightarrow> nodes l' a = nodes l a) \<and>
           list_tail l' = (if ps = [] then pv' else list_tail l) \<and>
           list_head l' = list_head l \<and> list_len l' = list_len l \<and> fresh l' = fresh l"
proof (cases ps)
  case Nil
  with assms show ?thesis by simp
next
  case (Cons p qs)
  with assms obtain n where n: "nodes l p = Some n" by (auto split: list.splits)
  have "dseg ((nodes l)(p \<mapsto> n\<lparr>nd_prev := pv'\<rparr>)) pv' ps vs None"
    using dseg_set_pv [of "nodes l" pv p qs vs None n pv'] assms n Cons by simp
  with n Cons show ?thesis by (auto simp: set_prev_def cong: list.case_cong)
qed

lemma last_or_Some: "last_or (Some x) ps = (if ps = [] then Some x else last_or None ps)"
  by (cases ps) auto

lemma last_or_ne: "last_or (last_or x qs) ps = (if ps = [] then last_or x qs else last_or None ps)"
  by (cases ps) auto

lemma list_remove_found:
  assumes l: "list_at_addrs l (ps1 @ p # ps2) (vs1 @ v # vs2)" and len: "length ps1 = length vs1"
    and w: "walk_to l v (list_head l) = Some (Some p)"
  shows "\<exists>l'. list_remove l v = Some (0, l') \<and> list_at_addrs l' (ps1 @ ps2) (vs1 @ vs2)"
proof -
  have seg1: "dseg (nodes l) None ps1 vs1 (Some p)" and seg2: "dseg (nodes l) (Some p) ps2 vs2 None"
    and n: "nodes l p = Some \<lparr>nd_prev = last_or None ps1, nd_next = hd_or None ps2, nd_val = v\<rparr>"
    and d: "distinct (ps1 @ p # ps2)" and less: "\<forall>a \<in> set (ps1 @ p # ps2). a < fresh l"
    and h: "list_head l = hd_or None (ps1 @ p # ps2)" and t: "list_tail l = last_or None (ps1 @ p # ps2)"
    and ln: "list_len l = length (vs1 @ v # vs2)"
    using l by (auto simp: list_at_addrs_def dseg_append [OF len])
  obtain l1 where l1: "(case last_or None ps1 of Some q \<Rightarrow> set_next (Some q) (hd_or None ps2) l
        | None \<Rightarrow> Some (l\<lparr>list_head := hd_or None ps2\<rparr>)) = Some l1"
    and d1: "dseg (nodes l1) None ps1 vs1 (hd_or None ps2)"
    and o1: "\<And>a. a \<notin> set ps1 \<Longrightarrow> nodes l1 a = nodes l a"
    and f1: "list_head l1 = (if ps1 = [] then hd_or None ps2 else list_head l)"
      "list_tail l1 = list_tail l" "list_len l1 = list_len l" "fresh l1 = fresh l"
    using unlink_before [OF seg1, of "hd_or None ps2"] d by auto
  have "dseg (nodes l1) (Some p) ps2 vs2 None"
    using seg2 d o1 by (subst dseg_cong [of ps2 _ "nodes l"]) auto
  then obtain l2 where l2: "(case hd_or None ps2 of Some q \<Rightarrow> set_prev (Some q) (last_or None ps1) l1
        | None \<Rightarrow> Some (l1\<lparr>list_tail := last_or None ps1\<rparr>)) = Some l2"
    and d2: "dseg (nodes l2) (last_or None ps1) ps2 vs2 None"
    and o2: "\<And>a. a \<notin> set ps2 \<Longrightarrow> nodes l2 a = nodes l1 a"
    and f2: "list_tail l2 = (if ps2 = [] then last_or None ps1 else list_tail l1)"
      "list_head l2 = list_head l1" "list_len l2 = list_len l1" "fresh l2 = fresh l1"
    using unlink_after [of l1 "Some p" ps2 vs2 "last_or None ps1"] d by auto
  define l' where "l' = l2\<lparr>nodes := (nodes l2)(p := None), list_len := list_len l2 - 1\<rparr>"
  have "list_remove l v = Some (0, l')"
    using w n l1 l2 by (simp add: list_remove_def l'_def cong: option.case_cong)
  moreover have "dseg (nodes l2) None ps1 vs1 (hd_or None ps2)"
    using d1 d o2 by (subst dseg_cong [of ps1 _ "nodes l1"]) auto
  then have "dseg (nodes l') None (ps1 @ ps2) (vs1 @ vs2) None"
    using d2 d unfolding dseg_append [OF len] l'_def by (simp add: dseg_upd_other)
  then have "list_at_addrs l' (ps1 @ ps2) (vs1 @ vs2)"
    using d less h t ln f1 f2
    by (cases ps1) (auto simp: list_at_addrs_def l'_def hd_or_append last_or_append last_or_Some last_or_ne)
  ultimately show ?thesis by blast
qed

lemma list_remove_spec:
  assumes l: "list_repr l vs"
  shows "if v \<in> set vs then \<exists>l'. list_remove l v = Some (0, l') \<and> list_repr l' (remove1 v vs)
         else list_remove l v = Some (-1, l)"
proof -
  obtain ps where ps: "list_at_addrs l ps vs" using l by (auto simp: list_repr_def)
  then have seg: "dseg (nodes l) None ps vs None" and h: "list_head l = hd_or None ps"
    by (auto simp: list_at_addrs_def)
  show ?thesis
  proof (cases "v \<in> set vs")
    case True
    with walk_to_spec [OF seg, of v] obtain ps1 p ps2 vs1 vs2 where
      eq: "ps = ps1 @ p # ps2" "vs = vs1 @ v # vs2" and len: "length ps1 = length vs1"
      and v: "v \<notin> set vs1" and w: "walk_to l v (hd_or None ps) = Some (Some p)" by auto
    have "\<exists>l'. list_remove l v = Some (0, l') \<and> list_at_addrs l' (ps1 @ ps2) (vs1 @ vs2)"
      using ps eq len w h by (intro list_remove_found) auto
    with True eq v show ?thesis by (auto simp: list_repr_def remove1_append)
  next
    case False
    with walk_to_spec [OF seg, of v] h show ?thesis by (simp add: list_remove_def)
  qed
qed

text \<open>The pops give back the value at their end; the node stays allocated.\<close>

lemma list_rpop_spec:
  assumes l: "list_repr l vs"
  shows "\<exists>l'. list_rpop l = Some (if vs = [] then None else Some (last vs), l') \<and>
           list_repr l' (butlast vs)"
proof -
  obtain ps where ps: "list_at_addrs l ps vs" using l by (auto simp: list_repr_def)
  show ?thesis
  proof (cases ps rule: rev_cases)
    case Nil
    with ps l show ?thesis by (auto simp: list_rpop_def list_at_addrs_def)
  next
    case (snoc qs p)
    then obtain us u where vs: "vs = us @ [u]" "length us = length qs"
      using ps dseg_length [of "nodes l" None ps vs None]
      by (cases vs rule: rev_cases) (auto simp: list_at_addrs_def)
    have segq: "dseg (nodes l) None qs us (Some p)" and d: "distinct qs" "p \<notin> set qs"
      and n: "nodes l p = Some \<lparr>nd_prev = last_or None qs, nd_next = None, nd_val = u\<rparr>"
      and h: "list_head l = hd_or None (qs @ [p])" and t: "list_tail l = Some p"
      and ln: "list_len l = Suc (length us)" and less: "\<forall>a\<in>set qs. a < fresh l"
      using ps snoc vs by (auto simp: list_at_addrs_def dseg_append)
    let ?n = "\<lparr>nd_prev = None, nd_next = None, nd_val = u\<rparr>"
    show ?thesis
    proof (cases qs rule: rev_cases)
      case Nil
      with n t ln vs show ?thesis
        by (auto simp: list_rpop_def set_next_def set_prev_def list_repr_def list_at_addrs_def
            intro!: exI [of _ "[]"])
    next
      case (snoc rs q)
      define l1 where "l1 = l\<lparr>list_len := length us, list_tail := Some q\<rparr>"
      obtain l2 where l2: "set_next (Some q) None l1 = Some l2"
        and d2: "dseg (nodes l2) None qs us None" and o2: "\<And>a. a \<notin> set qs \<Longrightarrow> nodes l2 a = nodes l a"
        and f2: "list_head l2 = list_head l" "list_tail l2 = Some q" "list_len l2 = length us"
          "fresh l2 = fresh l"
        using unlink_before [of l1 qs us "Some p" None] segq d snoc by (auto simp: l1_def)
      have "list_rpop l = Some (Some u, l2\<lparr>nodes := (nodes l2)(p \<mapsto> ?n)\<rparr>)"
        using t n ln l2 o2 [of p] d vs snoc
        by (auto simp: list_rpop_def l1_def set_next_def set_prev_def split: bind_splits)
      moreover have "list_at_addrs (l2\<lparr>nodes := (nodes l2)(p \<mapsto> ?n)\<rparr>) qs us"
        using d2 d f2 h less snoc by (auto simp: list_at_addrs_def dseg_upd_other hd_or_append)
      ultimately show ?thesis using vs by (auto simp: list_repr_def)
    qed
  qed
qed

lemma list_lpop_spec:
  assumes l: "list_repr l vs"
  shows "\<exists>l'. list_lpop l = Some (if vs = [] then None else Some (hd vs), l') \<and> list_repr l' (tl vs)"
proof -
  obtain ps where ps: "list_at_addrs l ps vs" using l by (auto simp: list_repr_def)
  show ?thesis
  proof (cases ps)
    case Nil
    with ps l show ?thesis by (auto simp: list_lpop_def list_at_addrs_def)
  next
    case (Cons p qs)
    then obtain u us where vs: "vs = u # us"
      and segq: "dseg (nodes l) (Some p) qs us None" and d: "distinct qs" "p \<notin> set qs"
      and n: "nodes l p = Some \<lparr>nd_prev = None, nd_next = hd_or None qs, nd_val = u\<rparr>"
      and h: "list_head l = Some p" and t: "list_tail l = last_or (Some p) qs"
      and ln: "list_len l = Suc (length us)" and less: "\<forall>a\<in>set qs. a < fresh l"
      using ps by (auto simp: list_at_addrs_def split: list.splits)
    have len: "length qs = length us" using segq by (rule dseg_length)
    let ?n = "\<lparr>nd_prev = None, nd_next = None, nd_val = u\<rparr>"
    show ?thesis
    proof (cases qs)
      case Nil
      with n h ln vs len show ?thesis
        by (auto simp: list_lpop_def set_next_def set_prev_def list_repr_def list_at_addrs_def
            intro!: exI [of _ "[]"])
    next
      case (Cons q rs)
      define l1 where "l1 = l\<lparr>list_len := length us, list_head := Some q\<rparr>"
      obtain l2 where l2: "set_prev (Some q) None l1 = Some l2"
        and d2: "dseg (nodes l2) None qs us None" and o2: "\<And>a. a \<notin> set qs \<Longrightarrow> nodes l2 a = nodes l a"
        and f2: "list_tail l2 = list_tail l" "list_head l2 = Some q" "list_len l2 = length us"
          "fresh l2 = fresh l"
        using unlink_after [of l1 "Some p" qs us None] segq d Cons by (auto simp: l1_def)
      have "list_lpop l = Some (Some u, l2\<lparr>nodes := (nodes l2)(p \<mapsto> ?n)\<rparr>)"
        using h n ln l2 o2 [of p] d vs Cons len
        by (cases us) (auto simp: list_lpop_def l1_def set_next_def set_prev_def split: bind_splits)
      moreover have "list_at_addrs (l2\<lparr>nodes := (nodes l2)(p \<mapsto> ?n)\<rparr>) qs us"
        using d2 d f2 t less Cons
        by (auto simp: list_at_addrs_def dseg_upd_other last_or_Some cong: list.case_cong)
      ultimately show ?thesis using vs by (auto simp: list_repr_def)
    qed
  qed
qed

lemma iterate_forward:
  "dseg (nodes l) pv ps vs None \<Longrightarrow>
   iterate_all l \<lparr>it_next = hd_or None ps, it_direction = LIST_HEAD\<rparr> = Some vs"
proof (induction ps arbitrary: pv vs)
  case Nil
  then show ?case by (simp add: iterate_all.simps list_iterator_next_def)
next
  case (Cons p ps)
  then obtain v us where vs: "vs = v # us"
    and n: "nodes l p = Some \<lparr>nd_prev = pv, nd_next = hd_or None ps, nd_val = v\<rparr>"
    and seg: "dseg (nodes l) (Some p) ps us None" by (auto split: list.splits)
  from Cons.IH [OF seg] n vs show ?case
    by (simp add: iterate_all.simps [of l "\<lparr>it_next = Some p, it_direction = LIST_HEAD\<rparr>"]
        list_iterator_next_def)
qed

lemma list_values_spec: "list_repr l vs \<Longrightarrow> list_values l = Some vs"
  by (auto simp: list_repr_def list_at_addrs_def list_values_def list_iterator_create_def
      dest: iterate_forward)

section \<open>The interface of the element storage\<close>

locale value_list_store =
  fixes repr :: "'l \<Rightarrow> 'v list \<Rightarrow> bool"
    and create :: 'l
    and push :: "'l \<Rightarrow> 'v option \<Rightarrow> (int \<times> 'l) option"
    and remove :: "'l \<Rightarrow> 'v \<Rightarrow> (int \<times> 'l) option"
    and contents :: "'l \<Rightarrow> 'v list option"
  assumes repr_create: "repr create []"
    and push: "repr l vs \<Longrightarrow> \<exists>l'. push l (Some v) = Some (0, l') \<and> repr l' (vs @ [v])"
    and remove: "repr l vs \<Longrightarrow> if v \<in> set vs
          then \<exists>l'. remove l v = Some (0, l') \<and> repr l' (remove1 v vs)
          else remove l v = Some (-1, l)"
    and contents: "repr l vs \<Longrightarrow> contents l = Some vs"
begin

lemma repr_unique: "repr l vs \<Longrightarrow> repr l ws \<Longrightarrow> vs = ws"
  by (metis contents option.inject)

lemma push_then_remove:
  assumes "repr l vs" and "v \<notin> set vs"
  shows "\<exists>l1 l2. push l (Some v) = Some (0, l1) \<and> remove l1 v = Some (0, l2) \<and> contents l2 = Some vs"
proof -
  obtain l1 where l1: "push l (Some v) = Some (0, l1)" "repr l1 (vs @ [v])"
    using push [OF assms(1)] by blast
  then obtain l2 where "remove l1 v = Some (0, l2)" "repr l2 (remove1 v (vs @ [v]))"
    using remove [OF l1(2), of v] by auto
  then show ?thesis using l1 assms(2) contents by (auto simp: remove1_snoc_notin)
qed

end

interpretation vlist: value_list_store list_repr list_create list_rpush list_remove list_values
  by unfold_locales
    (auto simp: repr_create list_values_spec intro: list_rpush_spec dest: list_remove_spec split: if_splits)

end
