(* ===== verification/ElementStorage.thy ===== *)
theory ElementStorage
  imports Multimap VList "HOL-Library.Multiset"
begin

text \<open>
  The data structure of src/lib/element_storage.c: a multimap from element names to context
  pointers for the lookups by name, and a list for the order of insertion. The reference counts
  the operations keep are added in theory Elements, where contexts exist; here is what the
  operations do to the two containers.

  \<open>es_rel st xs\<close> says that the storage \<open>st\<close> holds the named contexts \<open>xs\<close>, in insertion
  order. The multimap is instantiated with \<^verbatim>\<open>strcmp\<close> and \<^verbatim>\<open>djb2\<close>, the list facts come
  through \<open>vlist\<close>, and the locale \<open>element_store\<close> is the contract the rest of the library
  relies on, interpreted here on these operations.
\<close>

type_synonym ptr = nat

section \<open>The key callbacks\<close>

definition signed_char :: "char \<Rightarrow> int" where
  "signed_char c = (let n = int (of_char c) in if n < 128 then n else n - 256)"

primrec djb2_from :: "64 word \<Rightarrow> string \<Rightarrow> 64 word" where
  "djb2_from hash [] = hash"
| "djb2_from hash (c # str) =
     djb2_from ((push_bit 5 hash + hash) + word_of_int (signed_char c)) str"

definition djb2 :: "string \<Rightarrow> nat" where
  "djb2 str = unat (djb2_from 5381 str)"

text \<open>The same hash in integer arithmetic, by which the kernel evaluates it.\<close>

primrec hash_from :: "int \<Rightarrow> string \<Rightarrow> int" where
  "hash_from h [] = h"
| "hash_from h (c # str) = hash_from ((h * 33 + signed_char c) mod 18446744073709551616) str"

lemma djb2_from_hash: "uint (djb2_from w str) = hash_from (uint w) str"
proof (induction str arbitrary: w)
  case (Cons c str)
  have "uint ((push_bit 5 w + w) + word_of_int k :: 64 word) = (uint w * 33 + k) mod 18446744073709551616" for k
    unfolding push_bit_eq_mult
    by (simp add: uint_word_ariths uint_word_of_int algebra_simps mod_simps take_bit_eq_mod)
  then show ?case using Cons by simp
qed simp

lemma djb2_code [code]: "djb2 str = nat (hash_from 5381 str)"
  by (simp add: djb2_def unat_eq_nat_uint djb2_from_hash)

fun strcmp :: "string \<Rightarrow> string \<Rightarrow> int" where
  "strcmp [] [] = 0"
| "strcmp [] (d # ds) = - int (of_char d) - 1"
| "strcmp (c # cs) [] = int (of_char c) + 1"
| "strcmp (c # cs) (d # ds) =
     (if c = d then strcmp cs ds else int (of_char c) - int (of_char d))"

lemma strcmp_eq: "strcmp a b = 0 \<longleftrightarrow> a = b"
  by (induction a b rule: strcmp.induct) (auto simp: inj_eq [OF inj_of_char])

interpretation esm: key_callbacks strcmp djb2
  by unfold_locales (rule strcmp_eq)

text \<open>The names a map from names has values for: all a map used as a set of names is asked.\<close>

definition map_of_names :: "(string, 'v) multimap \<Rightarrow> string set \<Rightarrow> bool" where
  "map_of_names m seen \<longleftrightarrow> multimap_inv djb2 m \<and> (\<forall>n. multimap_contains_key strcmp djb2 m n \<longleftrightarrow> n \<in> seen)"

lemma map_of_names_push:
  assumes "map_of_names m seen"
  shows "\<exists>r m'. multimap_push_value strcmp djb2 m n v = Some (r, m') \<and> map_of_names m' (insert n seen)"
proof -
  have inv: "multimap_inv djb2 m" using assms by (simp add: map_of_names_def)
  obtain r m' where m': "multimap_push_value strcmp djb2 m n v = Some (r, m')" "esm.pushed m n v r m'"
    using esm.push_value_spec [OF inv, of n v] by blast
  then have "mm_values strcmp djb2 m' k \<noteq> [] \<longleftrightarrow> mm_values strcmp djb2 m k \<noteq> [] \<or> k = n" for k
    by (auto simp: esm.pushed_def split: if_splits)
  with m' assms show ?thesis
    by (auto simp: map_of_names_def esm.pushed_def esm.contains_key_spec)
qed

lemma map_of_no_names: "map_of_names multimap_create {}"
  by (simp add: map_of_names_def esm.create_spec esm.contains_key_spec)

section \<open>The storage and its operations\<close>

record element_storage =
  es_map :: "(string, ptr) multimap"
  es_list :: "ptr list_t"

declare multimap_create_def [code_unfold] list_create_def [code_unfold]

definition storage_create :: element_storage where
  "storage_create = \<lparr>es_map = multimap_create, es_list = list_create\<rparr>"

definition storage_numentries :: "element_storage \<Rightarrow> nat" where
  "storage_numentries storage = multimap_size (es_map storage)"

text \<open>
  The insertion: the map first, which refuses a context it already holds under that name, then
  the list. When the list refuses, the code asks the map to remove the value NULL, which
  it does not hold.
\<close>

definition storage_add :: "element_storage \<Rightarrow> string option \<Rightarrow> ptr option \<Rightarrow>
    (status \<times> element_storage) option" where
  "storage_add storage name context =
     (case (name, context) of
        (Some n, Some c) \<Rightarrow> do {
          (res, m) \<leftarrow> multimap_push_value strcmp djb2 (es_map storage) n c;
          if res \<noteq> 0 then Some (EXISTS, storage\<lparr>es_map := m\<rparr>)
          else do {
            (r, l) \<leftarrow> list_rpush (es_list storage) (Some c);
            if r \<noteq> 0 then Some (INTERNAL_ERROR, storage\<lparr>es_map := m\<rparr>)
            else Some (OK, storage\<lparr>es_map := m, es_list := l\<rparr>) } }
      | _ \<Rightarrow> Some (INVALID_ARGUMENT, storage))"

text \<open>The removal also says whether the list held the context, which then loses a reference.\<close>

definition storage_remove :: "element_storage \<Rightarrow> string \<Rightarrow> ptr \<Rightarrow> (bool \<times> element_storage) option" where
  "storage_remove storage name context = do {
     let (_, m) = multimap_remove_value strcmp djb2 (es_map storage) name context;
     (r, l) \<leftarrow> list_remove (es_list storage) context;
     Some (r = 0, storage\<lparr>es_map := m, es_list := l\<rparr>) }"

text \<open>What the iterators of the lookups return, in order; \<open>None\<close> is no entry of that name.\<close>

definition storage_get :: "element_storage \<Rightarrow> string \<Rightarrow> ptr list option" where
  "storage_get storage name = multimap_fetch strcmp djb2 (Some (es_map storage)) name"

definition storage_get_all :: "element_storage \<Rightarrow> ptr list option" where
  "storage_get_all storage = list_values (es_list storage)"

definition storage_get_first :: "element_storage \<Rightarrow> string \<Rightarrow> ptr option" where
  "storage_get_first storage name = multimap_get_first strcmp djb2 (Some (es_map storage)) name"

section \<open>The abstract storage\<close>

definition es_rel :: "element_storage \<Rightarrow> (string \<times> ptr) list \<Rightarrow> bool" where
  "es_rel st xs \<longleftrightarrow> multimap_inv djb2 (es_map st) \<and> list_repr (es_list st) (map snd xs) \<and>
     (\<forall>k. mm_values strcmp djb2 (es_map st) k = entries_of k xs) \<and> distinct (map snd xs)"

lemma count_entries: "count (mset xs) (k, v) = count (mset (entries_of k xs)) v"
  by (induction xs) (auto split: if_splits)

lemma entries_determine_mset: "(\<And>k. entries_of k xs = entries_of k ys) \<Longrightarrow> mset xs = mset ys"
  by (rule multiset_eqI) (metis count_entries surj_pair)

lemma set_entries_of: "v \<in> set (entries_of k xs) \<longleftrightarrow> (k, v) \<in> set xs"
  by (force simp: entries_of_def)

lemma entries_of_remove1:
  "entries_of k (remove1 (n, c) xs) = (if k = n then remove1 c (entries_of k xs) else entries_of k xs)"
  by (induction xs) (auto simp: set_entries_of split: if_splits)

lemma map_snd_remove1:
  "(n, c) \<in> set xs \<Longrightarrow> distinct (map snd xs) \<Longrightarrow> map snd (remove1 (n, c) xs) = remove1 c (map snd xs)"
  by (induction xs) (auto simp: image_iff)

lemma es_rel_create: "es_rel storage_create []"
  by (simp add: es_rel_def storage_create_def esm.create_spec vlist.repr_create)

lemma es_rel_add:
  assumes st: "es_rel st xs" and c: "c \<notin> snd ` set xs"
  shows "\<exists>st'. storage_add st (Some n) (Some c) = Some (OK, st') \<and> es_rel st' (xs @ [(n, c)])"
proof -
  have inv: "multimap_inv djb2 (es_map st)" and l: "list_repr (es_list st) (map snd xs)"
    and vals: "\<And>k. mm_values strcmp djb2 (es_map st) k = entries_of k xs"
    and d: "distinct (map snd xs)" using st by (auto simp: es_rel_def)
  have "c \<notin> set (entries_of n xs)" using c by (force simp: set_entries_of)
  then obtain m where m: "multimap_push_value strcmp djb2 (es_map st) n c = Some (0, m)"
    and inv': "multimap_inv djb2 m"
    and vals': "mm_values strcmp djb2 m = (mm_values strcmp djb2 (es_map st))
        (n := entries_of n xs @ [c])"
    using esm.push_value_spec [OF inv, of n c] vals by (auto simp: esm.pushed_def)
  obtain l' where l': "list_rpush (es_list st) (Some c) = Some (0, l')"
    and r': "list_repr l' (map snd xs @ [c])" using vlist.push [OF l] by blast
  have "es_rel (st\<lparr>es_map := m, es_list := l'\<rparr>) (xs @ [(n, c)])"
    using inv' vals' vals r' d c by (auto simp: es_rel_def)
  then show ?thesis using m l' by (simp add: storage_add_def)
qed

lemma es_rel_add_dup:
  assumes st: "es_rel st xs" and c: "(n, c) \<in> set xs"
  shows "\<exists>st'. storage_add st (Some n) (Some c) = Some (EXISTS, st') \<and> es_rel st' xs"
proof -
  have inv: "multimap_inv djb2 (es_map st)"
    and vals: "\<And>k. mm_values strcmp djb2 (es_map st) k = entries_of k xs"
    using st by (auto simp: es_rel_def)
  obtain m where "multimap_push_value strcmp djb2 (es_map st) n c = Some (-1, m)"
    "multimap_inv djb2 m" "mm_values strcmp djb2 m = mm_values strcmp djb2 (es_map st)"
    using esm.push_value_spec [OF inv, of n c] vals c by (auto simp: esm.pushed_def set_entries_of)
  with st show ?thesis by (auto simp: storage_add_def es_rel_def)
qed

lemma es_rel_remove:
  assumes st: "es_rel st xs" and c: "(n, c) \<in> set xs"
  shows "\<exists>st'. storage_remove st n c = Some (True, st') \<and> es_rel st' (remove1 (n, c) xs)"
proof -
  have inv: "multimap_inv djb2 (es_map st)" and l: "list_repr (es_list st) (map snd xs)"
    and vals: "\<And>k. mm_values strcmp djb2 (es_map st) k = entries_of k xs"
    and d: "distinct (map snd xs)" using st by (auto simp: es_rel_def)
  obtain r m where m: "multimap_remove_value strcmp djb2 (es_map st) n c = (r, m)" by fastforce
  have vals': "multimap_inv djb2 m" "mm_values strcmp djb2 m = (mm_values strcmp djb2 (es_map st))
      (n := remove1 c (entries_of n xs))"
    using esm.remove_value_spec [OF inv m] vals c by (auto simp: set_entries_of)
  have "c \<in> set (map snd xs)" using c by force
  then obtain l' where l': "list_remove (es_list st) c = Some (0, l')"
    and r': "list_repr l' (remove1 c (map snd xs))" using vlist.remove [OF l, of c] by auto
  have "es_rel (st\<lparr>es_map := m, es_list := l'\<rparr>) (remove1 (n, c) xs)"
    using vals' vals r' d c by (auto simp: es_rel_def map_snd_remove1 entries_of_remove1)
  then show ?thesis using m l' by (simp add: storage_remove_def)
qed

lemma es_rel_remove_absent:
  assumes st: "es_rel st xs" and c: "c \<notin> snd ` set xs"
  shows "storage_remove st n c = Some (False, st)"
proof -
  have inv: "multimap_inv djb2 (es_map st)" and l: "list_repr (es_list st) (map snd xs)"
    and vals: "\<And>k. mm_values strcmp djb2 (es_map st) k = entries_of k xs"
    using st by (auto simp: es_rel_def)
  obtain r m where m: "multimap_remove_value strcmp djb2 (es_map st) n c = (r, m)" by fastforce
  have "(n, c) \<notin> set xs" using c by force
  then have "m = es_map st"
    using esm.remove_value_spec [OF inv m] vals by (auto simp: set_entries_of)
  moreover have "list_remove (es_list st) c = Some (-1, es_list st)"
    using vlist.remove [OF l, of c] c by auto
  ultimately show ?thesis using m by (simp add: storage_remove_def)
qed

lemma es_rel_get:
  "es_rel st xs \<Longrightarrow> storage_get st n = (if entries_of n xs = [] then None else Some (entries_of n xs))"
  by (simp add: es_rel_def storage_get_def esm.fetch_spec)

lemma es_rel_get_all: "es_rel st xs \<Longrightarrow> storage_get_all st = Some (map snd xs)"
  by (simp add: es_rel_def storage_get_all_def vlist.contents)

lemma es_rel_get_first:
  "es_rel st xs \<Longrightarrow> storage_get_first st n = (case entries_of n xs of [] \<Rightarrow> None | c # _ \<Rightarrow> Some c)"
  by (simp add: es_rel_def storage_get_first_def esm.get_first_spec)

lemma es_rel_numentries: "es_rel st xs \<Longrightarrow> storage_numentries st = length xs"
proof -
  assume st: "es_rel st xs"
  then have "mset (mm_entries (es_map st)) = mset xs"
    by (intro entries_determine_mset) (metis es_rel_def esm.vals_entries)
  then have "length (mm_entries (es_map st)) = length xs" by (rule mset_eq_length)
  then show ?thesis using st by (simp add: es_rel_def storage_numentries_def multimap_size_def multimap_inv_def)
qed

section \<open>The contract of an element storage\<close>

text \<open>
  What the contexts rely on: a storage is a list of named contexts, no context twice. Its
  clients need nothing else of the map or of the list.
\<close>

locale element_store =
  fixes rel :: "'s \<Rightarrow> (string \<times> ptr) list \<Rightarrow> bool"
    and create :: 's
    and add :: "'s \<Rightarrow> string option \<Rightarrow> ptr option \<Rightarrow> (status \<times> 's) option"
    and remove :: "'s \<Rightarrow> string \<Rightarrow> ptr \<Rightarrow> (bool \<times> 's) option"
    and get :: "'s \<Rightarrow> string \<Rightarrow> ptr list option"
    and get_all :: "'s \<Rightarrow> ptr list option"
    and get_first :: "'s \<Rightarrow> string \<Rightarrow> ptr option"
  assumes create: "rel create []"
    and add: "rel st xs \<Longrightarrow> c \<notin> snd ` set xs \<Longrightarrow>
          \<exists>st'. add st (Some n) (Some c) = Some (OK, st') \<and> rel st' (xs @ [(n, c)])"
    and add_dup: "rel st xs \<Longrightarrow> (n, c) \<in> set xs \<Longrightarrow>
          \<exists>st'. add st (Some n) (Some c) = Some (EXISTS, st') \<and> rel st' xs"
    and remove: "rel st xs \<Longrightarrow> (n, c) \<in> set xs \<Longrightarrow>
          \<exists>st'. remove st n c = Some (True, st') \<and> rel st' (remove1 (n, c) xs)"
    and remove_absent: "rel st xs \<Longrightarrow> c \<notin> snd ` set xs \<Longrightarrow> remove st n c = Some (False, st)"
    and get: "rel st xs \<Longrightarrow>
          get st n = (if entries_of n xs = [] then None else Some (entries_of n xs))"
    and get_all: "rel st xs \<Longrightarrow> get_all st = Some (map snd xs)"
    and get_first: "rel st xs \<Longrightarrow>
          get_first st n = (case entries_of n xs of [] \<Rightarrow> None | c # _ \<Rightarrow> Some c)"
begin

lemma add_then_remove:
  assumes "rel st xs" and "c \<notin> snd ` set xs"
  shows "\<exists>st1 st2. add st (Some n) (Some c) = Some (OK, st1) \<and> remove st1 n c = Some (True, st2) \<and>
           rel st2 xs"
proof -
  obtain st1 where st1: "add st (Some n) (Some c) = Some (OK, st1)" "rel st1 (xs @ [(n, c)])"
    using add [OF assms] by blast
  then obtain st2 where "remove st1 n c = Some (True, st2)" "rel st2 (remove1 (n, c) (xs @ [(n, c)]))"
    using remove [OF st1(2), of n c] by auto
  moreover have "(n, c) \<notin> set xs" using assms(2) by force
  ultimately show ?thesis using st1 by (auto simp: remove1_snoc_notin)
qed

lemma add_then_lookup:
  assumes "rel st xs" and "c \<notin> snd ` set xs" and "add st (Some n) (Some c) = Some (s, st')"
  shows "s = OK \<and> get st' n = Some (entries_of n xs @ [c]) \<and> get_all st' = Some (map snd xs @ [c]) \<and>
         (\<forall>k. k \<noteq> n \<longrightarrow> get st' k = get st k \<and> get_first st' k = get_first st k)"
  using add [OF assms(1,2), of n] assms(3) get get_first get_all assms(1) by auto

lemma get_first_is_hd: "rel st xs \<Longrightarrow> get_first st n = map_option hd (get st n)"
  by (auto simp: get get_first split: list.splits)

end

interpretation es: element_store es_rel storage_create storage_add storage_remove storage_get
    storage_get_all storage_get_first
  by unfold_locales
    (rule es_rel_create es_rel_add es_rel_add_dup es_rel_remove es_rel_remove_absent es_rel_get
      es_rel_get_all es_rel_get_first; assumption)+

section \<open>Properties of the containers\<close>

lemma empty_size: "multimap_size multimap_create = 0"
  by (simp add: multimap_size_def multimap_create_def)

text \<open>
  C24. Pushing a value under a name onto the hash map never fails and never runs out of fuel:
  it refuses a value the name already has, leaving every name's values as they were, and
  otherwise appends it to that name's values only; the invariant of the table (every key in the
  bucket of its hash, once, and the size the number of entries) survives the resizing.
\<close>

theorem multimap_push_appends:
  assumes "multimap_inv djb2 m"
  shows "\<exists>r m'. multimap_push_value strcmp djb2 m k v = Some (r, m') \<and> multimap_inv djb2 m' \<and>
    (if v \<in> set (mm_values strcmp djb2 m k)
     then r = -1 \<and> mm_values strcmp djb2 m' = mm_values strcmp djb2 m \<and> multimap_size m' = multimap_size m
     else r = 0 \<and> mm_values strcmp djb2 m' = (mm_values strcmp djb2 m)(k := mm_values strcmp djb2 m k @ [v]) \<and>
          multimap_size m' = multimap_size m + 1)"
proof -
  obtain r m' where "multimap_push_value strcmp djb2 m k v = Some (r, m')" "esm.pushed m k v r m'"
    using esm.push_value_spec [OF assms] by blast
  then show ?thesis by (intro exI [of _ r] exI [of _ m']) (simp add: esm.pushed_def multimap_size_def)
qed

theorem multimap_push_appends_witness:
  "\<exists>m'. multimap_push_value strcmp djb2 (multimap_create :: (string, ptr) multimap) ''key'' 4 = Some (0, m') \<and>
     mm_values strcmp djb2 m' ''key'' = [4] \<and> multimap_size m' = 1"
  using multimap_push_appends [OF esm.create_spec(1), of "''key''" "4 :: ptr"]
  by (auto simp: esm.create_spec(2) empty_size)

text \<open>
  C40. Removing a value of a name takes out that value only, keeps the order of the others and
  the invariant, and leaves a map without the value as it was; a lookup of the first value and
  of all values reads the remaining ones.
\<close>

theorem multimap_remove_then_lookup:
  assumes "multimap_inv djb2 m" and "multimap_remove_value strcmp djb2 m k v = (r, m')"
  shows "multimap_inv djb2 m' \<and> (r = None \<longleftrightarrow> v \<notin> set (mm_values strcmp djb2 m k)) \<and>
    (r = None \<longrightarrow> m' = m) \<and>
    multimap_fetch strcmp djb2 (Some m') k =
      (case remove1 v (mm_values strcmp djb2 m k) of [] \<Rightarrow> None | vs \<Rightarrow> Some vs) \<and>
    multimap_get_first strcmp djb2 (Some m') k =
      (case remove1 v (mm_values strcmp djb2 m k) of [] \<Rightarrow> None | x # _ \<Rightarrow> Some x) \<and>
    (\<forall>k'. k' \<noteq> k \<longrightarrow> multimap_fetch strcmp djb2 (Some m') k' = multimap_fetch strcmp djb2 (Some m) k')"
proof -
  have i: "multimap_inv djb2 m'" and
    s: "if v \<in> set (mm_values strcmp djb2 m k)
        then r = Some v \<and> mm_values strcmp djb2 m' = (mm_values strcmp djb2 m)(k := remove1 v (mm_values strcmp djb2 m k))
        else r = None \<and> m' = m"
    using esm.remove_value_spec [OF assms] by (auto split: if_splits)
  then have "mm_values strcmp djb2 m' = (mm_values strcmp djb2 m)(k := remove1 v (mm_values strcmp djb2 m k))"
    by (auto simp: remove1_idem fun_upd_idem split: if_splits)
  with i s assms(1) show ?thesis
    by (auto simp: esm.fetch_spec esm.get_first_spec split: if_splits list.splits)
qed

theorem multimap_remove_then_lookup_witness:
  "\<exists>m r m'. multimap_push_value strcmp djb2 multimap_create ''key'' (4 :: ptr) = Some (0, m) \<and>
     multimap_remove_value strcmp djb2 m ''key'' 4 = (r, m') \<and> multimap_fetch strcmp djb2 (Some m') ''key'' = None"
proof -
  obtain m where m: "multimap_push_value strcmp djb2 multimap_create ''key'' (4 :: ptr) = Some (0, m)"
    "multimap_inv djb2 m" "mm_values strcmp djb2 m ''key'' = [4]"
    using esm.push_value_spec [OF esm.create_spec(1), of "''key''" "4 :: ptr"]
    by (auto simp: esm.pushed_def esm.create_spec(2))
  obtain r m' where r: "multimap_remove_value strcmp djb2 m ''key'' 4 = (r, m')" by fastforce
  from m r multimap_remove_then_lookup [OF m(2) r] show ?thesis by auto
qed

text \<open>
  C25. The doubly linked list under the storage, pointers and all, is a list of values: a push
  appends, a removal takes out the first occurrence and reports whether there was one, the pops
  give the two ends, and iterating forward ends and gives the values in order.
\<close>

theorem linked_list_refines:
  assumes "list_repr l vs"
  shows "(\<exists>l'. list_rpush l (Some v) = Some (0, l') \<and> list_repr l' (vs @ [v])) \<and>
    (if v \<in> set vs then \<exists>l'. list_remove l v = Some (0, l') \<and> list_repr l' (remove1 v vs)
     else list_remove l v = Some (-1, l)) \<and>
    (\<exists>l'. list_rpop l = Some (if vs = [] then None else Some (last vs), l') \<and> list_repr l' (butlast vs)) \<and>
    (\<exists>l'. list_lpop l = Some (if vs = [] then None else Some (hd vs), l') \<and> list_repr l' (tl vs)) \<and>
    iterate_all l (list_iterator_create l LIST_HEAD) = Some vs"
  using list_rpush_spec [OF assms] list_remove_spec [OF assms] list_rpop_spec [OF assms]
    list_lpop_spec [OF assms] list_values_spec [OF assms] by (simp_all add: list_values_def)

theorem linked_list_refines_witness:
  "(\<exists>l'. list_rpush list_create (Some (7 :: ptr)) = Some (0, l') \<and> list_repr l' [7]) \<and>
   list_remove (list_create :: ptr list_t) 7 = Some (-1, list_create)"
  using linked_list_refines [OF repr_create, of "7 :: ptr"] by simp

text \<open>
  C26. The element storage refines a list of named contexts: adding a new context appends it
  under its name, a second insertion under the same name is refused, and removing a context
  that was just added restores the storage.
\<close>

theorem storage_add_refines:
  assumes "es_rel st xs"
  shows "(c \<notin> snd ` set xs \<longrightarrow>
      (\<exists>st1 st2. storage_add st (Some n) (Some c) = Some (OK, st1) \<and> es_rel st1 (xs @ [(n, c)]) \<and>
        storage_remove st1 n c = Some (True, st2) \<and> es_rel st2 xs)) \<and>
    ((n, c) \<in> set xs \<longrightarrow>
      (\<exists>st'. storage_add st (Some n) (Some c) = Some (EXISTS, st') \<and> es_rel st' xs) \<and>
      (\<exists>st'. storage_remove st n c = Some (True, st') \<and> es_rel st' (remove1 (n, c) xs)))"
  using es.add_then_remove [OF assms, of c n] es.add [OF assms, of c n] es.add_dup [OF assms, of n c]
    es.remove [OF assms, of n c] by fastforce

theorem storage_add_refines_witness:
  "\<exists>st1 st2. storage_add storage_create (Some ''key'') (Some 7) = Some (OK, st1) \<and> es_rel st1 [(''key'', 7)] \<and>
     storage_remove st1 ''key'' 7 = Some (True, st2) \<and> es_rel st2 [] \<and>
     (\<exists>st'. storage_add st1 (Some ''key'') (Some 7) = Some (EXISTS, st')) \<and>
     (\<exists>st'. storage_remove st1 ''key'' 7 = Some (True, st') \<and> es_rel st' [])"
proof -
  obtain st1 st2 where st: "storage_add storage_create (Some ''key'') (Some 7) = Some (OK, st1)"
    "es_rel st1 [(''key'', 7)]" "storage_remove st1 ''key'' 7 = Some (True, st2)" "es_rel st2 []"
    using storage_add_refines [OF es_rel_create, of 7 "''key''"] by auto
  with storage_add_refines [OF st(2), of 7 "''key''"] show ?thesis by auto
qed

text \<open>
  The lookups of the element storage agree with each other and with the list of named
  contexts: by name in insertion order or not at all, all of them in insertion order across
  names, the first of a name, and their number.
\<close>

theorem storage_lookups:
  assumes "es_rel st xs"
  shows "storage_get st n = (if entries_of n xs = [] then None else Some (entries_of n xs)) \<and>
    storage_get_all st = Some (map snd xs) \<and> storage_get_first st n = map_option hd (storage_get st n) \<and>
    storage_numentries st = length xs"
  using es.get [OF assms] es.get_all [OF assms] es.get_first_is_hd [OF assms] es_rel_numentries [OF assms] by simp

theorem storage_lookups_witness:
  "storage_get storage_create ''key'' = None \<and> storage_get_all storage_create = Some [] \<and>
   storage_get_first storage_create ''key'' = None \<and> storage_numentries storage_create = 0"
  using storage_lookups [OF es_rel_create, of "''key''"] by simp

end
