(* ===== verification/Context.thy ===== *)
theory Context
  imports Values ElementStorage
begin

text \<open>
  \<^verbatim>\<open>struct disir_context\<close> of src/lib/include/context_private.h, the objects it points to
  (the structures of src/lib/include/), and the heap they live in, with the utility operations
  of src/lib/context_util.c: reference counts, attachment, error messages, the argument checks
  every public operation starts with.

  A context and the object it describes have the same life time up to the object's
  \<^verbatim>\<open>dx_*_destroy\<close>, so the object is a component of its context (\<open>cx_obj\<close>, \<open>None\<close>
  once destroyed) and a pointer to either is the address of the context. The union of the object
  pointers is the datatype \<open>disir_object\<close>: reading it as another type than it has is a fault,
  as is reading a freed address. The queues of defaults, documentation and restrictions are
  lists of addresses in queue order. The message of \<^verbatim>\<open>cx_error_message\<close> is recorded by
  its format string.

  An address names one allocation, not the number \<^verbatim>\<open>calloc\<close> returned: a pointer kept
  beyond the \<^verbatim>\<open>free\<close> of its context is dangling for good, although \<^verbatim>\<open>calloc\<close> may hand out
  the same number again. So \<open>next_ptr\<close> only grows, and using a dangling pointer is always a
  fault, where the program may happen to meet a later context at that place.
\<close>

section \<open>The objects\<close>

datatype context_type =
    CT_INVALID | CT_CONFIG | CT_MOLD | CT_SECTION | CT_KEYVAL | CT_DOCUMENTATION | CT_DEFAULT
  | CT_RESTRICTION | CT_UNKNOWN

datatype restriction_type =
    RT_INVALID | INC_ENTRY_MIN | INC_ENTRY_MAX | EXC_VALUE_ENUM | EXC_VALUE_RANGE
  | EXC_VALUE_NUMERIC | RT_UNKNOWN

record disir_config =
  cf_mold :: "ptr option"
  cf_version :: version
  cf_elements :: "element_storage option"

record disir_mold =
  mo_reference_count :: int
  mo_version :: version
  mo_elements :: "element_storage option"
  mo_documentation_queue :: "ptr list"

record disir_section =
  se_mold_equiv :: "ptr option"
  se_introduced :: version
  se_deprecated :: version
  se_name :: disir_value
  se_documentation_queue :: "ptr list"
  se_elements :: "element_storage option"
  se_restrictions_queue :: "ptr list"

record disir_keyval =
  kv_mold_equiv :: "ptr option"
  kv_deprecated :: version
  kv_default_queue :: "ptr list"
  kv_documentation_queue :: "ptr list"
  kv_name :: disir_value
  kv_value :: disir_value
  kv_restrictions_queue :: "ptr list"

record disir_documentation =
  dd_introduced :: version
  dd_value :: disir_value

record disir_default =
  de_introduced :: version
  de_value :: disir_value

record disir_restriction =
  re_introduced :: version
  re_deprecated :: version
  re_documentation_queue :: "ptr list"
  re_type :: restriction_type
  re_value_string :: "string option"
  re_value_numeric :: double
  re_value_min :: double
  re_value_max :: double

datatype disir_object =
    OConfig disir_config | OMold disir_mold | OSection disir_section | OKeyval disir_keyval
  | ODocumentation disir_documentation | ODefault disir_default | ORestriction disir_restriction

lemma object_SomeE:
  assumes "(case x of OConfig a \<Rightarrow> f1 a | OMold a \<Rightarrow> f2 a | OSection a \<Rightarrow> f3 a | OKeyval a \<Rightarrow> f4 a
      | ODocumentation a \<Rightarrow> f5 a | ODefault a \<Rightarrow> f6 a | ORestriction a \<Rightarrow> f7 a) = Some z"
    and "\<And>a. f1 a = Some z \<Longrightarrow> P" and "\<And>a. f2 a = Some z \<Longrightarrow> P" and "\<And>a. f3 a = Some z \<Longrightarrow> P"
    and "\<And>a. f4 a = Some z \<Longrightarrow> P" and "\<And>a. f5 a = Some z \<Longrightarrow> P" and "\<And>a. f6 a = Some z \<Longrightarrow> P"
    and "\<And>a. f7 a = Some z \<Longrightarrow> P"
  shows P
  using assms by (cases x) auto

lemma type_SomeE:
  assumes "(case t of CT_INVALID \<Rightarrow> f1 | CT_CONFIG \<Rightarrow> f2 | CT_MOLD \<Rightarrow> f3 | CT_SECTION \<Rightarrow> f4 | CT_KEYVAL \<Rightarrow> f5
      | CT_DOCUMENTATION \<Rightarrow> f6 | CT_DEFAULT \<Rightarrow> f7 | CT_RESTRICTION \<Rightarrow> f8 | CT_UNKNOWN \<Rightarrow> f9) = Some z"
    and "t = CT_INVALID \<Longrightarrow> f1 = Some z \<Longrightarrow> P" and "t = CT_CONFIG \<Longrightarrow> f2 = Some z \<Longrightarrow> P"
    and "t = CT_MOLD \<Longrightarrow> f3 = Some z \<Longrightarrow> P" and "t = CT_SECTION \<Longrightarrow> f4 = Some z \<Longrightarrow> P"
    and "t = CT_KEYVAL \<Longrightarrow> f5 = Some z \<Longrightarrow> P" and "t = CT_DOCUMENTATION \<Longrightarrow> f6 = Some z \<Longrightarrow> P"
    and "t = CT_DEFAULT \<Longrightarrow> f7 = Some z \<Longrightarrow> P" and "t = CT_RESTRICTION \<Longrightarrow> f8 = Some z \<Longrightarrow> P"
    and "t = CT_UNKNOWN \<Longrightarrow> f9 = Some z \<Longrightarrow> P"
  shows P
  using assms by (cases t) auto

lemma value_type_SomeE:
  assumes "(case t of VT_INVALID \<Rightarrow> f1 | VT_STRING \<Rightarrow> f2 | VT_INTEGER \<Rightarrow> f3 | VT_FLOAT \<Rightarrow> f4 | VT_BOOLEAN \<Rightarrow> f5
      | VT_ENUM \<Rightarrow> f6 | VT_UNKNOWN \<Rightarrow> f7) = Some z"
    and "f1 = Some z \<Longrightarrow> P" and "f2 = Some z \<Longrightarrow> P" and "f3 = Some z \<Longrightarrow> P" and "f4 = Some z \<Longrightarrow> P"
    and "f5 = Some z \<Longrightarrow> P" and "f6 = Some z \<Longrightarrow> P" and "f7 = Some z \<Longrightarrow> P"
  shows P
  using assms by (cases t) auto

section \<open>Contexts and the heap\<close>

record disir_context =
  cx_type :: context_type
  constructing :: bool
  finalized :: bool
  invalid :: bool
  fatal :: bool
  destroyed :: bool
  in_parent :: bool
  cx_obj :: "disir_object option"
  cx_parent :: "ptr option"
  cx_root :: "ptr option"
  cx_refcount :: int
  cx_error :: "string option"

record store =
  ctxs :: "ptr \<Rightarrow> disir_context option"
  next_ptr :: ptr

definition empty_store :: store where
  "empty_store = \<lparr>ctxs = (\<lambda>_. None), next_ptr = 0\<rparr>"

definition upd :: "ptr \<Rightarrow> (disir_context \<Rightarrow> disir_context) \<Rightarrow> store \<Rightarrow> store option" where
  "upd p f s = (case ctxs s p of None \<Rightarrow> None | Some c \<Rightarrow> Some (s\<lparr>ctxs := (ctxs s)(p \<mapsto> f c)\<rparr>))"

text \<open>The object of a context, read as one member of the union.\<close>

definition get_config :: "store \<Rightarrow> ptr \<Rightarrow> disir_config option" where
  "get_config s p = (case ctxs s p of Some c \<Rightarrow> (case cx_obj c of Some (OConfig x) \<Rightarrow> Some x | _ \<Rightarrow> None) | None \<Rightarrow> None)"

definition get_mold :: "store \<Rightarrow> ptr \<Rightarrow> disir_mold option" where
  "get_mold s p = (case ctxs s p of Some c \<Rightarrow> (case cx_obj c of Some (OMold x) \<Rightarrow> Some x | _ \<Rightarrow> None) | None \<Rightarrow> None)"

definition get_section :: "store \<Rightarrow> ptr \<Rightarrow> disir_section option" where
  "get_section s p = (case ctxs s p of Some c \<Rightarrow> (case cx_obj c of Some (OSection x) \<Rightarrow> Some x | _ \<Rightarrow> None) | None \<Rightarrow> None)"

definition get_keyval :: "store \<Rightarrow> ptr \<Rightarrow> disir_keyval option" where
  "get_keyval s p = (case ctxs s p of Some c \<Rightarrow> (case cx_obj c of Some (OKeyval x) \<Rightarrow> Some x | _ \<Rightarrow> None) | None \<Rightarrow> None)"

definition get_documentation :: "store \<Rightarrow> ptr \<Rightarrow> disir_documentation option" where
  "get_documentation s p = (case ctxs s p of Some c \<Rightarrow> (case cx_obj c of Some (ODocumentation x) \<Rightarrow> Some x | _ \<Rightarrow> None) | None \<Rightarrow> None)"

definition get_default :: "store \<Rightarrow> ptr \<Rightarrow> disir_default option" where
  "get_default s p = (case ctxs s p of Some c \<Rightarrow> (case cx_obj c of Some (ODefault x) \<Rightarrow> Some x | _ \<Rightarrow> None) | None \<Rightarrow> None)"

definition get_restriction :: "store \<Rightarrow> ptr \<Rightarrow> disir_restriction option" where
  "get_restriction s p = (case ctxs s p of Some c \<Rightarrow> (case cx_obj c of Some (ORestriction x) \<Rightarrow> Some x | _ \<Rightarrow> None) | None \<Rightarrow> None)"

text \<open>
  The code writes a field of the object through the member of the union it takes the object for.
  When the object is of another type that is undefined (the fields of the two structures differ),
  so the write is a fault, too, like the read.
\<close>

fun object_type :: "disir_object \<Rightarrow> context_type" where
  "object_type (OConfig _) = CT_CONFIG"
| "object_type (OMold _) = CT_MOLD"
| "object_type (OSection _) = CT_SECTION"
| "object_type (OKeyval _) = CT_KEYVAL"
| "object_type (ODocumentation _) = CT_DOCUMENTATION"
| "object_type (ODefault _) = CT_DEFAULT"
| "object_type (ORestriction _) = CT_RESTRICTION"

definition set_obj :: "ptr \<Rightarrow> disir_object \<Rightarrow> store \<Rightarrow> store option" where
  "set_obj p x s = do {
     c \<leftarrow> ctxs s p;
     if object_type x = cx_type c then upd p (\<lambda>c. c\<lparr>cx_obj := Some x\<rparr>) s else None }"

section \<open>Types\<close>

definition dx_context_type_sanify :: "context_type \<Rightarrow> context_type" where
  "dx_context_type_sanify t = (if t = CT_UNKNOWN \<or> t = CT_INVALID then CT_UNKNOWN else t)"

definition dc_context_type :: "store \<Rightarrow> ptr option \<Rightarrow> context_type option" where
  "dc_context_type s context =
     (case context of None \<Rightarrow> Some CT_UNKNOWN
      | Some p \<Rightarrow> do { c \<leftarrow> ctxs s p; Some (dx_context_type_sanify (cx_type c)) })"

fun disir_context_type_string :: "context_type \<Rightarrow> string" where
  "disir_context_type_string CT_INVALID = ''INVALID_CONTEXT_VALUE''"
| "disir_context_type_string CT_CONFIG = ''CONFIG''"
| "disir_context_type_string CT_MOLD = ''MOLD''"
| "disir_context_type_string CT_SECTION = ''SECTION''"
| "disir_context_type_string CT_KEYVAL = ''KEYVAL''"
| "disir_context_type_string CT_DOCUMENTATION = ''DOCUMENTATION''"
| "disir_context_type_string CT_DEFAULT = ''DEFAULT''"
| "disir_context_type_string CT_RESTRICTION = ''RESTRICTION''"
| "disir_context_type_string CT_UNKNOWN = ''UNKNOWN''"

definition dx_context_type_string :: "context_type \<Rightarrow> string" where
  "dx_context_type_string t = disir_context_type_string (dx_context_type_sanify t)"

definition dc_context_type_string :: "store \<Rightarrow> ptr option \<Rightarrow> string option" where
  "dc_context_type_string s context =
     do { t \<leftarrow> dc_context_type s context; Some (disir_context_type_string t) }"

definition dc_value_type :: "store \<Rightarrow> ptr option \<Rightarrow> value_type option" where
  "dc_value_type s context =
     (case context of None \<Rightarrow> Some VT_UNKNOWN
      | Some p \<Rightarrow> do {
          t \<leftarrow> dc_context_type s (Some p);
          v \<leftarrow> (if t = CT_DEFAULT then do { d \<leftarrow> get_default s p; Some (dv_type (de_value d)) }
                else if t = CT_KEYVAL then do { k \<leftarrow> get_keyval s p; Some (dv_type (kv_value k)) }
                else Some VT_UNKNOWN);
          Some (dx_value_type_sanify v) })"

definition dx_context_type_is_toplevel :: "context_type \<Rightarrow> bool" where
  "dx_context_type_is_toplevel t \<longleftrightarrow> t = CT_CONFIG \<or> t = CT_MOLD"

section \<open>Error messages\<close>

text \<open>An empty message is not recorded.\<close>

definition dx_context_error_set :: "ptr \<Rightarrow> string \<Rightarrow> store \<Rightarrow> store option" where
  "dx_context_error_set p msg =
     upd p (\<lambda>c. c\<lparr>cx_error := (if msg = [] then cx_error c else Some msg)\<rparr>)"

definition dx_context_transfer_logwarn :: "ptr option \<Rightarrow> ptr option \<Rightarrow> store \<Rightarrow> store option" where
  "dx_context_transfer_logwarn destination source s =
     (case (destination, source) of
        (Some d, Some r) \<Rightarrow> do {
          c \<leftarrow> ctxs s r;
          if cx_error c = None \<or> r = d then Some s
          else do {
            s1 \<leftarrow> upd d (\<lambda>x. x\<lparr>cx_error := cx_error c\<rparr>) s;
            upd r (\<lambda>x. x\<lparr>cx_error := None\<rparr>) s1 } }
      | _ \<Rightarrow> Some s)"

section \<open>Reference counts, creation and attachment\<close>

definition dx_context_create :: "context_type \<Rightarrow> store \<Rightarrow> ptr option \<times> store" where
  "dx_context_create t s =
     (if dx_context_type_sanify t = CT_UNKNOWN then (None, s)
      else (Some (next_ptr s),
            s\<lparr>ctxs := (ctxs s)(next_ptr s \<mapsto>
                 \<lparr>cx_type = t, constructing = True, finalized = False, invalid = False,
                  fatal = False, destroyed = False, in_parent = False, cx_obj = None,
                  cx_parent = None, cx_root = None, cx_refcount = 1, cx_error = None\<rparr>),
              next_ptr := next_ptr s + 1\<rparr>))"

definition dx_context_destroy :: "ptr \<Rightarrow> store \<Rightarrow> store" where
  "dx_context_destroy p s = s\<lparr>ctxs := (ctxs s)(p := None)\<rparr>"

definition dx_context_incref :: "ptr \<Rightarrow> store \<Rightarrow> store option" where
  "dx_context_incref p = upd p (\<lambda>c. c\<lparr>cx_refcount := cx_refcount c + 1\<rparr>)"

text \<open>The second component says whether the context was freed, and the caller's pointer cleared.\<close>

definition dx_context_decref :: "ptr \<Rightarrow> store \<Rightarrow> (bool \<times> store) option" where
  "dx_context_decref p s = do {
     c \<leftarrow> ctxs s p;
     if cx_refcount c - 1 = 0 then Some (True, dx_context_destroy p s)
     else do { s1 \<leftarrow> upd p (\<lambda>c. c\<lparr>cx_refcount := cx_refcount c - 1\<rparr>) s; Some (False, s1) } }"

definition dx_context_attach :: "ptr option \<Rightarrow> ptr option \<Rightarrow> store \<Rightarrow> store option" where
  "dx_context_attach parent context s =
     (case (parent, context) of
        (Some q, Some p) \<Rightarrow> do {
          s1 \<leftarrow> upd p (\<lambda>c. c\<lparr>cx_parent := Some q\<rparr>) s;
          dx_context_incref q s1 }
      | _ \<Rightarrow> Some s)"

section \<open>The argument checks\<close>

definition dx_context_sp_full_check :: "ptr option \<Rightarrow> store \<Rightarrow> (status \<times> store) option" where
  "dx_context_sp_full_check context s =
     (case context of None \<Rightarrow> Some (INVALID_ARGUMENT, s)
      | Some p \<Rightarrow> do {
          c \<leftarrow> ctxs s p;
          if destroyed c then do {
            s1 \<leftarrow> dx_context_error_set p ''%s() invoked on destroyed context %s'' s;
            Some (DESTROYED_CONTEXT, s1) }
          else if dx_context_type_sanify (cx_type c) = CT_UNKNOWN then do {
            s1 \<leftarrow> dx_context_error_set p ''%s() invoked on unknown context( %d )'' s;
            Some (CONTEXT_IN_WRONG_STATE, s1) }
          else Some (OK, s) })"

text \<open>
  The check of a pointer to a pointer; the outer option is the outer pointer.
\<close>

definition dx_context_dp_full_check :: "ptr option option \<Rightarrow> store \<Rightarrow> (status \<times> store) option" where
  "dx_context_dp_full_check context s =
     (case context of None \<Rightarrow> Some (INVALID_ARGUMENT, s)
      | Some p \<Rightarrow> dx_context_sp_full_check p s)"

text \<open>The variadic list of the check up to its 0 sentinel; what it prints is not kept.\<close>

definition dx_context_type_check :: "ptr \<Rightarrow> context_type list \<Rightarrow> store \<Rightarrow> status option" where
  "dx_context_type_check p types s = do {
     c \<leftarrow> ctxs s p;
     let t = dx_context_type_sanify (cx_type c);
     let vs = takeWhile (\<lambda>v. v \<noteq> CT_INVALID) types;
     Some (if t \<noteq> CT_UNKNOWN \<and> t \<in> dx_context_type_sanify ` set vs then OK
           else if t = CT_UNKNOWN then INVALID_CONTEXT
           else if vs = [] then TOO_FEW_ARGUMENTS
           else WRONG_CONTEXT) }"

section \<open>The value type of a context\<close>

definition dc_set_value_type :: "ptr option \<Rightarrow> value_type \<Rightarrow> store \<Rightarrow> (status \<times> store) option" where
  "dc_set_value_type context type s = do {
     (status, s) \<leftarrow> dx_context_sp_full_check context s;
     if status \<noteq> OK then Some (status, s)
     else if dx_value_type_sanify type = VT_UNKNOWN then Some (INVALID_ARGUMENT, s)
     else do {
       p \<leftarrow> context;
       c \<leftarrow> ctxs s p;
       rt \<leftarrow> dc_context_type s (cx_root c);
       if rt = CT_CONFIG then do {
         s \<leftarrow> dx_context_error_set p ''cannot set value type on context whose root is CONFIG'' s;
         Some (WRONG_CONTEXT, s) }
       else do {
         t \<leftarrow> dc_context_type s (Some p);
         if t = CT_KEYVAL then do {
           k \<leftarrow> get_keyval s p;
           s \<leftarrow> set_obj p (OKeyval (k\<lparr>kv_value := (kv_value k)\<lparr>dv_type := type\<rparr>\<rparr>)) s;
           Some (OK, s) }
         else None } } }"

text \<open>\<open>None\<close> in the result is an output argument left as it was.\<close>

definition dc_get_value_type :: "ptr option \<Rightarrow> store \<Rightarrow> (status \<times> value_type \<times> store) option" where
  "dc_get_value_type context s = do {
     (status, s) \<leftarrow> dx_context_sp_full_check context s;
     if status \<noteq> OK then Some (status, VT_UNKNOWN, s)
     else do {
       p \<leftarrow> context;
       t \<leftarrow> dc_context_type s (Some p);
       if t = CT_DEFAULT then do { d \<leftarrow> get_default s p; Some (OK, dv_type (de_value d), s) }
       else if t = CT_KEYVAL then do { k \<leftarrow> get_keyval s p; Some (OK, dv_type (kv_value k), s) }
       else Some (WRONG_CONTEXT, VT_UNKNOWN, s) } }"

section \<open>The state of a context\<close>

definition dc_fatal_error :: "ptr option \<Rightarrow> string option \<Rightarrow> store \<Rightarrow> (status \<times> store) option" where
  "dc_fatal_error context msg s =
     (case (context, msg) of
        (Some p, Some m) \<Rightarrow> do {
          c \<leftarrow> ctxs s p;
          if finalized c then Some (CONTEXT_IN_WRONG_STATE, s)
          else do {
            s \<leftarrow> upd p (\<lambda>c. c\<lparr>fatal := True\<rparr>) s;
            s \<leftarrow> dx_context_error_set p m s;
            Some (OK, s) } }
      | _ \<Rightarrow> Some (INVALID_ARGUMENT, s))"

definition dc_context_error :: "store \<Rightarrow> ptr option \<Rightarrow> string option option" where
  "dc_context_error s context =
     (case context of None \<Rightarrow> Some None
      | Some p \<Rightarrow> do {
          t \<leftarrow> dc_context_type s (Some p);
          c \<leftarrow> ctxs s p;
          Some (if t = CT_UNKNOWN then None else cx_error c) })"

definition dc_context_valid :: "ptr option \<Rightarrow> store \<Rightarrow> (status \<times> store) option" where
  "dc_context_valid context s = do {
     (status, s) \<leftarrow> dx_context_sp_full_check context s;
     if status \<noteq> OK then Some (status, s)
     else do {
       p \<leftarrow> context;
       c \<leftarrow> ctxs s p;
       Some (if invalid c then INVALID_CONTEXT else OK, s) } }"

section \<open>How the heap reads after an update\<close>

lemma upd_Some [store_simps]:
  "upd p f s = Some s' \<longleftrightarrow> (\<exists>c. ctxs s p = Some c \<and> s' = s\<lparr>ctxs := (ctxs s)(p \<mapsto> f c)\<rparr>)"
  by (auto simp: upd_def split: option.splits)

lemma upd_known [simp]: "ctxs s p = Some c \<Longrightarrow> upd p f s = Some (s\<lparr>ctxs := (ctxs s)(p \<mapsto> f c)\<rparr>)"
  by (simp add: upd_def)

lemma upd_None_iff: "upd p f s = None \<longleftrightarrow> ctxs s p = None"
  by (simp add: upd_def split: option.splits)

text \<open>
  Every address in use is below \<open>next_ptr\<close>, no context in use has been given up by all its
  holders, and the object of a context has the context's type: the heap is well formed.
\<close>

definition object_ok :: "disir_context \<Rightarrow> bool" where
  "object_ok c \<longleftrightarrow> cx_obj c = None \<or> object_type (the (cx_obj c)) = cx_type c"

lemma object_ok_simps [simp]:
  "object_ok (c\<lparr>cx_refcount := n\<rparr>) = object_ok c" "object_ok (c\<lparr>cx_error := e\<rparr>) = object_ok c"
  "object_ok (c\<lparr>cx_parent := q\<rparr>) = object_ok c" "object_ok (c\<lparr>cx_obj := None\<rparr>)"
  "object_ok (c\<lparr>cx_obj := Some x\<rparr>) \<longleftrightarrow> object_type x = cx_type c"
  by (simp_all add: object_ok_def)

definition store_ok :: "store \<Rightarrow> bool" where
  "store_ok s \<longleftrightarrow> (\<forall>p c. ctxs s p = Some c \<longrightarrow> p < next_ptr s \<and> 0 < cx_refcount c \<and> object_ok c)"

lemma store_okD: "store_ok s \<Longrightarrow> ctxs s p = Some c \<Longrightarrow> p < next_ptr s \<and> 0 < cx_refcount c \<and> object_ok c"
  by (auto simp: store_ok_def)

lemma store_ok_empty: "store_ok empty_store"
  by (simp add: store_ok_def empty_store_def)

lemma store_ok_upd:
  assumes "store_ok s" and "upd p f s = Some s'"
    and "\<And>c. ctxs s p = Some c \<Longrightarrow> 0 < cx_refcount c \<Longrightarrow> 0 < cx_refcount (f c)"
    and "\<And>c. ctxs s p = Some c \<Longrightarrow> object_ok c \<Longrightarrow> object_ok (f c)"
  shows "store_ok s'"
  using assms by (auto simp: store_ok_def store_simps split: if_splits)

lemma store_ok_create: "store_ok s \<Longrightarrow> store_ok (snd (dx_context_create t s))"
  by (auto simp: store_ok_def dx_context_create_def less_Suc_eq object_ok_def)

lemma store_ok_incref: "store_ok s \<Longrightarrow> dx_context_incref p s = Some s' \<Longrightarrow> store_ok s'"
  unfolding dx_context_incref_def by (erule (1) store_ok_upd) simp_all

lemma store_ok_decref: "store_ok s \<Longrightarrow> dx_context_decref p s = Some (b, s') \<Longrightarrow> store_ok s'"
  by (fastforce simp: store_ok_def dx_context_decref_def dx_context_destroy_def store_simps
      split: bind_splits if_splits)

lemma store_ok_error: "store_ok s \<Longrightarrow> dx_context_error_set p m s = Some s' \<Longrightarrow> store_ok s'"
  unfolding dx_context_error_set_def by (erule (1) store_ok_upd) simp_all

lemma store_ok_attach: "store_ok s \<Longrightarrow> dx_context_attach q p s = Some s' \<Longrightarrow> store_ok s'"
  unfolding dx_context_attach_def
  by (auto split: option.splits bind_splits simp del: upd_known elim!: store_ok_incref [rotated] store_ok_upd)

lemma decref_ok_live:
  assumes "store_ok s" and "ctxs s p = Some c" and "dx_context_decref p s = Some (b, s')"
  shows "b \<longleftrightarrow> ctxs s' p = None" and "\<And>q. q \<noteq> p \<Longrightarrow> ctxs s' q = ctxs s q"
    and "\<not> b \<Longrightarrow> ctxs s' p = Some (c\<lparr>cx_refcount := cx_refcount c - 1\<rparr>)"
    and "b \<longleftrightarrow> cx_refcount c = 1"
  using assms
  by (auto simp: dx_context_decref_def dx_context_destroy_def store_simps split: bind_splits if_splits)

lemma incref_decref:
  assumes "store_ok s" and "dx_context_incref p s = Some s1"
  shows "dx_context_decref p s1 = Some (False, s)"
  using assms store_okD [of s p]
  by (fastforce simp: dx_context_incref_def dx_context_decref_def store_simps fun_upd_idem)

section \<open>How a heap may evolve\<close>

text \<open>
  A context moves through its states in one direction: it leaves the construction for good,
  and once it is finalized, fatal or destroyed it stays so. Its type never changes.
\<close>

definition advances :: "disir_context \<Rightarrow> disir_context \<Rightarrow> bool" where
  "advances c c' \<longleftrightarrow> cx_type c' = cx_type c \<and> (destroyed c \<longrightarrow> destroyed c') \<and>
     (finalized c \<longrightarrow> finalized c') \<and> (fatal c \<longrightarrow> fatal c') \<and> (constructing c' \<longrightarrow> constructing c)"

lemma advances_refl [intro!, simp]: "advances c c"
  by (simp add: advances_def)

lemma advances_trans: "advances c c' \<Longrightarrow> advances c' c'' \<Longrightarrow> advances c c''"
  by (auto simp: advances_def)

lemma advances_simps [simp]:
  "advances c (c\<lparr>cx_refcount := n\<rparr>)" "advances c (c\<lparr>cx_error := e\<rparr>)" "advances c (c\<lparr>cx_parent := q\<rparr>)"
  "advances c (c\<lparr>cx_obj := x\<rparr>)"
  by (simp_all add: advances_def)

text \<open>
  What every operation of the library keeps: addresses are not reused, a context only advances,
  and a well-formed heap stays well formed, the types of its objects included.
\<close>

definition evolves :: "store \<Rightarrow> store \<Rightarrow> bool" where
  "evolves s s' \<longleftrightarrow> next_ptr s \<le> next_ptr s' \<and> (store_ok s \<longrightarrow> store_ok s') \<and>
     (\<forall>p < next_ptr s. case ctxs s' p of None \<Rightarrow> True
        | Some c' \<Rightarrow> \<exists>c. ctxs s p = Some c \<and> advances c c')"

lemma evolves_refl [intro!, simp]: "evolves s s"
  by (auto simp: evolves_def split: option.splits)

lemma evolvesD:
  "evolves s s' \<Longrightarrow> p < next_ptr s \<Longrightarrow> ctxs s' p = Some c' \<Longrightarrow> \<exists>c. ctxs s p = Some c \<and> advances c c'"
  by (force simp: evolves_def)

lemma evolves_trans: "evolves s s' \<Longrightarrow> evolves s' s'' \<Longrightarrow> evolves s s''"
proof -
  assume a: "evolves s s'" and b: "evolves s' s''"
  have "\<exists>c. ctxs s p = Some c \<and> advances c c''"
    if p: "p < next_ptr s" and c'': "ctxs s'' p = Some c''" for p c''
  proof -
    have "p < next_ptr s'" using a p by (simp add: evolves_def)
    from evolvesD [OF b this c''] obtain c' where c': "ctxs s' p = Some c'" "advances c' c''" by blast
    with evolvesD [OF a p c'(1)] show ?thesis by (blast intro: advances_trans)
  qed
  with a b show ?thesis by (auto simp: evolves_def split: option.splits)
qed

text \<open>
  The rules below have the form \<open>f s = Some s' \<Longrightarrow> evolves s0 s \<Longrightarrow> evolves s0 s'\<close>, so that the
  classical reasoner follows a state through an operation.
\<close>

named_theorems evolving "how the heap evolves through an operation"

definition tame :: "(disir_context \<Rightarrow> disir_context) \<Rightarrow> bool" where
  "tame f \<longleftrightarrow> (\<forall>c. advances c (f c) \<and>
     (0 < cx_refcount c \<longrightarrow> 0 < cx_refcount (f c)) \<and> (object_ok c \<longrightarrow> object_ok (f c)))"

lemma evolves_upd [evolving]: "upd p f s = Some s' \<Longrightarrow> tame f \<Longrightarrow> evolves s0 s \<Longrightarrow> evolves s0 s'"
proof -
  assume u: "upd p f s = Some s'" and f: "tame f" and e: "evolves s0 s"
  have "store_ok s \<Longrightarrow> store_ok s'" using store_ok_upd [OF _ u] f by (auto simp: tame_def)
  with u f have "evolves s s'"
    by (auto simp: evolves_def tame_def store_simps split: option.splits if_splits)
  with e show ?thesis by (rule evolves_trans)
qed

lemma tame_updates [evolving]:
  "tame (constructing_update (\<lambda>_. False))" "tame (finalized_update (\<lambda>_. True))"
  "tame (invalid_update f1)" "tame (fatal_update (\<lambda>_. True))" "tame (in_parent_update f1)" "tame (cx_obj_update (\<lambda>_. None))"
  "tame (cx_parent_update f3)" "tame (cx_root_update f3)" "tame (cx_error_update f4)"
  "tame (destroyed_update (\<lambda>_. True))"
  by (simp_all add: tame_def object_ok_def advances_def)

lemma set_obj_Some:
  "set_obj p x s = Some s' \<longleftrightarrow> (\<exists>c. ctxs s p = Some c \<and> object_type x = cx_type c \<and>
     s' = s\<lparr>ctxs := (ctxs s)(p \<mapsto> c\<lparr>cx_obj := Some x\<rparr>)\<rparr>)"
  by (auto simp: set_obj_def bind_eq_Some_conv store_simps)

lemma evolves_set_obj [evolving]: "set_obj p x s = Some s' \<Longrightarrow> evolves s0 s \<Longrightarrow> evolves s0 s'"
proof -
  assume u: "set_obj p x s = Some s'" and e: "evolves s0 s"
  have "evolves s s'"
    using u by (auto simp: evolves_def set_obj_Some store_ok_def split: option.splits if_splits)
  with e show ?thesis by (rule evolves_trans)
qed

lemma evolves_error_set [evolving]:
  "dx_context_error_set p m s = Some s' \<Longrightarrow> evolves s0 s \<Longrightarrow> evolves s0 s'"
  unfolding dx_context_error_set_def by (erule evolves_upd) (simp_all add: tame_def)

lemma evolves_incref [evolving]:
  "dx_context_incref p s = Some s' \<Longrightarrow> evolves s0 s \<Longrightarrow> evolves s0 s'"
  unfolding dx_context_incref_def by (erule evolves_upd) (simp_all add: tame_def)

lemma evolves_decref [evolving]:
  "dx_context_decref p s = Some (b, s') \<Longrightarrow> evolves s0 s \<Longrightarrow> evolves s0 s'"
proof -
  assume d: "dx_context_decref p s = Some (b, s')" and e: "evolves s0 s"
  have "evolves s s'"
    using d store_ok_decref [OF _ d]
    by (auto simp: evolves_def dx_context_decref_def dx_context_destroy_def store_simps
        split: option.splits bind_splits if_splits)
  with e show ?thesis by (rule evolves_trans)
qed

lemma evolves_transfer [evolving]:
  "dx_context_transfer_logwarn d r s = Some s' \<Longrightarrow> evolves s0 s \<Longrightarrow> evolves s0 s'"
  by (auto simp: dx_context_transfer_logwarn_def bind_eq_Some_conv simp del: upd_known
      split: option.splits if_splits intro: evolving)

lemma evolves_attach [evolving]:
  "dx_context_attach q p s = Some s' \<Longrightarrow> evolves s0 s \<Longrightarrow> evolves s0 s'"
  by (auto simp: dx_context_attach_def bind_eq_Some_conv simp del: upd_known
      split: option.splits intro: evolving)

lemma evolves_create [evolving]: "dx_context_create t s = (r, s') \<Longrightarrow> evolves s0 s \<Longrightarrow> evolves s0 s'"
proof -
  assume c: "dx_context_create t s = (r, s')" and e: "evolves s0 s"
  have "store_ok s \<Longrightarrow> store_ok s'" using store_ok_create [of s t] c by simp
  then have "evolves s s'"
    using c by (auto simp: evolves_def dx_context_create_def split: option.splits if_splits)
  with e show ?thesis by (rule evolves_trans)
qed

lemma evolves_sp_check [evolving]:
  "dx_context_sp_full_check p s = Some (st, s') \<Longrightarrow> evolves s0 s \<Longrightarrow> evolves s0 s'"
  by (auto simp: dx_context_sp_full_check_def bind_eq_Some_conv split: option.splits if_splits
      intro: evolving)

lemma evolves_dp_check [evolving]:
  "dx_context_dp_full_check p s = Some (st, s') \<Longrightarrow> evolves s0 s \<Longrightarrow> evolves s0 s'"
  by (auto simp: dx_context_dp_full_check_def split: option.splits intro: evolving)

lemma evolves_set_value_type [evolving]:
  "dc_set_value_type p t s = Some (st, s') \<Longrightarrow> evolves s0 s \<Longrightarrow> evolves s0 s'"
  by (auto simp: dc_set_value_type_def bind_eq_Some_conv split: if_splits intro: evolving)

lemma evolves_fatal_error [evolving]:
  "dc_fatal_error p m s = Some (st, s') \<Longrightarrow> evolves s0 s \<Longrightarrow> evolves s0 s'"
  by (auto simp: dc_fatal_error_def bind_eq_Some_conv simp del: upd_known
      split: option.splits if_splits intro: evolving)

lemma evolves_get_value_type [evolving]:
  "dc_get_value_type p s = Some (st, t, s') \<Longrightarrow> evolves s0 s \<Longrightarrow> evolves s0 s'"
  by (auto simp: dc_get_value_type_def bind_eq_Some_conv split: if_splits intro: evolving)

end
