(* ===== verification/Collection.thy ===== *)
theory Collection
  imports Context
begin

text \<open>
  src/lib/collection.c: a collection is a growing array of contexts, each of which it holds a
  reference to, with an iterator. \<open>cc_collection\<close> is the whole array, of \<open>cc_capacity\<close> slots;
  the \<^verbatim>\<open>int32_t\<close> counters are naturals (a collection of \<open>2 ^ 31\<close> contexts does not fit in
  memory), and the iterator is clamped at 0 as the code does.

  The lemmas show that coalescing keeps exactly the contexts that are not destroyed, in order,
  and gives up one reference to each of the others; that pushing and iterating give the
  contexts back in order; and what becomes of the iterator.
\<close>

section \<open>The data and the operations\<close>

record disir_collection =
  cc_collection :: "ptr option list"
  cc_capacity :: nat
  cc_numentries :: nat
  cc_iterator_index :: nat

definition dc_collection_create :: disir_collection where
  "dc_collection_create =
     \<lparr>cc_collection = replicate 10 None, cc_capacity = 10, cc_numentries = 0, cc_iterator_index = 0\<rparr>"

text \<open>
  The inner loop of the coalescing, which looks for a live entry from \<open>probe\<close> on and moves it
  to \<open>slot\<close>; \<open>n\<close> is the number of entries and \<open>it\<close> the iterator. It returns the probe, the
  array and the count of moves across the iterator.
\<close>

function probe_from :: "store \<Rightarrow> nat \<Rightarrow> nat \<Rightarrow> nat \<Rightarrow> nat \<Rightarrow> ptr option list \<Rightarrow> nat \<Rightarrow>
    (nat \<times> ptr option list \<times> nat) option" where
  "probe_from s n it slot probe arr moveback =
     (if n \<le> probe then Some (probe, arr, moveback)
      else do {
        p \<leftarrow> arr ! probe;
        c \<leftarrow> ctxs s p;
        if destroyed c then probe_from s n it slot (probe + 1) arr moveback
        else Some (probe + 1, arr[probe := None, slot := Some p],
                   if it \<le> probe \<and> slot < it then moveback + 1 else moveback) })"
  by pat_completeness auto
termination by (relation "measure (\<lambda>(s, n, it, slot, probe, arr, mb). n - probe)") auto

declare probe_from.simps [simp del]

text \<open>
  The outer loop. The result is the store, in which a reference to each destroyed context has
  been given up, the array, the number of destroyed contexts and the count of moves.
\<close>

function coalesce_from :: "nat \<Rightarrow> nat \<Rightarrow> nat \<Rightarrow> nat \<Rightarrow> store \<Rightarrow> ptr option list \<Rightarrow> nat \<Rightarrow> nat \<Rightarrow>
    (store \<times> ptr option list \<times> nat \<times> nat) option" where
  "coalesce_from n it index probe s arr gone moveback =
     (if n \<le> index then Some (s, arr, gone, moveback)
      else case arr ! index of
        None \<Rightarrow> do {
          (probe, arr, moveback) \<leftarrow> probe_from s n it index (max probe (index + 1)) arr moveback;
          coalesce_from n it (index + 1) probe s arr gone moveback }
      | Some p \<Rightarrow> do {
          c \<leftarrow> ctxs s p;
          if destroyed c then do {
            (_, s) \<leftarrow> dx_context_decref p s;
            (probe, arr, moveback) \<leftarrow>
               probe_from s n it index (max probe (index + 1)) (arr[index := None]) moveback;
            coalesce_from n it (index + 1) probe s arr (gone + 1) moveback }
          else coalesce_from n it (index + 1) probe s arr gone moveback })"
  by pat_completeness auto
termination by (relation "measure (\<lambda>(n, it, index, probe, s, arr, gone, mb). n - index)") auto

declare coalesce_from.simps [simp del]

definition dx_collection_coalesce :: "disir_collection \<Rightarrow> store \<Rightarrow> (status \<times> disir_collection \<times> store) option" where
  "dx_collection_coalesce col s = do {
     (s, arr, gone, moveback) \<leftarrow>
        coalesce_from (cc_numentries col) (cc_iterator_index col) 0 1 s (cc_collection col) 0 0;
     Some (OK, col\<lparr>cc_collection := arr, cc_numentries := cc_numentries col - gone,
                   cc_iterator_index := cc_iterator_index col - moveback\<rparr>, s) }"

text \<open>The size of a NULL collection is 0.\<close>

definition dc_collection_size :: "disir_collection option \<Rightarrow> store \<Rightarrow>
    (nat \<times> disir_collection option \<times> store) option" where
  "dc_collection_size collection s =
     (case collection of None \<Rightarrow> Some (0, None, s)
      | Some col \<Rightarrow> do {
          (_, col, s) \<leftarrow> dx_collection_coalesce col s;
          Some (cc_numentries col, Some col, s) })"

text \<open>The next context, NULL once the iterator is exhausted; it gains a reference.\<close>

definition dx_collection_next_noncoalesce :: "disir_collection \<Rightarrow> store \<Rightarrow>
    (status \<times> ptr option \<times> disir_collection \<times> store) option" where
  "dx_collection_next_noncoalesce col s =
     (if cc_numentries col \<le> cc_iterator_index col then Some (EXHAUSTED, None, col, s)
      else do {
        p \<leftarrow> cc_collection col ! cc_iterator_index col;
        s \<leftarrow> dx_context_incref p s;
        Some (OK, Some p, col\<lparr>cc_iterator_index := cc_iterator_index col + 1\<rparr>, s) })"

definition dc_collection_next :: "disir_collection \<Rightarrow> store \<Rightarrow>
    (status \<times> ptr option \<times> disir_collection \<times> store) option" where
  "dc_collection_next col s = do {
     (status, col, s) \<leftarrow> dx_collection_coalesce col s;
     if status \<noteq> OK then Some (status, None, col, s)
     else if cc_numentries col \<le> cc_iterator_index col then Some (EXHAUSTED, None, col, s)
     else do {
       p \<leftarrow> cc_collection col ! cc_iterator_index col;
       s \<leftarrow> dx_context_incref p s;
       Some (OK, Some p, col\<lparr>cc_iterator_index := cc_iterator_index col + 1\<rparr>, s) } }"

definition dc_collection_reset :: "disir_collection \<Rightarrow> disir_collection" where
  "dc_collection_reset col = col\<lparr>cc_iterator_index := 0\<rparr>"

definition dc_collection_push_context :: "disir_collection \<Rightarrow> ptr option \<Rightarrow> store \<Rightarrow>
    (status \<times> disir_collection \<times> store) option" where
  "dc_collection_push_context col context s =
     (case context of None \<Rightarrow> Some (INVALID_ARGUMENT, col, s)
      | Some p \<Rightarrow> do {
          (status, col, s) \<leftarrow> dx_collection_coalesce col s;
          if status \<noteq> OK then Some (status, col, s)
          else do {
            let col = (if cc_numentries col = cc_capacity col
                       then col\<lparr>cc_collection := cc_collection col @ replicate 10 None,
                                cc_capacity := cc_capacity col + 10\<rparr>
                       else col);
            s \<leftarrow> dx_context_incref p s;
            Some (OK, col\<lparr>cc_collection := (cc_collection col)[cc_numentries col := Some p],
                          cc_numentries := cc_numentries col + 1\<rparr>, s) } })"

text \<open>Giving up the references to the contexts of an array.\<close>

fun decref_all :: "ptr option list \<Rightarrow> store \<Rightarrow> store option" where
  "decref_all [] s = Some s"
| "decref_all (None # ps) s = decref_all ps s"
| "decref_all (Some p # ps) s = do { (_, s) \<leftarrow> dx_context_decref p s; decref_all ps s }"

definition dc_collection_finished :: "disir_collection option \<Rightarrow> store \<Rightarrow> (status \<times> store) option" where
  "dc_collection_finished collection s =
     (case collection of None \<Rightarrow> Some (INVALID_ARGUMENT, s)
      | Some col \<Rightarrow> do {
          s \<leftarrow> decref_all (take (cc_numentries col) (cc_collection col)) s;
          Some (OK, s) })"

section \<open>The contexts of a collection\<close>

definition live :: "store \<Rightarrow> ptr \<Rightarrow> bool" where
  "live s p \<longleftrightarrow> (\<exists>c. ctxs s p = Some c \<and> \<not> destroyed c)"

text \<open>\<open>holds col ps\<close>: the entries of the collection are the contexts \<open>ps\<close>.\<close>

definition holds :: "disir_collection \<Rightarrow> ptr list \<Rightarrow> bool" where
  "holds col ps \<longleftrightarrow> cc_numentries col = length ps \<and> length (cc_collection col) = cc_capacity col \<and>
     take (length ps) (cc_collection col) = map Some ps"

lemma holds_create: "holds dc_collection_create []"
  by (simp add: holds_def dc_collection_create_def)

lemma holds_nth: "holds col ps \<Longrightarrow> i < length ps \<Longrightarrow> cc_collection col ! i = Some (ps ! i)"
  by (metis holds_def nth_map nth_take)

lemma holds_length: "holds col ps \<Longrightarrow> length ps \<le> length (cc_collection col)"
  by (metis holds_def length_map length_take min.absorb_iff1 nat_le_linear)

subsection \<open>Nothing destroyed: coalescing changes nothing\<close>

lemma coalesce_from_live:
  "(\<And>i. index \<le> i \<Longrightarrow> i < n \<Longrightarrow> \<exists>p. arr ! i = Some p \<and> live s p) \<Longrightarrow>
   coalesce_from n it index probe s arr gone mb = Some (s, arr, gone, mb)"
proof (induction "n - index" arbitrary: index)
  case 0
  then show ?case by (simp add: coalesce_from.simps)
next
  case (Suc d)
  then have "index < n" by simp
  with Suc.prems [of index] obtain p c where "arr ! index = Some p" "ctxs s p = Some c" "\<not> destroyed c"
    by (auto simp: live_def)
  then have "coalesce_from n it index probe s arr gone mb =
      coalesce_from n it (index + 1) probe s arr gone mb"
    using \<open>index < n\<close> by (subst coalesce_from.simps) simp
  also have "\<dots> = Some (s, arr, gone, mb)" using Suc by (intro Suc.hyps(1)) auto
  finally show ?case .
qed

lemma coalesce_live:
  assumes "holds col ps" and "\<And>p. p \<in> set ps \<Longrightarrow> live s p"
  shows "dx_collection_coalesce col s = Some (OK, col, s)"
proof -
  have "coalesce_from (cc_numentries col) (cc_iterator_index col) 0 1 s (cc_collection col) 0 0 =
      Some (s, cc_collection col, 0, 0)"
    using assms by (intro coalesce_from_live) (auto simp: holds_nth holds_def [THEN iffD1, THEN conjunct1])
  then show ?thesis by (simp add: dx_collection_coalesce_def)
qed

lemma live_incref [simp]: "dx_context_incref q s = Some s' \<Longrightarrow> live s' p \<longleftrightarrow> live s p"
  by (auto simp: dx_context_incref_def store_simps live_def split: if_splits)

lemma push_live:
  assumes col: "holds col ps" and ps: "\<And>q. q \<in> set ps \<Longrightarrow> live s q" and p: "live s p"
  shows "\<exists>col' s'. dc_collection_push_context col (Some p) s = Some (OK, col', s') \<and>
           dx_context_incref p s = Some s' \<and> holds col' (ps @ [p]) \<and>
           cc_iterator_index col' = cc_iterator_index col"
proof -
  have co: "dx_collection_coalesce col s = Some (OK, col, s)" using coalesce_live [OF col ps] .
  obtain s' where s': "dx_context_incref p s = Some s'"
    using p by (auto simp: live_def dx_context_incref_def)
  let ?arr = "if length ps = cc_capacity col then cc_collection col @ replicate 10 None
              else cc_collection col"
  have len: "length ps < length ?arr" and tk: "take (length ps) ?arr = map Some ps"
    using col holds_length [OF col] by (auto simp: holds_def)
  have "take (length (ps @ [p])) (?arr[length ps := Some p]) = map Some (ps @ [p])"
    using len tk by (simp add: take_Suc_conv_app_nth)
  then show ?thesis
    using col s' by (auto simp: dc_collection_push_context_def co holds_def Let_def split: if_splits)
qed

lemma next_live:
  assumes col: "holds col ps" and ps: "\<And>q. q \<in> set ps \<Longrightarrow> live s q"
  shows "if cc_iterator_index col < length ps
         then \<exists>s'. dc_collection_next col s = Some (OK, Some (ps ! cc_iterator_index col),
                     col\<lparr>cc_iterator_index := cc_iterator_index col + 1\<rparr>, s') \<and>
                   dx_context_incref (ps ! cc_iterator_index col) s = Some s'
         else dc_collection_next col s = Some (EXHAUSTED, None, col, s)"
proof -
  have co: "dx_collection_coalesce col s = Some (OK, col, s)" using coalesce_live [OF col ps] .
  show ?thesis
  proof (cases "cc_iterator_index col < length ps")
    case True
    then obtain s' where "dx_context_incref (ps ! cc_iterator_index col) s = Some s'"
      using ps [OF nth_mem [OF True]] by (auto simp: live_def dx_context_incref_def)
    with True col show ?thesis
      by (simp add: dc_collection_next_def co holds_nth [OF col True]) (simp add: holds_def)
  next
    case False
    with col show ?thesis by (simp add: dc_collection_next_def co holds_def)
  qed
qed

subsection \<open>Coalescing keeps the contexts that are not destroyed\<close>

definition dead :: "store \<Rightarrow> ptr \<Rightarrow> bool" where
  "dead s p \<longleftrightarrow> (\<exists>c. ctxs s p = Some c \<and> destroyed c)"

definition somes :: "ptr option list \<Rightarrow> ptr list" where
  "somes arr = concat (map (\<lambda>e. case e of None \<Rightarrow> [] | Some p \<Rightarrow> [p]) arr)"

lemma somes_simps [simp]:
  "somes [] = []" "somes (None # arr) = somes arr" "somes (Some p # arr) = p # somes arr"
  "somes (arr @ arr') = somes arr @ somes arr'" "somes (map Some ps) = ps" "somes (replicate k None) = []"
  by (induction ps; induction k; simp add: somes_def)+

lemma in_somes: "p \<in> set (somes arr) \<longleftrightarrow> Some p \<in> set arr"
  by (induction arr) (auto simp: somes_def split: option.splits)

lemma two_points:
  assumes "i < j" and "j < length xs"
  obtains A B C where "xs = A @ xs ! i # B @ xs ! j # C" and "length A = i" and "length A + 1 + length B = j"
proof -
  have "xs = take i xs @ xs ! i # drop (Suc i) xs"
    using assms by (intro id_take_nth_drop) simp
  moreover have "drop (Suc i) xs = take (j - Suc i) (drop (Suc i) xs) @ xs ! j # drop (Suc j) xs"
    using assms id_take_nth_drop [of "j - Suc i" "drop (Suc i) xs"] by simp
  ultimately have "xs = take i xs @ xs ! i # take (j - Suc i) (drop (Suc i) xs) @ xs ! j # drop (Suc j) xs"
    by simp
  then show thesis by (rule that) (use assms in auto)
qed

definition dead_at :: "store \<Rightarrow> ptr option list \<Rightarrow> nat \<Rightarrow> bool" where
  "dead_at s arr i \<longleftrightarrow> (\<exists>p. arr ! i = Some p \<and> dead s p)"

lemma probe_from_spec:
  assumes "\<And>j. q \<le> j \<Longrightarrow> j < n \<Longrightarrow> \<exists>p. arr ! j = Some p \<and> (live s p \<or> dead s p)"
  shows "\<exists>t \<ge> q. (\<forall>i. q \<le> i \<longrightarrow> i < t \<longrightarrow> dead_at s arr i) \<and> t \<le> max q n \<and>
      (if t < n then \<exists>p mb'. arr ! t = Some p \<and> live s p \<and>
          probe_from s n it slot q arr mb = Some (t + 1, arr[t := None, slot := Some p], mb')
       else probe_from s n it slot q arr mb = Some (max q n, arr, mb))"
  using assms
proof (induction "n - q" arbitrary: q)
  case 0
  then have "probe_from s n it slot q arr mb = Some (max q n, arr, mb)"
    by (subst probe_from.simps) simp
  with 0 show ?case by (intro exI [of _ q]) auto
next
  case (Suc d)
  then have q: "q < n" by simp
  with Suc.prems [of q] obtain p where p: "arr ! q = Some p" and ld: "live s p \<or> dead s p" by auto
  show ?case
  proof (cases "live s p")
    case True
    then have "\<exists>mb'. probe_from s n it slot q arr mb = Some (q + 1, arr[q := None, slot := Some p], mb')"
      using p q by (subst probe_from.simps) (auto simp: live_def)
    with True p q show ?thesis by (intro exI [of _ q]) auto
  next
    case False
    with ld have dead: "dead s p" by simp
    with p q have step: "probe_from s n it slot q arr mb = probe_from s n it slot (q + 1) arr mb"
      by (subst probe_from.simps) (auto simp: dead_def)
    obtain t where t: "q + 1 \<le> t" and b: "\<And>i. q + 1 \<le> i \<Longrightarrow> i < t \<Longrightarrow> dead_at s arr i" "t \<le> max (q + 1) n"
      and r: "if t < n then \<exists>p mb'. arr ! t = Some p \<and> live s p \<and>
          probe_from s n it slot (q + 1) arr mb = Some (t + 1, arr[t := None, slot := Some p], mb')
       else probe_from s n it slot (q + 1) arr mb = Some (max (q + 1) n, arr, mb)"
    proof -
      have "\<exists>t \<ge> q + 1. (\<forall>i. q + 1 \<le> i \<longrightarrow> i < t \<longrightarrow> dead_at s arr i) \<and> t \<le> max (q + 1) n \<and>
          (if t < n then \<exists>p mb'. arr ! t = Some p \<and> live s p \<and>
             probe_from s n it slot (q + 1) arr mb = Some (t + 1, arr[t := None, slot := Some p], mb')
           else probe_from s n it slot (q + 1) arr mb = Some (max (q + 1) n, arr, mb))"
        using Suc.hyps(2) Suc.prems by (intro Suc.hyps(1)) auto
      then show thesis using that by blast
    qed
    have "dead_at s arr i" if "q \<le> i" "i < t" for i
      using that b(1) [of i] p dead by (cases "i = q") (auto simp: dead_at_def)
    with t b(2) r q show ?thesis unfolding step by (intro exI [of _ t]) (auto simp: max_def)
  qed
qed

text \<open>
  The invariant of the outer loop: slots before \<open>i\<close> hold live contexts or nothing, no
  live context is beyond an empty one of them, and between \<open>i\<close> and the probe none is live.
\<close>

definition live_at :: "store \<Rightarrow> ptr option list \<Rightarrow> nat \<Rightarrow> bool" where
  "live_at s arr i \<longleftrightarrow> (\<exists>p. arr ! i = Some p \<and> live s p)"

definition cinv :: "nat \<Rightarrow> nat \<Rightarrow> nat \<Rightarrow> store \<Rightarrow> ptr option list \<Rightarrow> bool" where
  "cinv n i q s arr \<longleftrightarrow> n \<le> length arr \<and> distinct (somes (take n arr)) \<and>
     (\<forall>j < n. arr ! j = None \<or> live_at s arr j \<or> dead_at s arr j) \<and>
     (\<forall>j < n. j < i \<longrightarrow> arr ! j = None \<or> live_at s arr j) \<and>
     (\<forall>j < n. i < j \<longrightarrow> arr ! j = None \<longrightarrow> j < q) \<and>
     (\<forall>j < n. i < j \<longrightarrow> j < q \<longrightarrow> \<not> live_at s arr j) \<and>
     (\<forall>j < n. j < i \<longrightarrow> arr ! j = None \<longrightarrow> (\<forall>k < n. j < k \<longrightarrow> \<not> live_at s arr k))"

abbreviation lives :: "store \<Rightarrow> nat \<Rightarrow> ptr option list \<Rightarrow> ptr list" where
  "lives s n arr \<equiv> filter (live s) (somes (take n arr))"

abbreviation deads :: "store \<Rightarrow> nat \<Rightarrow> ptr option list \<Rightarrow> ptr list" where
  "deads s n arr \<equiv> filter (dead s) (somes (take n arr))"

lemma live_not_dead: "live s p \<Longrightarrow> \<not> dead s p"
  by (auto simp: live_def dead_def)

lemma not_live_somes: "(\<And>j. j < length B \<Longrightarrow> \<not> live_at s B j) \<Longrightarrow> filter (live s) (somes B) = []"
  unfolding filter_empty_conv in_somes live_at_def by (metis in_set_conv_nth in_somes)

lemma not_dead_somes: "(\<And>j. j < length B \<Longrightarrow> \<not> dead_at s B j) \<Longrightarrow> filter (dead s) (somes B) = []"
  unfolding filter_empty_conv in_somes dead_at_def by (metis in_set_conv_nth in_somes)

lemma move_entry:
  assumes "i < t" and "t < n" and "n \<le> length arr" and i: "arr ! i = None" and t: "arr ! t = Some p"
    and p: "live s p" and b: "\<And>j. i < j \<Longrightarrow> j < t \<Longrightarrow> \<not> live_at s arr j"
  shows "lives s n (arr[t := None, i := Some p]) = lives s n arr \<and>
         deads s n (arr[t := None, i := Some p]) = deads s n arr \<and>
         (distinct (somes (take n arr)) \<longrightarrow> distinct (somes (take n (arr[t := None, i := Some p]))))"
proof -
  obtain A B C where eq: "take n arr = A @ take n arr ! i # B @ take n arr ! t # C"
    and A: "length A = i" and B: "length A + 1 + length B = t"
    using two_points [of i t "take n arr"] assms(1-3) by auto
  then have eq: "take n arr = A @ None # B @ Some p # C" using assms by simp
  then have upd: "take n (arr[t := None, i := Some p]) = A @ Some p # B @ None # C"
    unfolding take_update_swap eq by (simp add: A [symmetric] B [symmetric] list_update_append)
  have "\<not> live_at s B j" if "j < length B" for j
  proof -
    have "arr ! (i + 1 + j) = take n arr ! (i + 1 + j)" using that A B assms(2) by simp
    also have "\<dots> = B ! j" using that A unfolding eq by (simp add: nth_append)
    finally show ?thesis using b [of "i + 1 + j"] that A B by (simp add: live_at_def)
  qed
  then have "filter (live s) (somes B) = []" by (rule not_live_somes)
  then show ?thesis using p live_not_dead [OF p] unfolding eq upd by auto
qed

lemma probe_step:
  assumes c: "cinv n i q s arr" and i: "i < n" and e: "arr ! i = None"
  shows "\<exists>q' arr' mb'. probe_from s n it i (max q (i + 1)) arr mb = Some (q', arr', mb') \<and>
           cinv n (i + 1) q' s arr' \<and> lives s n arr' = lives s n arr \<and> deads s n arr' = deads s n arr \<and>
           length arr' = length arr"
proof -
  let ?q = "max q (i + 1)"
  obtain t where t: "?q \<le> t" "t \<le> max ?q n" and b: "\<And>k. ?q \<le> k \<Longrightarrow> k < t \<Longrightarrow> dead_at s arr k"
    and r: "if t < n then \<exists>p mb'. arr ! t = Some p \<and> live s p \<and>
        probe_from s n it i ?q arr mb = Some (t + 1, arr[t := None, i := Some p], mb')
      else probe_from s n it i ?q arr mb = Some (max ?q n, arr, mb)"
  proof -
    have "\<exists>p. arr ! j = Some p \<and> (live s p \<or> dead s p)" if "?q \<le> j" "j < n" for j
      using c that by (fastforce simp: cinv_def live_at_def dead_at_def)
    then show thesis using probe_from_spec [of ?q n arr s it i mb] that by blast
  qed
  have nl: "\<not> live_at s arr j" if "i < j" "j < t" "j < n" for j
    using c b [of j] that
    by (cases "j < q") (auto simp: cinv_def live_at_def dead_at_def dest: live_not_dead)
  show ?thesis
  proof (cases "t < n")
    case True
    with r obtain p mb' where p: "arr ! t = Some p" "live s p"
      and run: "probe_from s n it i ?q arr mb = Some (t + 1, arr[t := None, i := Some p], mb')" by auto
    let ?arr = "arr[t := None, i := Some p]"
    have it: "i < t" "n \<le> length arr" using t c by (auto simp: cinv_def)
    have at: "?arr ! k = (if k = i then Some p else if k = t then None else arr ! k)" if "k < n" for k
      using that it by (auto simp: nth_list_update)
    have la: "live_at s ?arr k \<longleftrightarrow> k = i \<or> k \<noteq> t \<and> live_at s arr k" if "k < n" for k
      using that p by (auto simp: live_at_def at)
    have da: "dead_at s ?arr k \<longleftrightarrow> k \<noteq> i \<and> k \<noteq> t \<and> dead_at s arr k" if "k < n" for k
      using that p live_not_dead by (auto simp: dead_at_def at)
    have full: "arr ! j \<noteq> None" if "j < i" for j
    proof -
      have "live_at s arr t" using p by (auto simp: live_at_def)
      with c that True it show ?thesis unfolding cinv_def by (meson less_trans)
    qed
    note cs = c [unfolded cinv_def]
    have nl': "\<not> live_at s arr j" if "i < j" "j < t" for j using nl [of j] that True by simp
    have "cinv n (i + 1) (t + 1) s ?arr"
      unfolding cinv_def
    proof (intro conjI allI impI)
      show "distinct (somes (take n ?arr))"
        using move_entry [OF it(1) True it(2) e p nl'] cs by simp
      show "?arr ! j = None \<or> live_at s ?arr j \<or> dead_at s ?arr j" if "j < n" for j
        using cs that by (auto simp: at la da)
      show "?arr ! j = None \<or> live_at s ?arr j" if "j < n" "j < i + 1" for j
        using cs that it by (auto simp: at la less_Suc_eq)
      show "j < t + 1" if "j < n" "i + 1 < j" "?arr ! j = None" for j
      proof (cases "j = t")
        case False
        with that have "arr ! j = None" by (simp add: at)
        with cs that have "j < q" by auto
        with t show ?thesis by simp
      qed simp
      show "\<not> live_at s ?arr j" if "j < n" "i + 1 < j" "j < t + 1" for j
        using nl [of j] that by (auto simp: la)
      show "\<not> live_at s ?arr k" if "j < n" "j < i + 1" "?arr ! j = None" "k < n" "j < k" for j k
        using full [of j] that it by (auto simp: at less_Suc_eq split: if_splits)
    qed (use it in simp)
    moreover note move_entry [OF it(1) True it(2) e p(1,2) nl']
    ultimately show ?thesis using run True by auto
  next
    case False
    then have "cinv n (i + 1) (max ?q n) s arr"
      using c e nl t i unfolding cinv_def by (auto simp: less_Suc_eq)
    with False r show ?thesis by auto
  qed
qed

lemma decref_dead:
  assumes "dead s p"
  shows "\<exists>b s'. dx_context_decref p s = Some (b, s') \<and> (\<forall>q. live s' q \<longleftrightarrow> live s q) \<and>
           (\<forall>q. q \<noteq> p \<longrightarrow> ctxs s' q = ctxs s q)"
  using assms
  by (auto simp: dead_def dx_context_decref_def dx_context_destroy_def live_def Let_def)

lemma dead_step:
  assumes c: "cinv n i q s arr" and i: "i < n" and p: "arr ! i = Some p" and dead: "dead s p"
  shows "\<exists>b s'. dx_context_decref p s = Some (b, s') \<and> cinv n i q s' (arr[i := None]) \<and>
           lives s' n (arr[i := None]) = lives s n arr \<and> deads s n arr = p # deads s' n (arr[i := None])"
proof -
  obtain b s' where s': "dx_context_decref p s = Some (b, s')" and lv: "\<And>q. live s' q \<longleftrightarrow> live s q"
    and ot: "\<And>q. q \<noteq> p \<Longrightarrow> ctxs s' q = ctxs s q" using decref_dead [OF dead] by blast
  note cs = c [unfolded cinv_def]
  have len: "i < length arr" using cs i by simp
  define A C where "A = take i (take n arr)" and "C = drop (Suc i) (take n arr)"
  have eq: "take n arr = A @ Some p # C"
    using id_take_nth_drop [of i "take n arr"] i len p by (simp add: A_def C_def)
  have lA: "length A = i" using i len by (simp add: A_def)
  have upd: "take n (arr[i := None]) = A @ None # C"
    unfolding take_update_swap eq by (simp add: lA [symmetric])
  have nA: "filter (dead s) (somes A) = []"
  proof (rule not_dead_somes)
    fix j assume j: "j < length A"
    then have "A ! j = arr ! j" using lA i by (simp add: A_def)
    moreover have "arr ! j = None \<or> live_at s arr j" using cs j lA i by simp
    ultimately show "\<not> dead_at s A j"
      by (auto simp: dead_at_def live_at_def dest: live_not_dead)
  qed
  have np: "p \<notin> set (somes A) \<union> set (somes C)" using cs by (simp add: eq)
  then have dd: "filter (dead s') (somes A) = filter (dead s) (somes A)"
    "filter (dead s') (somes C) = filter (dead s) (somes C)"
  proof -
    have "dead s' q \<longleftrightarrow> dead s q" if "q \<in> set (somes A) \<union> set (somes C)" for q
      using that np by (cases "q = p") (auto simp: dead_def ot)
    then show "filter (dead s') (somes A) = filter (dead s) (somes A)"
      "filter (dead s') (somes C) = filter (dead s) (somes C)" by (simp_all cong: filter_cong)
  qed
  have lv': "live s' = live s" by (rule ext) (rule lv)
  have at: "arr[i := None] ! j = (if j = i then None else arr ! j)" if "j < n" for j
    using that len by (auto simp: nth_list_update)
  have nl: "\<not> live_at s arr i" using p dead by (auto simp: live_at_def dest: live_not_dead)
  have la: "live_at s' (arr[i := None]) j \<longleftrightarrow> live_at s arr j" if "j < n" for j
    using that nl by (auto simp: live_at_def at lv')
  have da: "dead_at s' (arr[i := None]) j" if "dead_at s arr j" "j \<noteq> i" "j < n" for j
  proof -
    from that obtain r where r: "arr ! j = Some r" "dead s r" by (auto simp: dead_at_def)
    have "r \<noteq> p"
    proof
      assume "r = p"
      then have "Some p \<in> set A \<union> set C"
      proof (cases "j < i")
        case True
        with r that \<open>r = p\<close> len i have "A ! j = Some p" "j < length A" by (simp_all add: A_def)
        then show ?thesis by (metis UnI1 nth_mem)
      next
        case False
        with r that \<open>r = p\<close> cs have "C ! (j - Suc i) = Some p" "j - Suc i < length C"
          by (simp_all add: C_def)
        then show ?thesis by (metis UnI2 nth_mem)
      qed
      with np show False by (auto simp: in_somes)
    qed
    with r that show ?thesis by (auto simp: dead_at_def at dead_def ot)
  qed
  have "cinv n i q s' (arr[i := None])"
    unfolding cinv_def
  proof (intro conjI allI impI)
    show "distinct (somes (take n (arr[i := None])))" using cs by (simp add: upd eq)
    show "arr[i := None] ! j = None \<or> live_at s' (arr[i := None]) j \<or> dead_at s' (arr[i := None]) j"
      if "j < n" for j using cs that da [of j] by (auto simp: la at)
    show "arr[i := None] ! j = None \<or> live_at s' (arr[i := None]) j" if "j < n" "j < i" for j
      using cs that by (auto simp: la at)
    show "j < q" if "j < n" "i < j" "arr[i := None] ! j = None" for j
      using cs that by (auto simp: at)
    show "\<not> live_at s' (arr[i := None]) j" if "j < n" "i < j" "j < q" for j
      using cs that by (auto simp: la)
    show "\<not> live_at s' (arr[i := None]) k" if "j < n" "j < i" "arr[i := None] ! j = None" "k < n" "j < k" for j k
    proof -
      have "arr ! j = None" using that by (simp add: at)
      with cs that have "\<not> live_at s arr k" by blast
      with that show ?thesis by (simp add: la)
    qed
  qed (use cs in simp)
  moreover have "deads s n arr = p # deads s' n (arr[i := None])"
    unfolding upd eq using nA dd dead by simp
  moreover have "lives s' n (arr[i := None]) = lives s n arr"
    unfolding upd eq lv' using live_not_dead [of s p] dead by auto
  ultimately show ?thesis using s' by blast
qed

lemma coalesce_from_spec:
  assumes "cinv n i q s arr" and "i \<le> n"
  shows "\<exists>s' arr' mb'. coalesce_from n it i q s arr gone mb =
             Some (s', arr', gone + length (deads s n arr), mb') \<and>
           decref_all (map Some (deads s n arr)) s = Some s' \<and> cinv n n n s' arr' \<and>
           lives s' n arr' = lives s n arr \<and> length arr' = length arr"
  using assms
proof (induction "n - i" arbitrary: i q s arr gone mb)
  case 0
  then have i: "i = n" by simp
  have "deads s n arr = []"
    using 0 i by (intro not_dead_somes)
      (force simp: cinv_def dead_at_def live_at_def dest: live_not_dead)
  moreover have "cinv n n n s arr"
    using 0(2) unfolding cinv_def i by (elim conjE, intro conjI; (assumption | simp))
  ultimately show ?case using i by (subst coalesce_from.simps) auto
next
  case (Suc d)
  then have i: "i < n" and d: "d = n - (i + 1)" by simp_all
  note cs = Suc.prems(1) [unfolded cinv_def]
  have IH: "\<exists>s' arr' mb'. coalesce_from n it (i + 1) q1 s1 arr1 gone1 mb1 =
             Some (s', arr', gone1 + length (deads s1 n arr1), mb') \<and>
           decref_all (map Some (deads s1 n arr1)) s1 = Some s' \<and> cinv n n n s' arr' \<and>
           lives s' n arr' = lives s1 n arr1 \<and> length arr' = length arr1"
    if "cinv n (i + 1) q1 s1 arr1" for q1 s1 arr1 gone1 mb1
    using Suc.hyps(1) [OF d that] i by simp
  consider (none) "arr ! i = None" | (live) p where "arr ! i = Some p" "live s p"
    | (dead) p where "arr ! i = Some p" "dead s p"
    using cs i by (auto simp: live_at_def dead_at_def)
  then show ?case
  proof cases
    case none
    from probe_step [OF Suc.prems(1) i none, of it mb] obtain q1 arr1 mb1 where
      pr: "probe_from s n it i (max q (i + 1)) arr mb = Some (q1, arr1, mb1)"
      and c1: "cinv n (i + 1) q1 s arr1" and eq: "lives s n arr1 = lives s n arr"
        "deads s n arr1 = deads s n arr" "length arr1 = length arr" by blast
    have "coalesce_from n it i q s arr gone mb = coalesce_from n it (i + 1) q1 s arr1 gone mb1"
      using i none pr by (subst coalesce_from.simps) simp
    with IH [OF c1, of gone mb1] eq show ?thesis by simp
  next
    case live
    have "coalesce_from n it i q s arr gone mb = coalesce_from n it (i + 1) q s arr gone mb"
      using i live by (subst coalesce_from.simps) (auto simp: live_def)
    moreover have "cinv n (i + 1) q s arr"
      using cs live i by (auto simp: cinv_def live_at_def less_Suc_eq)
    ultimately show ?thesis using IH [of q s arr gone mb] by simp
  next
    case dead
    from dead_step [OF Suc.prems(1) i dead] obtain b s1 where
      dr: "dx_context_decref p s = Some (b, s1)" and c1: "cinv n i q s1 (arr[i := None])"
      and eq1: "lives s1 n (arr[i := None]) = lives s n arr"
        "deads s n arr = p # deads s1 n (arr[i := None])" by blast
    have "arr[i := None] ! i = None" using cs i by simp
    from probe_step [OF c1 i this, of it mb] obtain q2 arr2 mb2 where
      pr: "probe_from s1 n it i (max q (i + 1)) (arr[i := None]) mb = Some (q2, arr2, mb2)"
      and c2: "cinv n (i + 1) q2 s1 arr2" and eq2: "lives s1 n arr2 = lives s1 n (arr[i := None])"
        "deads s1 n arr2 = deads s1 n (arr[i := None])" "length arr2 = length arr" by auto
    have "coalesce_from n it i q s arr gone mb = coalesce_from n it (i + 1) q2 s1 arr2 (gone + 1) mb2"
      using i dead dr pr by (subst coalesce_from.simps) (auto simp: dead_def)
    with IH [OF c2, of "gone + 1" mb2] eq1 eq2 dr show ?thesis by simp
  qed
qed

text \<open>Once the loop is through, the live contexts are in front and the rest is empty.\<close>

lemma cinv_done:
  assumes "cinv n n n s arr"
  shows "take (length (lives s n arr)) arr = map Some (lives s n arr) \<and> length (lives s n arr) \<le> n"
proof -
  have "\<exists>ps. take m arr = map Some ps @ replicate (m - length ps) None \<and> length ps \<le> m \<and>
      (\<forall>p \<in> set ps. live s p)" if "m \<le> n" for m
    using that
  proof (induction m)
    case (Suc m)
    then obtain ps where ps: "take m arr = map Some ps @ replicate (m - length ps) None"
      "length ps \<le> m" "\<forall>p \<in> set ps. live s p" by auto
    have m: "m < length arr" using assms Suc.prems by (simp add: cinv_def)
    then have tk: "take (Suc m) arr = take m arr @ [arr ! m]" by (rule take_Suc_conv_app_nth)
    show ?case
    proof (cases "arr ! m")
      case None
      then have "take (Suc m) arr = map Some ps @ replicate (Suc m - length ps) None"
        using tk ps by (simp add: Suc_diff_le replicate_append_same)
      with ps show ?thesis by (intro exI [of _ ps]) simp
    next
      case (Some p)
      moreover have "arr ! m = None \<or> live_at s arr m" using assms Suc.prems by (simp add: cinv_def)
      ultimately have lp: "live s p" and la: "live_at s arr m" by (auto simp: live_at_def)
      have "length ps = m"
      proof (rule ccontr)
        assume "length ps \<noteq> m"
        with ps(2) have lt: "length ps < m" by simp
        then have "take m arr ! length ps = None" unfolding ps(1) by (simp add: nth_append)
        then have "arr ! length ps = None" using lt by simp
        with assms lt la Suc.prems show False unfolding cinv_def by (meson Suc_le_lessD less_trans)
      qed
      with tk ps Some lp show ?thesis by (intro exI [of _ "ps @ [p]"]) auto
    qed
  qed simp
  from this [of n] obtain ps where ps: "take n arr = map Some ps @ replicate (n - length ps) None"
    "length ps \<le> n" "\<forall>p \<in> set ps. live s p" by auto
  then have "lives s n arr = ps" by (simp add: filter_id_conv)
  moreover have "take (length ps) arr = take (length ps) (take n arr)" using ps(2) by (simp add: min_def)
  then have "take (length ps) arr = map Some ps" unfolding ps(1) by simp
  ultimately show ?thesis using ps(2) by simp
qed

lemma coalesce_spec:
  assumes col: "holds col ps" and "distinct ps" and ps: "\<And>p. p \<in> set ps \<Longrightarrow> live s p \<or> dead s p"
  shows "\<exists>col' s'. dx_collection_coalesce col s = Some (OK, col', s') \<and>
           holds col' (filter (live s) ps) \<and> decref_all (map Some (filter (dead s) ps)) s = Some s' \<and>
           cc_iterator_index col' \<le> cc_iterator_index col"
proof -
  let ?n = "length ps"
  have tk: "take ?n (cc_collection col) = map Some ps" and n: "cc_numentries col = ?n"
    using col by (simp_all add: holds_def)
  have "cinv ?n 0 1 s (cc_collection col)"
    using assms holds_length [OF col] holds_nth [OF col]
    by (auto simp: cinv_def tk live_at_def dead_at_def)
  from coalesce_from_spec [OF this, of "cc_iterator_index col" 0 0] obtain s' arr' mb' where
    run: "coalesce_from ?n (cc_iterator_index col) 0 1 s (cc_collection col) 0 0 =
      Some (s', arr', length (filter (dead s) ps), mb')"
    and dr: "decref_all (map Some (filter (dead s) ps)) s = Some s'" and c': "cinv ?n ?n ?n s' arr'"
    and lv: "lives s' ?n arr' = filter (live s) ps" and len: "length arr' = length (cc_collection col)"
    by (auto simp: tk)
  have "filter (dead s) ps = filter (\<lambda>p. \<not> live s p) ps"
    using ps live_not_dead by (intro filter_cong) auto
  then have "?n - length (filter (dead s) ps) = length (filter (live s) ps)"
    using sum_length_filter_compl [of "live s" ps] by simp
  then show ?thesis
    using run dr cinv_done [OF c'] lv len col
    by (auto simp: dx_collection_coalesce_def n holds_def)
qed

subsection \<open>The iterator\<close>

text \<open>
  The number of live contexts in front of the iterator: the moves of a coalescing across the
  iterator are what adds to it.
\<close>

definition in_front :: "store \<Rightarrow> nat \<Rightarrow> ptr option list \<Rightarrow> nat" where
  "in_front s it arr = card {j. j < it \<and> live_at s arr j}"

lemma in_front_move:
  assumes "slot < probe" and "probe < length arr" and "arr ! slot = None" and "arr ! probe = Some p" and "live s p"
  shows "in_front s it (arr[probe := None, slot := Some p]) =
    in_front s it arr + (if it \<le> probe \<and> slot < it then 1 else 0)"
proof -
  let ?A = "{j. j < it \<and> live_at s arr j}" and ?B = "{j. j < it \<and> live_at s (arr[probe := None, slot := Some p]) j}"
  have fin: "finite ?A" by simp
  have slot: "slot \<notin> ?A" using assms(3) by (simp add: live_at_def)
  have B: "?B = (if slot < it then insert slot (?A - {probe}) else ?A - {probe})"
    using assms by (auto simp: live_at_def nth_list_update split: if_splits)
  show ?thesis
  proof (cases "probe < it")
    case True
    then have "probe \<in> ?A" using assms(4,5) by (simp add: live_at_def)
    then have "Suc (card (?A - {probe})) = card ?A" using fin by (rule card_Suc_Diff1 [rotated])
    moreover have "slot < it" using True assms(1) by simp
    moreover have "card (insert slot (?A - {probe})) = Suc (card (?A - {probe}))" using slot fin by (intro card_insert_disjoint) auto
    ultimately show ?thesis using True unfolding in_front_def B by (simp del: card_Diff_insert card_insert_disjoint)
  next
    case False
    then have "?A - {probe} = ?A" by auto
    then show ?thesis using False slot fin unfolding in_front_def B by simp
  qed
qed

lemma probe_from_moves:
  "probe_from s n it slot probe arr mb = Some (probe', arr', mb') \<Longrightarrow> slot < probe \<Longrightarrow> n \<le> length arr \<Longrightarrow>
   arr ! slot = None \<Longrightarrow> mb' + in_front s it arr = mb + in_front s it arr' \<and> length arr' = length arr"
proof (induction "n - probe" arbitrary: probe)
  case 0
  then show ?case by (simp add: probe_from.simps)
next
  case (Suc d)
  then have n: "probe < n" by simp
  with Suc.prems(1) obtain p c where p: "arr ! probe = Some p" "ctxs s p = Some c"
    by (subst (asm) probe_from.simps) (auto elim!: bind_SomeE)
  show ?case
  proof (cases "destroyed c")
    case True
    with Suc.hyps(2) Suc.prems p n show ?thesis
      by (intro Suc.hyps(1) [of "probe + 1"]) (simp_all add: probe_from.simps [of s n it slot probe] not_le)
  next
    case False
    with Suc.prems p n show ?thesis
      using in_front_move [of slot probe arr p s it]
      by (auto simp: probe_from.simps [of s n it slot probe] live_def)
  qed
qed

lemma in_front_cong: "(\<And>q. live s' q \<longleftrightarrow> live s q) \<Longrightarrow> in_front s' it arr = in_front s it arr"
  by (simp add: in_front_def live_at_def)

lemma in_front_erase:
  assumes "arr ! i = Some p" and "dead s p"
  shows "in_front s it (arr[i := None]) = in_front s it arr"
proof -
  have "live_at s (arr[i := None]) j = live_at s arr j" for j
    using assms live_not_dead [of s p] by (cases "j = i"; cases "i < length arr") (auto simp: live_at_def list_update_beyond)
  then show ?thesis by (simp add: in_front_def)
qed

lemma coalesce_from_moves:
  "coalesce_from n it i q s arr gone mb = Some (s', arr', gone', mb') \<Longrightarrow> n \<le> length arr \<Longrightarrow>
   mb' + in_front s it arr = mb + in_front s' it arr'"
proof (induction "n - i" arbitrary: i q s arr gone mb)
  case 0
  then show ?case by (simp add: coalesce_from.simps)
next
  case (Suc d)
  then have d: "d = n - (i + 1)" and i: "i < n" by simp_all
  show ?case
  proof (cases "arr ! i")
    case None
    with Suc.prems i obtain q1 arr1 mb1 where
      pr: "probe_from s n it i (max q (i + 1)) arr mb = Some (q1, arr1, mb1)"
      and rest: "coalesce_from n it (i + 1) q1 s arr1 gone mb1 = Some (s', arr', gone', mb')"
      by (subst (asm) coalesce_from.simps) (auto elim!: bind_SomeE)
    have *: "mb1 + in_front s it arr = mb + in_front s it arr1" "length arr1 = length arr"
      using probe_from_moves [OF pr _ Suc.prems(2) None] by simp_all
    with Suc.hyps(1) [OF d rest] Suc.prems(2) show ?thesis by simp
  next
    case (Some p)
    with Suc.prems i obtain c where c: "ctxs s p = Some c"
      by (subst (asm) coalesce_from.simps) (auto elim!: bind_SomeE)
    show ?thesis
    proof (cases "destroyed c")
      case False
      then have "coalesce_from n it (i + 1) q s arr gone mb = Some (s', arr', gone', mb')"
        using Suc.prems(1) i Some c by (subst (asm) coalesce_from.simps) simp
      from Suc.hyps(1) [OF d this Suc.prems(2)] show ?thesis .
    next
      case True
      then have dead: "dead s p" using c by (simp add: dead_def)
      from Suc.prems(1) i Some c True obtain b s1 q1 arr1 mb1 where
        dr: "dx_context_decref p s = Some (b, s1)"
        and pr: "probe_from s1 n it i (max q (i + 1)) (arr[i := None]) mb = Some (q1, arr1, mb1)"
        and rest: "coalesce_from n it (i + 1) q1 s1 arr1 (gone + 1) mb1 = Some (s', arr', gone', mb')"
        by (subst (asm) coalesce_from.simps) (auto elim!: bind_SomeE)
      have live: "live s1 r \<longleftrightarrow> live s r" for r using decref_dead [OF dead] dr by auto
      have "mb1 + in_front s1 it (arr[i := None]) = mb + in_front s1 it arr1" "length arr1 = length arr"
        using probe_from_moves [OF pr] Suc.prems(2) i by simp_all
      moreover have "in_front s1 it (arr[i := None]) = in_front s it arr"
        using in_front_erase [OF Some dead] in_front_cong [OF live] by simp
      ultimately show ?thesis using Suc.hyps(1) [OF d rest] Suc.prems(2) by simp
    qed
  qed
qed

lemma in_front_list:
  assumes "take (length ps) arr = map Some ps" and "it \<le> length ps"
  shows "in_front s it arr = length (filter (live s) (take it ps))"
proof -
  have at: "arr ! j = Some (ps ! j)" if "j < length ps" for j
    using assms(1) that by (metis nth_map nth_take)
  have "in_front s it arr = card {j. j < length (take it ps) \<and> live s (take it ps ! j)}"
    unfolding in_front_def using assms(2) at by (intro arg_cong [where f = card]) (auto simp: live_at_def)
  then show ?thesis by (simp add: length_filter_conv_card)
qed

lemma in_front_done:
  assumes "cinv n n n s arr" and "it \<le> n"
  shows "in_front s it arr = min it (length (lives s n arr))"
proof -
  let ?L = "length (lives s n arr)"
  have front: "take ?L arr = map Some (lives s n arr)" "?L \<le> n" using cinv_done [OF assms(1)] by simp_all
  have live: "live_at s arr j" if "j < ?L" for j
  proof -
    have "arr ! j = Some (lives s n arr ! j)" using front(1) that by (metis nth_map nth_take)
    moreover have "lives s n arr ! j \<in> set (lives s n arr)" using that by (rule nth_mem)
    ultimately show ?thesis by (auto simp: live_at_def)
  qed
  have "take n arr = take ?L arr @ drop ?L (take n arr)" using front(2)
    by (metis append_take_drop_id min.absorb1 take_take)
  then have "somes (take n arr) = lives s n arr @ somes (drop ?L (take n arr))" by (metis front(1) somes_simps(4,5))
  moreover have "filter (live s) (lives s n arr) = lives s n arr" by simp
  ultimately have "lives s n arr = lives s n arr @ filter (live s) (somes (drop ?L (take n arr)))" by (metis filter_append)
  then have none: "filter (live s) (somes (drop ?L (take n arr))) = []" by simp
  have rest: "\<not> live_at s arr j" if "?L \<le> j" "j < n" for j
  proof
    assume "live_at s arr j"
    then obtain p where p: "arr ! j = Some p" "live s p" by (auto simp: live_at_def)
    have len: "n \<le> length arr" using assms(1) by (simp add: cinv_def)
    define L where "L = ?L"
    have "drop L (take n arr) ! (j - L) = Some p" "j - L < length (drop L (take n arr))"
      using that [folded L_def] p len by simp_all
    note this [unfolded L_def]
    then have "p \<in> set (somes (drop ?L (take n arr)))" unfolding in_somes by (metis nth_mem)
    moreover have "\<not> live s x" if "x \<in> set (somes (drop ?L (take n arr)))" for x
      using none that unfolding filter_empty_conv by blast
    ultimately show False using p(2) by blast
  qed
  have "j < it \<and> live_at s arr j \<longleftrightarrow> j < min it ?L" for j
  proof (cases "j < ?L")
    case True
    then show ?thesis using live by simp
  next
    case False
    then show ?thesis using rest [of j] assms(2) by (meson leI less_le_trans min_less_iff_conj)
  qed
  then have "{j. j < it \<and> live_at s arr j} = {..<min it ?L}" by blast
  then show ?thesis by (simp add: in_front_def)
qed

text \<open>
  Where a coalescing leaves the iterator: behind the live contexts it had passed, and as many too
  far as it exceeds the number of live contexts.
\<close>

lemma coalesce_iterator:
  assumes col: "holds col ps" and "distinct ps" and ps: "\<And>p. p \<in> set ps \<Longrightarrow> live s p \<or> dead s p"
    and it: "cc_iterator_index col \<le> length ps" and run: "dx_collection_coalesce col s = Some (st, col', s')"
  shows "cc_iterator_index col' =
    length (filter (live s) (take (cc_iterator_index col) ps)) + (cc_iterator_index col - length (filter (live s) ps))"
proof -
  let ?n = "length ps" and ?it = "cc_iterator_index col"
  have tk: "take ?n (cc_collection col) = map Some ps" and n: "cc_numentries col = ?n"
    using col by (simp_all add: holds_def)
  have "cinv ?n 0 1 s (cc_collection col)"
    using assms(1-3) holds_length [OF col] holds_nth [OF col]
    by (auto simp: cinv_def tk live_at_def dead_at_def)
  from coalesce_from_spec [OF this, of ?it 0 0] obtain s1 arr' mb' where
    cf: "coalesce_from ?n ?it 0 1 s (cc_collection col) 0 0 = Some (s1, arr', length (filter (dead s) ps), mb')"
    and c': "cinv ?n ?n ?n s1 arr'" and lv: "lives s1 ?n arr' = filter (live s) ps" by (auto simp: tk)
  have "mb' + in_front s ?it (cc_collection col) = in_front s1 ?it arr'"
    using coalesce_from_moves [OF cf holds_length [OF col]] by simp
  then have mb: "mb' + length (filter (live s) (take ?it ps)) = min ?it (length (filter (live s) ps))"
    using in_front_list [OF tk it] in_front_done [OF c' it] lv by simp
  have "length (filter (live s) (take ?it ps)) \<le> ?it" by (metis length_filter_le length_take le_trans min.cobounded2)
  moreover have "cc_iterator_index col' = ?it - mb'"
    using run cf by (auto simp: dx_collection_coalesce_def n)
  ultimately show ?thesis using mb by linarith
qed

subsection \<open>How the heap evolves\<close>

lemma evolves_coalesce_from:
  "coalesce_from n it i q s arr gone mb = Some (s', r) \<Longrightarrow> evolves s0 s \<Longrightarrow> evolves s0 s'"
proof (induction "n - i" arbitrary: i q s arr gone mb)
  case 0
  then show ?case by (simp add: coalesce_from.simps)
next
  case (Suc d)
  then have d: "d = n - (i + 1)" by simp
  from Suc.prems(1) show ?case
    by (subst (asm) coalesce_from.simps)
      (insert Suc.prems(2), elim do_elims Pair_inject; ((hypsubst)+)?; (assumption | erule evolving Suc.hyps(1) [OF d])+)
qed

lemma evolves_coalesce [evolving]:
  "dx_collection_coalesce col s = Some (st, col', s') \<Longrightarrow> evolves s0 s \<Longrightarrow> evolves s0 s'"
  unfolding dx_collection_coalesce_def by (elim do_elims Pair_inject; ((hypsubst)+)?; (assumption | erule evolves_coalesce_from)+)

lemma evolves_collection_size [evolving]:
  "dc_collection_size col s = Some (n, col', s') \<Longrightarrow> evolves s0 s \<Longrightarrow> evolves s0 s'"
  unfolding dc_collection_size_def by (elim do_elims Pair_inject; ((hypsubst)+)?; (assumption | erule evolving)+)

lemma evolves_next_noncoalesce [evolving]:
  "dx_collection_next_noncoalesce col s = Some (st, r, col', s') \<Longrightarrow> evolves s0 s \<Longrightarrow> evolves s0 s'"
  unfolding dx_collection_next_noncoalesce_def by (elim do_elims Pair_inject; ((hypsubst)+)?; (assumption | erule evolving)+)

lemma evolves_next [evolving]:
  "dc_collection_next col s = Some (st, r, col', s') \<Longrightarrow> evolves s0 s \<Longrightarrow> evolves s0 s'"
  unfolding dc_collection_next_def by (elim do_elims Pair_inject; ((hypsubst)+)?; (assumption | erule evolving)+)

lemma evolves_push [evolving]:
  "dc_collection_push_context col p s = Some (st, col', s') \<Longrightarrow> evolves s0 s \<Longrightarrow> evolves s0 s'"
  unfolding dc_collection_push_context_def by (elim do_elims Pair_inject; ((hypsubst)+)?; (assumption | erule evolving)+)

lemma evolves_decref_all [evolving]:
  "decref_all ps s = Some s' \<Longrightarrow> evolves s0 s \<Longrightarrow> evolves s0 s'"
proof (induction ps arbitrary: s)
  case (Cons e ps)
  show ?case
  proof (cases e)
    case None
    with Cons show ?thesis by simp
  next
    case (Some p)
    show ?thesis
      by (insert Cons.prems [unfolded Some decref_all.simps], elim do_elims Pair_inject; ((hypsubst)+)?; (assumption | erule evolving Cons.IH)+)
  qed
qed simp

lemma evolves_finished [evolving]:
  "dc_collection_finished col s = Some (st, s') \<Longrightarrow> evolves s0 s \<Longrightarrow> evolves s0 s'"
  unfolding dc_collection_finished_def by (elim do_elims Pair_inject; ((hypsubst)+)?; (assumption | erule evolving)+)

end
