(* ===== verification/Elements.thy ===== *)
theory Elements
  imports Collection
begin

text \<open>
  The element storages of the contexts (the operations of src/lib/element_storage.c with the
  reference counts they keep) and the operations of src/lib/context.c that look elements up and
  read or write names and versions. A storage is addressed by the context that owns it.

  The lemmas show that a lookup returns a collection of exactly the elements of that name, in
  insertion order, each with one more reference, and that giving the collection back restores
  every reference count.
\<close>

section \<open>The storage of a context\<close>

definition get_elements :: "store \<Rightarrow> ptr \<Rightarrow> element_storage option option" where
  "get_elements s p = do {
     c \<leftarrow> ctxs s p;
     x \<leftarrow> cx_obj c;
     case x of OConfig g \<Rightarrow> Some (cf_elements g) | OMold m \<Rightarrow> Some (mo_elements m)
     | OSection n \<Rightarrow> Some (se_elements n) | _ \<Rightarrow> None }"

definition set_elements :: "ptr \<Rightarrow> element_storage option \<Rightarrow> store \<Rightarrow> store option" where
  "set_elements p st s = do {
     c \<leftarrow> ctxs s p;
     x \<leftarrow> cx_obj c;
     case x of OConfig g \<Rightarrow> set_obj p (OConfig (g\<lparr>cf_elements := st\<rparr>)) s
     | OMold m \<Rightarrow> set_obj p (OMold (m\<lparr>mo_elements := st\<rparr>)) s
     | OSection n \<Rightarrow> set_obj p (OSection (n\<lparr>se_elements := st\<rparr>)) s
     | _ \<Rightarrow> None }"

definition dx_element_storage_numentries :: "element_storage option \<Rightarrow> int" where
  "dx_element_storage_numentries storage =
     (case storage of None \<Rightarrow> -1 | Some st \<Rightarrow> int (storage_numentries st))"

definition dx_element_storage_add :: "ptr \<Rightarrow> string option \<Rightarrow> ptr \<Rightarrow> store \<Rightarrow> (status \<times> store) option" where
  "dx_element_storage_add owner name context s = do {
     storage \<leftarrow> get_elements s owner;
     case storage of None \<Rightarrow> Some (INVALID_ARGUMENT, s)
     | Some st \<Rightarrow> do {
         (status, st) \<leftarrow> storage_add st name (Some context);
         s \<leftarrow> set_elements owner (Some st) s;
         if status \<noteq> OK then Some (status, s)
         else do { s \<leftarrow> dx_context_incref context s; Some (OK, s) } } }"

definition dx_element_storage_remove :: "ptr \<Rightarrow> string \<Rightarrow> ptr \<Rightarrow> store \<Rightarrow> (status \<times> store) option" where
  "dx_element_storage_remove owner name context s = do {
     storage \<leftarrow> get_elements s owner;
     st \<leftarrow> storage;
     (found, st) \<leftarrow> storage_remove st name context;
     s \<leftarrow> set_elements owner (Some st) s;
     if found then do { (_, s) \<leftarrow> dx_context_decref context s; Some (OK, s) }
     else Some (OK, s) }"

fun push_contexts :: "disir_collection \<Rightarrow> ptr list \<Rightarrow> store \<Rightarrow> (status \<times> disir_collection \<times> store) option" where
  "push_contexts col [] s = Some (OK, col, s)"
| "push_contexts col (p # ps) s = do {
     (status, col, s) \<leftarrow> dc_collection_push_context col (Some p) s;
     if status \<noteq> OK then Some (status, col, s) else push_contexts col ps s }"

text \<open>The collection of what an iterator returns; on an error it is given back.\<close>

definition collect :: "ptr list \<Rightarrow> store \<Rightarrow> (status \<times> disir_collection option \<times> store) option" where
  "collect ps s = do {
     (status, col, s) \<leftarrow> push_contexts dc_collection_create ps s;
     if status \<noteq> OK then do { (_, s) \<leftarrow> dc_collection_finished (Some col) s; Some (status, None, s) }
     else Some (OK, Some col, s) }"

definition dx_element_storage_get :: "element_storage option \<Rightarrow> string option \<Rightarrow> store \<Rightarrow>
    (status \<times> disir_collection option \<times> store) option" where
  "dx_element_storage_get storage name s = do {
     st \<leftarrow> storage;
     n \<leftarrow> name;
     case storage_get st n of None \<Rightarrow> Some (NOT_EXIST, None, s) | Some ps \<Rightarrow> collect ps s }"

definition dx_element_storage_get_all :: "element_storage option \<Rightarrow> store \<Rightarrow>
    (status \<times> disir_collection option \<times> store) option" where
  "dx_element_storage_get_all storage s =
     (case storage of None \<Rightarrow> Some (INVALID_ARGUMENT, None, s)
      | Some st \<Rightarrow> do { ps \<leftarrow> storage_get_all st; collect ps s })"

definition dx_element_storage_get_first :: "element_storage option \<Rightarrow> string option \<Rightarrow>
    (status \<times> ptr option) option" where
  "dx_element_storage_get_first storage name = do {
     st \<leftarrow> storage;
     n \<leftarrow> name;
     Some (case storage_get_first st n of None \<Rightarrow> (NOT_EXIST, None) | Some p \<Rightarrow> (OK, Some p)) }"

section \<open>Names\<close>

definition get_name_value :: "store \<Rightarrow> ptr \<Rightarrow> disir_value option" where
  "get_name_value s p = do {
     t \<leftarrow> dc_context_type s (Some p);
     if t = CT_KEYVAL then do { k \<leftarrow> get_keyval s p; Some (kv_name k) }
     else if t = CT_SECTION then do { n \<leftarrow> get_section s p; Some (se_name n) }
     else None }"

text \<open>A \<^verbatim>\<open>dv_string\<close> read as a C string.\<close>

definition name_cstr :: "disir_value \<Rightarrow> string option option" where
  "name_cstr v = map_option (map_option (\<lambda>b. cstr (snd b))) (as_string (dv_data v))"

text \<open>
  The name and its size; the string pointer of the value, NULL when none was set. (The
  \<open>name\<close> argument of every caller is not NULL.)
\<close>

definition dc_get_name :: "ptr option \<Rightarrow> store \<Rightarrow> (status \<times> (string option \<times> int) option \<times> store) option" where
  "dc_get_name context s = do {
     (status, s) \<leftarrow> dx_context_sp_full_check context s;
     if status \<noteq> OK then Some (status, None, s)
     else do {
       p \<leftarrow> context;
       status \<leftarrow> dx_context_type_check p [CT_KEYVAL, CT_SECTION] s;
       if status \<noteq> OK then Some (status, None, s)
       else do {
         v \<leftarrow> get_name_value s p;
         n \<leftarrow> name_cstr v;
         Some (OK, Some (n, dv_size v), s) } } }"

definition dx_context_name :: "ptr option \<Rightarrow> store \<Rightarrow> (string option \<times> store) option" where
  "dx_context_name context s =
     (case context of None \<Rightarrow> Some (None, s)
      | Some p \<Rightarrow> do {
          (status, r, s) \<leftarrow> dc_get_name context s;
          case r of Some (n, _) \<Rightarrow> Some (n, s)
          | None \<Rightarrow> do { t \<leftarrow> dc_context_type_string s context; Some (Some t, s) } })"

section \<open>Looking elements up\<close>

definition dc_get_elements :: "ptr option \<Rightarrow> store \<Rightarrow> (status \<times> disir_collection option \<times> store) option" where
  "dc_get_elements context s = do {
     (status, s) \<leftarrow> dx_context_sp_full_check context s;
     if status \<noteq> OK then Some (status, None, s)
     else do {
       p \<leftarrow> context;
       status \<leftarrow> dx_context_type_check p [CT_CONFIG, CT_MOLD, CT_SECTION] s;
       if status \<noteq> OK then Some (status, None, s)
       else do { storage \<leftarrow> get_elements s p; dx_element_storage_get_all storage s } } }"

definition dc_find_elements :: "ptr option \<Rightarrow> string option \<Rightarrow> store \<Rightarrow>
    (status \<times> disir_collection option \<times> store) option" where
  "dc_find_elements context name s = do {
     (status, s) \<leftarrow> dx_context_sp_full_check context s;
     if status \<noteq> OK then Some (status, None, s)
     else do {
       p \<leftarrow> context;
       status \<leftarrow> dx_context_type_check p [CT_SECTION, CT_MOLD, CT_CONFIG] s;
       if status \<noteq> OK then Some (status, None, s)
       else do { storage \<leftarrow> get_elements s p; dx_element_storage_get storage name s } } }"

section \<open>Reference counts as an algebra\<close>

text \<open>\<open>add_refs d s\<close> adds \<open>d p\<close> to the reference count of every context \<open>p\<close> in use.\<close>

definition add_refs :: "(ptr \<Rightarrow> int) \<Rightarrow> store \<Rightarrow> store" where
  "add_refs d s = s\<lparr>ctxs := (\<lambda>p. map_option (\<lambda>c. c\<lparr>cx_refcount := cx_refcount c + d p\<rparr>) (ctxs s p))\<rparr>"

definition refs_of :: "ptr list \<Rightarrow> ptr \<Rightarrow> int" where
  "refs_of ps p = int (count_list ps p)"

lemma refs_of_simps [simp]:
  "refs_of [] = (\<lambda>_. 0)" "refs_of (p # ps) = (\<lambda>q. refs_of ps q + (if q = p then 1 else 0))"
  by (auto simp: refs_of_def fun_eq_iff)

lemma refs_of_nonneg: "0 \<le> refs_of ps p"
  by (simp add: refs_of_def)

lemma add_refs_0 [simp]: "add_refs (\<lambda>_. 0) s = s"
proof -
  have "(\<lambda>p. map_option (\<lambda>c. c) (ctxs s p)) = ctxs s" by (simp add: option.map_ident)
  then show ?thesis by (simp add: add_refs_def)
qed

lemma add_refs_add [simp]: "add_refs d (add_refs e s) = add_refs (\<lambda>p. e p + d p) s"
  by (simp add: add_refs_def option.map_comp comp_def add.assoc)

lemma ctxs_add_refs [simp]:
  "ctxs (add_refs d s) p = map_option (\<lambda>c. c\<lparr>cx_refcount := cx_refcount c + d p\<rparr>) (ctxs s p)"
  by (simp add: add_refs_def)

lemma next_ptr_add_refs [simp]: "next_ptr (add_refs d s) = next_ptr s"
  by (simp add: add_refs_def)

lemma live_add_refs [simp]: "live (add_refs d s) p \<longleftrightarrow> live s p"
  by (auto simp: live_def)

lemma incref_add_refs:
  "ctxs s p = Some c \<Longrightarrow> dx_context_incref p s = Some (add_refs (\<lambda>q. if q = p then 1 else 0) s)"
  by (auto simp: dx_context_incref_def add_refs_def fun_eq_iff option.map_ident intro!: store.equality)

lemma live_incref_add: "live s p \<Longrightarrow> dx_context_incref p s = Some (add_refs (\<lambda>q. if q = p then 1 else 0) s)"
  by (auto simp: live_def incref_add_refs)

lemma decref_add_refs:
  "ctxs s p = Some c \<Longrightarrow> cx_refcount c \<noteq> 1 \<Longrightarrow>
   dx_context_decref p s = Some (False, add_refs (\<lambda>q. if q = p then -1 else 0) s)"
  by (auto simp: dx_context_decref_def add_refs_def fun_eq_iff option.map_ident intro!: store.equality)

text \<open>\<open>enough s ps\<close>: every context of \<open>ps\<close> has more references than \<open>ps\<close> accounts for.\<close>

definition enough :: "store \<Rightarrow> ptr list \<Rightarrow> bool" where
  "enough s ps \<longleftrightarrow> (\<forall>p \<in> set ps. \<exists>c. ctxs s p = Some c \<and> refs_of ps p < cx_refcount c)"

lemma decref_all_add_refs:
  "enough s ps \<Longrightarrow> decref_all (map Some ps) s = Some (add_refs (\<lambda>p. - refs_of ps p) s)"
proof (induction ps arbitrary: s)
  case (Cons p ps)
  then obtain c where c: "ctxs s p = Some c" "refs_of (p # ps) p < cx_refcount c"
    by (auto simp: enough_def)
  then have "cx_refcount c \<noteq> 1" using refs_of_nonneg [of ps p] by simp
  with c have d: "dx_context_decref p s = Some (False, add_refs (\<lambda>q. if q = p then -1 else 0) s)"
    by (intro decref_add_refs) auto
  have "enough (add_refs (\<lambda>q. if q = p then -1 else 0) s) ps"
    using Cons.prems by (fastforce simp: enough_def)
  from Cons.IH [OF this] d show ?case
    by (simp add: if_distrib cong: if_cong) (rule arg_cong [where f = "\<lambda>d. add_refs d s"], auto)
qed simp

lemma push_contexts_live:
  assumes "holds col qs" and "\<And>q. q \<in> set qs \<union> set ps \<Longrightarrow> live s q"
  shows "\<exists>col'. push_contexts col ps s = Some (OK, col', add_refs (refs_of ps) s) \<and>
           holds col' (qs @ ps) \<and> cc_iterator_index col' = cc_iterator_index col"
  using assms
proof (induction ps arbitrary: col qs s)
  case Nil
  then show ?case by simp
next
  case (Cons p ps)
  have "live s p" using Cons.prems by simp
  let ?s1 = "add_refs (\<lambda>q. if q = p then 1 else 0) s"
  from push_live [OF Cons.prems(1) _ \<open>live s p\<close>] Cons.prems(2) obtain col1 where
    "dc_collection_push_context col (Some p) s = Some (OK, col1, ?s1)"
    "holds col1 (qs @ [p])" "cc_iterator_index col1 = cc_iterator_index col"
    using live_incref_add [OF \<open>live s p\<close>] by fastforce
  with Cons.IH [of col1 "qs @ [p]" ?s1] Cons.prems(2) show ?case
    by (auto simp: add.commute)
qed

lemma collect_live:
  assumes "\<And>p. p \<in> set ps \<Longrightarrow> live s p"
  shows "\<exists>col. collect ps s = Some (OK, Some col, add_refs (refs_of ps) s) \<and> holds col ps \<and>
           cc_iterator_index col = 0"
  using push_contexts_live [OF holds_create, of ps s] assms
  by (auto simp: collect_def dc_collection_create_def)

lemma finished_restores:
  assumes "store_ok s" and "holds col ps" and "\<And>p. p \<in> set ps \<Longrightarrow> live s p"
  shows "dc_collection_finished (Some col) (add_refs (refs_of ps) s) = Some (OK, s)"
proof -
  have "enough (add_refs (refs_of ps) s) ps"
    using assms by (fastforce simp: enough_def live_def store_ok_def)
  from decref_all_add_refs [OF this] assms(2) show ?thesis
    by (simp add: dc_collection_finished_def holds_def)
qed

section \<open>What a lookup returns\<close>

definition elements_rel :: "store \<Rightarrow> ptr \<Rightarrow> (string \<times> ptr) list \<Rightarrow> bool" where
  "elements_rel s p xs \<longleftrightarrow> (\<exists>st. get_elements s p = Some (Some st) \<and> es_rel st xs)"

text \<open>A context that holds elements, in a state in which the operations accept it.\<close>

definition parent_ok :: "store \<Rightarrow> ptr \<Rightarrow> (string \<times> ptr) list \<Rightarrow> bool" where
  "parent_ok s p xs \<longleftrightarrow> (\<exists>c. ctxs s p = Some c \<and> \<not> destroyed c \<and>
       cx_type c \<in> {CT_CONFIG, CT_MOLD, CT_SECTION}) \<and>
     elements_rel s p xs \<and> (\<forall>q \<in> snd ` set xs. live s q)"

lemma check_live: "live s p \<Longrightarrow> ctxs s p = Some c \<Longrightarrow> cx_type c \<noteq> CT_UNKNOWN \<Longrightarrow> cx_type c \<noteq> CT_INVALID \<Longrightarrow>
   dx_context_sp_full_check (Some p) s = Some (OK, s)"
  by (auto simp: dx_context_sp_full_check_def live_def dx_context_type_sanify_def)

lemma parent_ok_checks:
  assumes "parent_ok s p xs"
  shows "dx_context_sp_full_check (Some p) s = Some (OK, s)"
    and "dx_context_type_check p [CT_SECTION, CT_MOLD, CT_CONFIG] s = Some OK"
    and "dx_context_type_check p [CT_CONFIG, CT_MOLD, CT_SECTION] s = Some OK"
  using assms
  by (auto simp: parent_ok_def dx_context_sp_full_check_def dx_context_type_check_def
      dx_context_type_sanify_def)

lemma snd_entries_of: "q \<in> set (entries_of n xs) \<Longrightarrow> q \<in> snd ` set xs"
  by (force simp: set_entries_of)

lemma find_elements_spec:
  assumes p: "parent_ok s p xs"
  shows "if entries_of n xs = [] then dc_find_elements (Some p) (Some n) s = Some (NOT_EXIST, None, s)
         else \<exists>col. dc_find_elements (Some p) (Some n) s =
                Some (OK, Some col, add_refs (refs_of (entries_of n xs)) s) \<and>
              holds col (entries_of n xs) \<and> cc_iterator_index col = 0"
proof -
  from p obtain st where st: "get_elements s p = Some (Some st)" "es_rel st xs"
    by (auto simp: parent_ok_def elements_rel_def)
  have run: "dc_find_elements (Some p) (Some n) s = dx_element_storage_get (Some st) (Some n) s"
    using parent_ok_checks [OF p] st by (simp add: dc_find_elements_def)
  have "live s q" if "q \<in> set (entries_of n xs)" for q
    using p snd_entries_of [OF that] by (auto simp: parent_ok_def)
  from collect_live [of "entries_of n xs" s, OF this] show ?thesis
    unfolding run by (auto simp: dx_element_storage_get_def es.get [OF st(2)])
qed

lemma get_elements_spec:
  assumes p: "parent_ok s p xs"
  shows "\<exists>col. dc_get_elements (Some p) s = Some (OK, Some col, add_refs (refs_of (map snd xs)) s) \<and>
           holds col (map snd xs) \<and> cc_iterator_index col = 0"
proof -
  from p obtain st where st: "get_elements s p = Some (Some st)" "es_rel st xs"
    by (auto simp: parent_ok_def elements_rel_def)
  have run: "dc_get_elements (Some p) s = dx_element_storage_get_all (Some st) s"
    using parent_ok_checks [OF p] st by (simp add: dc_get_elements_def)
  have "live s q" if "q \<in> set (map snd xs)" for q
    using p that by (auto simp: parent_ok_def)
  from collect_live [of "map snd xs" s, OF this] show ?thesis
    unfolding run by (auto simp: dx_element_storage_get_all_def es.get_all [OF st(2)])
qed

section \<open>How the heap evolves\<close>

lemma evolves_set_elements [evolving]:
  "set_elements p st s = Some s' \<Longrightarrow> evolves s0 s \<Longrightarrow> evolves s0 s'"
  unfolding set_elements_def by (elim do_elims object_SomeE; (assumption | erule evolving)+)

lemma evolves_push_contexts [evolving]:
  "push_contexts col ps s = Some (st, col', s') \<Longrightarrow> evolves s0 s \<Longrightarrow> evolves s0 s'"
proof (induction ps arbitrary: col s)
  case (Cons p ps)
  show ?case
    by (insert Cons.prems [unfolded push_contexts.simps], elim do_elims Pair_inject; ((hypsubst)+)?; (assumption | erule evolving Cons.IH)+)
qed simp

lemma evolves_storage_add [evolving]:
  "dx_element_storage_add q n p s = Some (st, s') \<Longrightarrow> evolves s0 s \<Longrightarrow> evolves s0 s'"
  unfolding dx_element_storage_add_def by (elim do_elims Pair_inject; ((hypsubst)+)?; (assumption | erule evolving)+)

lemma evolves_storage_remove [evolving]:
  "dx_element_storage_remove q n p s = Some (st, s') \<Longrightarrow> evolves s0 s \<Longrightarrow> evolves s0 s'"
  unfolding dx_element_storage_remove_def by (elim do_elims Pair_inject; ((hypsubst)+)?; (assumption | erule evolving)+)

lemma evolves_collect [evolving]:
  "collect ps s = Some (st, col, s') \<Longrightarrow> evolves s0 s \<Longrightarrow> evolves s0 s'"
  unfolding collect_def by (elim do_elims Pair_inject; ((hypsubst)+)?; (assumption | erule evolving)+)

lemma evolves_storage_get [evolving]:
  "dx_element_storage_get storage n s = Some (st, col, s') \<Longrightarrow> evolves s0 s \<Longrightarrow> evolves s0 s'"
  unfolding dx_element_storage_get_def by (elim do_elims Pair_inject; ((hypsubst)+)?; (assumption | erule evolving)+)

lemma evolves_storage_get_all [evolving]:
  "dx_element_storage_get_all storage s = Some (st, col, s') \<Longrightarrow> evolves s0 s \<Longrightarrow> evolves s0 s'"
  unfolding dx_element_storage_get_all_def by (elim do_elims Pair_inject; ((hypsubst)+)?; (assumption | erule evolving)+)

lemma evolves_get_name [evolving]:
  "dc_get_name p s = Some (st, r, s') \<Longrightarrow> evolves s0 s \<Longrightarrow> evolves s0 s'"
  unfolding dc_get_name_def by (elim do_elims Pair_inject; ((hypsubst)+)?; (assumption | erule evolving)+)

lemma evolves_get_elements [evolving]:
  "dc_get_elements p s = Some (st, r, s') \<Longrightarrow> evolves s0 s \<Longrightarrow> evolves s0 s'"
  unfolding dc_get_elements_def by (elim do_elims Pair_inject; ((hypsubst)+)?; (assumption | erule evolving)+)

lemma evolves_find_elements [evolving]:
  "dc_find_elements p n s = Some (st, r, s') \<Longrightarrow> evolves s0 s \<Longrightarrow> evolves s0 s'"
  unfolding dc_find_elements_def by (elim do_elims Pair_inject; ((hypsubst)+)?; (assumption | erule evolving)+)

end
