(* ===== verification/Destroy.thy ===== *)
theory Destroy
  imports Elements
begin

text \<open>
  The end of a context's life: \<^verbatim>\<open>dc_destroy\<close> and \<^verbatim>\<open>dc_putcontext\<close> of
  src/lib/context.c, the \<^verbatim>\<open>dx_*_destroy\<close> of every object, \<^verbatim>\<open>disir_mold_finished\<close> and
  the destruction of an element storage. They call each other along the tree of contexts; each
  is written over the destruction it calls, and the recursion is tied by fuel: every nested
  call is on another context, so one unit per address ever allocated is enough for a tree.

  A freed object is a missing \<open>cx_obj\<close>, and what the code reads through a NULL or freed object
  is a fault. The queue entries are popped in order; a popped entry is read for its context.
\<close>

type_synonym destroyer = "ptr option \<Rightarrow> store \<Rightarrow> (status \<times> store) option"

section \<open>Leaving the parent\<close>

definition context_remove_from_parent :: "ptr \<Rightarrow> store \<Rightarrow> store option" where
  "context_remove_from_parent p s = do {
     c \<leftarrow> ctxs s p;
     if \<not> in_parent c then Some s
     else do {
       pt \<leftarrow> dc_context_type s (cx_parent c);
       storage \<leftarrow> (if pt \<in> {CT_CONFIG, CT_SECTION, CT_MOLD}
                  then do { q \<leftarrow> cx_parent c; get_elements s q } else Some None);
       t \<leftarrow> dc_context_type s (Some p);
       name \<leftarrow> (if t \<in> {CT_KEYVAL, CT_SECTION}
               then do { v \<leftarrow> get_name_value s p; name_cstr v } else Some None);
       case (storage, name) of
         (Some _, Some n) \<Rightarrow> do {
           q \<leftarrow> cx_parent c;
           (_, s) \<leftarrow> dx_element_storage_remove q n p s;
           Some s }
       | _ \<Rightarrow> Some s } }"

section \<open>The queues\<close>

text \<open>
  The documentation, default and restriction queue of a context, as the object holds it. The
  selector says which queue of a keyval or section is meant.
\<close>

datatype queue = DOC_QUEUE | DEFAULT_QUEUE | RESTRICTION_QUEUE

definition get_queue :: "queue \<Rightarrow> store \<Rightarrow> ptr \<Rightarrow> ptr list option" where
  "get_queue q s p = do {
     c \<leftarrow> ctxs s p;
     x \<leftarrow> cx_obj c;
     case (q, x) of
       (DOC_QUEUE, OMold m) \<Rightarrow> Some (mo_documentation_queue m)
     | (DOC_QUEUE, OSection n) \<Rightarrow> Some (se_documentation_queue n)
     | (DOC_QUEUE, OKeyval k) \<Rightarrow> Some (kv_documentation_queue k)
     | (DOC_QUEUE, ORestriction r) \<Rightarrow> Some (re_documentation_queue r)
     | (DEFAULT_QUEUE, OKeyval k) \<Rightarrow> Some (kv_default_queue k)
     | (RESTRICTION_QUEUE, OSection n) \<Rightarrow> Some (se_restrictions_queue n)
     | (RESTRICTION_QUEUE, OKeyval k) \<Rightarrow> Some (kv_restrictions_queue k)
     | _ \<Rightarrow> None }"

definition set_queue :: "queue \<Rightarrow> ptr list \<Rightarrow> ptr \<Rightarrow> store \<Rightarrow> store option" where
  "set_queue q ps p s = do {
     c \<leftarrow> ctxs s p;
     x \<leftarrow> cx_obj c;
     case (q, x) of
       (DOC_QUEUE, OMold m) \<Rightarrow> set_obj p (OMold (m\<lparr>mo_documentation_queue := ps\<rparr>)) s
     | (DOC_QUEUE, OSection n) \<Rightarrow> set_obj p (OSection (n\<lparr>se_documentation_queue := ps\<rparr>)) s
     | (DOC_QUEUE, OKeyval k) \<Rightarrow> set_obj p (OKeyval (k\<lparr>kv_documentation_queue := ps\<rparr>)) s
     | (DOC_QUEUE, ORestriction r) \<Rightarrow> set_obj p (ORestriction (r\<lparr>re_documentation_queue := ps\<rparr>)) s
     | (DEFAULT_QUEUE, OKeyval k) \<Rightarrow> set_obj p (OKeyval (k\<lparr>kv_default_queue := ps\<rparr>)) s
     | (RESTRICTION_QUEUE, OSection n) \<Rightarrow> set_obj p (OSection (n\<lparr>se_restrictions_queue := ps\<rparr>)) s
     | (RESTRICTION_QUEUE, OKeyval k) \<Rightarrow> set_obj p (OKeyval (k\<lparr>kv_restrictions_queue := ps\<rparr>)) s
     | _ \<Rightarrow> None }"

text \<open>\<^verbatim>\<open>while ((x = MQ_POP (queue))) dc_destroy (&x->context)\<close>, at most \<open>n\<close> times.\<close>

primrec pop_destroy :: "destroyer \<Rightarrow> queue \<Rightarrow> ptr \<Rightarrow> nat \<Rightarrow> store \<Rightarrow> store option" where
  "pop_destroy destroy q p 0 s = do { ps \<leftarrow> get_queue q s p; if ps = [] then Some s else None }"
| "pop_destroy destroy q p (Suc n) s = do {
     ps \<leftarrow> get_queue q s p;
     case ps of [] \<Rightarrow> Some s
     | x # ps' \<Rightarrow> do {
         s \<leftarrow> set_queue q ps' p s;
         c \<leftarrow> ctxs s x;
         _ \<leftarrow> cx_obj c;
         (_, s) \<leftarrow> destroy (Some x) s;
         pop_destroy destroy q p n s } }"

definition pop_destroy_all :: "destroyer \<Rightarrow> queue \<Rightarrow> ptr \<Rightarrow> store \<Rightarrow> store option" where
  "pop_destroy_all destroy q p s = do { ps \<leftarrow> get_queue q s p; pop_destroy destroy q p (length ps) s }"

section \<open>Giving a reference back\<close>

definition putcontext_with :: "destroyer \<Rightarrow> ptr option \<Rightarrow> store \<Rightarrow> (status \<times> store) option" where
  "putcontext_with destroy context s = do {
     (status, s) \<leftarrow> dx_context_dp_full_check (Some context) s;
     if status \<noteq> OK \<and> status \<noteq> DESTROYED_CONTEXT then Some (status, s)
     else do {
       p \<leftarrow> context;
       c \<leftarrow> ctxs s p;
       if cx_refcount c = 1 then do { (_, s) \<leftarrow> destroy (Some p) s; Some (OK, s) }
       else do { (_, s) \<leftarrow> dx_context_decref p s; Some (OK, s) } } }"

section \<open>The element storage\<close>

text \<open>
  The iteration of \<^verbatim>\<open>dx_element_storage_destroy\<close>: a child that is destroyed removes only
  itself from the list, behind the iterator.
\<close>

fun destroy_each :: "destroyer \<Rightarrow> ptr list \<Rightarrow> store \<Rightarrow> store option" where
  "destroy_each destroy [] s = Some s"
| "destroy_each destroy (p # ps) s = do {
     s \<leftarrow> dx_context_incref p s;
     (_, s) \<leftarrow> destroy (Some p) s;
     destroy_each destroy ps s }"

definition element_storage_destroy_with :: "destroyer \<Rightarrow> ptr \<Rightarrow> store \<Rightarrow> (status \<times> store) option" where
  "element_storage_destroy_with destroy owner s = do {
     storage \<leftarrow> get_elements s owner;
     case storage of None \<Rightarrow> Some (INVALID_ARGUMENT, s)
     | Some st \<Rightarrow> do {
         ps \<leftarrow> storage_get_all st;
         s \<leftarrow> destroy_each destroy ps s;
         s \<leftarrow> set_elements owner None s;
         Some (OK, s) } }"

text \<open>
  The loop over the collection of all children before the storage is destroyed: the reference
  of the iteration is dropped, and another through \<^verbatim>\<open>dc_putcontext\<close>. The iterator visits each
  entry once.
\<close>

fun put_each :: "destroyer \<Rightarrow> nat \<Rightarrow> disir_collection \<Rightarrow> store \<Rightarrow> (disir_collection \<times> store) option" where
  "put_each destroy 0 col s = Some (col, s)"
| "put_each destroy (Suc n) col s = do {
     (status, r, col, s) \<leftarrow> dx_collection_next_noncoalesce col s;
     if status = EXHAUSTED then Some (col, s)
     else do {
       p \<leftarrow> r;
       (freed, s) \<leftarrow> dx_context_decref p s;
       (_, s) \<leftarrow> putcontext_with destroy (if freed then None else Some p) s;
       put_each destroy n col s } }"

definition destroy_children :: "destroyer \<Rightarrow> ptr \<Rightarrow> store \<Rightarrow> store option" where
  "destroy_children destroy p s = do {
     storage \<leftarrow> get_elements s p;
     (status, r, s) \<leftarrow> dx_element_storage_get_all storage s;
     s \<leftarrow> (case r of Some col \<Rightarrow> do {
              (col, s) \<leftarrow> put_each destroy (cc_numentries col + 1) col s;
              (_, s) \<leftarrow> dc_collection_finished (Some col) s;
              Some s }
           | None \<Rightarrow> Some s);
     (_, s) \<leftarrow> element_storage_destroy_with destroy p s;
     Some s }"

section \<open>The objects\<close>

definition free_obj :: "ptr \<Rightarrow> store \<Rightarrow> store option" where
  "free_obj p = upd p (\<lambda>c. c\<lparr>cx_obj := None\<rparr>)"

definition mold_finished_with :: "destroyer \<Rightarrow> ptr option \<Rightarrow> store \<Rightarrow> (status \<times> store) option" where
  "mold_finished_with destroy mold s =
     (case mold of None \<Rightarrow> Some (INVALID_ARGUMENT, s)
      | Some q \<Rightarrow> do {
          m \<leftarrow> get_mold s q;
          s \<leftarrow> set_obj q (OMold (m\<lparr>mo_reference_count := mo_reference_count m - 1\<rparr>)) s;
          if mo_reference_count m - 1 = 0 then destroy (Some q) s else Some (OK, s) })"

definition config_destroy_with :: "destroyer \<Rightarrow> ptr \<Rightarrow> store \<Rightarrow> (status \<times> store) option" where
  "config_destroy_with destroy p s = do {
     g \<leftarrow> get_config s p;
     (status, s) \<leftarrow> mold_finished_with destroy (cf_mold g) s;
     g \<leftarrow> get_config s p;
     s \<leftarrow> (if status = OK then set_obj p (OConfig (g\<lparr>cf_mold := None\<rparr>)) s else Some s);
     s \<leftarrow> destroy_children destroy p s;
     s \<leftarrow> free_obj p s;
     Some (OK, s) }"

definition mold_destroy_with :: "destroyer \<Rightarrow> ptr \<Rightarrow> store \<Rightarrow> (status \<times> store) option" where
  "mold_destroy_with destroy p s = do {
     _ \<leftarrow> get_mold s p;
     s \<leftarrow> destroy_children destroy p s;
     s \<leftarrow> pop_destroy_all destroy DOC_QUEUE p s;
     s \<leftarrow> free_obj p s;
     Some (OK, s) }"

definition section_destroy_with :: "destroyer \<Rightarrow> ptr \<Rightarrow> store \<Rightarrow> (status \<times> store) option" where
  "section_destroy_with destroy p s = do {
     n \<leftarrow> get_section s p;
     _ \<leftarrow> (if dv_size (se_name n) \<noteq> 0 then as_string (dv_data (se_name n)) else Some None);
     s \<leftarrow> (case se_mold_equiv n of Some q \<Rightarrow> do {
              (_, s) \<leftarrow> dx_context_decref q s;
              set_obj p (OSection (n\<lparr>se_mold_equiv := None\<rparr>)) s }
           | None \<Rightarrow> Some s);
     s \<leftarrow> pop_destroy_all destroy DOC_QUEUE p s;
     s \<leftarrow> destroy_children destroy p s;
     s \<leftarrow> pop_destroy_all destroy RESTRICTION_QUEUE p s;
     s \<leftarrow> free_obj p s;
     Some (OK, s) }"

definition keyval_destroy_with :: "destroyer \<Rightarrow> ptr \<Rightarrow> store \<Rightarrow> (status \<times> store) option" where
  "keyval_destroy_with destroy p s = do {
     k \<leftarrow> get_keyval s p;
     _ \<leftarrow> (if dv_size (kv_name k) \<noteq> 0 then as_string (dv_data (kv_name k)) else Some None);
     _ \<leftarrow> (if (dv_type (kv_value k) = VT_STRING \<or> dv_type (kv_value k) = VT_ENUM) \<and>
             dv_size (kv_value k) \<noteq> 0 then as_string (dv_data (kv_value k)) else Some None);
     s \<leftarrow> (case kv_mold_equiv k of Some q \<Rightarrow> do {
              (_, s) \<leftarrow> dx_context_decref q s;
              set_obj p (OKeyval (k\<lparr>kv_mold_equiv := None\<rparr>)) s }
           | None \<Rightarrow> Some s);
     s \<leftarrow> pop_destroy_all destroy DOC_QUEUE p s;
     s \<leftarrow> pop_destroy_all destroy DEFAULT_QUEUE p s;
     s \<leftarrow> pop_destroy_all destroy RESTRICTION_QUEUE p s;
     s \<leftarrow> free_obj p s;
     Some (OK, s) }"

text \<open>
  The documentation removes itself from the queue of its parent, whatever the parent's state;
  a parent of another type is only logged. \<open>remove1\<close> is \<^verbatim>\<open>MQ_REMOVE_SAFE\<close>.
\<close>

definition dx_documentation_destroy :: "ptr \<Rightarrow> store \<Rightarrow> (status \<times> store) option" where
  "dx_documentation_destroy p s = do {
     d \<leftarrow> get_documentation s p;
     _ \<leftarrow> (if dv_size (dd_value d) > 0 then as_string (dv_data (dd_value d)) else Some None);
     c \<leftarrow> ctxs s p;
     s \<leftarrow> (case cx_parent c of None \<Rightarrow> Some s
           | Some q \<Rightarrow> do {
               t \<leftarrow> dc_context_type s (Some q);
               if t \<in> {CT_MOLD, CT_KEYVAL, CT_SECTION, CT_RESTRICTION} then do {
                 ps \<leftarrow> get_queue DOC_QUEUE s q;
                 set_queue DOC_QUEUE (remove1 p ps) q s }
               else Some s });
     s \<leftarrow> free_obj p s;
     Some (OK, s) }"

text \<open>
  The default leaves the queue of its parent when the parent is destroyed: the condition of
  the code is the opposite of its comment.
\<close>

definition dx_default_destroy :: "ptr \<Rightarrow> store \<Rightarrow> (status \<times> store) option" where
  "dx_default_destroy p s = do {
     d \<leftarrow> get_default s p;
     _ \<leftarrow> (if dv_type (de_value d) = VT_STRING \<or> dv_size (de_value d) > 0
          then as_string (dv_data (de_value d)) else Some None);
     c \<leftarrow> ctxs s p;
     s \<leftarrow> (case cx_parent c of None \<Rightarrow> Some s
           | Some q \<Rightarrow> do {
               qc \<leftarrow> ctxs s q;
               t \<leftarrow> dc_context_type s (Some q);
               if destroyed qc \<and> t = CT_KEYVAL then do {
                 ps \<leftarrow> get_queue DEFAULT_QUEUE s q;
                 set_queue DEFAULT_QUEUE (remove1 p ps) q s }
               else Some s });
     s \<leftarrow> free_obj p s;
     Some (OK, s) }"

definition restriction_destroy_with :: "destroyer \<Rightarrow> ptr \<Rightarrow> store \<Rightarrow> (status \<times> store) option" where
  "restriction_destroy_with destroy p s = do {
     _ \<leftarrow> get_restriction s p;
     c \<leftarrow> ctxs s p;
     s \<leftarrow> (case cx_parent c of None \<Rightarrow> Some s
           | Some q \<Rightarrow> do {
               qc \<leftarrow> ctxs s q;
               if destroyed qc then Some s
               else do {
                 t \<leftarrow> dc_context_type s (Some q);
                 if t = CT_KEYVAL \<or> t = CT_SECTION then do {
                   ps \<leftarrow> get_queue RESTRICTION_QUEUE s q;
                   set_queue RESTRICTION_QUEUE (remove1 p ps) q s }
                 else None } });
     s \<leftarrow> pop_destroy_all destroy DOC_QUEUE p s;
     s \<leftarrow> free_obj p s;
     Some (OK, s) }"

section \<open>The destruction of a context\<close>

definition destroy_object_with :: "destroyer \<Rightarrow> ptr \<Rightarrow> store \<Rightarrow> (status \<times> store) option" where
  "destroy_object_with destroy p s = do {
     c \<leftarrow> ctxs s p;
     t \<leftarrow> dc_context_type s (Some p);
     if cx_obj c = None then (if t = CT_RESTRICTION then None else Some (INVALID_ARGUMENT, s))
     else case t of
       CT_CONFIG \<Rightarrow> config_destroy_with destroy p s
     | CT_MOLD \<Rightarrow> mold_destroy_with destroy p s
     | CT_DOCUMENTATION \<Rightarrow> dx_documentation_destroy p s
     | CT_KEYVAL \<Rightarrow> keyval_destroy_with destroy p s
     | CT_DEFAULT \<Rightarrow> dx_default_destroy p s
     | CT_SECTION \<Rightarrow> section_destroy_with destroy p s
     | CT_RESTRICTION \<Rightarrow> restriction_destroy_with destroy p s
     | _ \<Rightarrow> Some (OK, s) }"

definition dc_destroy_with :: "destroyer \<Rightarrow> destroyer" where
  "dc_destroy_with destroy context s = do {
     (status, s) \<leftarrow> dx_context_dp_full_check (Some context) s;
     if status \<noteq> OK \<and> status \<noteq> DESTROYED_CONTEXT then Some (status, s)
     else do {
       p \<leftarrow> context;
       c \<leftarrow> ctxs s p;
       if destroyed c then do { (_, s) \<leftarrow> dx_context_decref p s; Some (OK, s) }
       else do {
         s \<leftarrow> context_remove_from_parent p s;
         (status, s) \<leftarrow> destroy_object_with destroy p s;
         s \<leftarrow> upd p (\<lambda>c. c\<lparr>destroyed := True\<rparr>) s;
         c \<leftarrow> ctxs s p;
         s \<leftarrow> (case cx_parent c of None \<Rightarrow> Some s
               | Some q \<Rightarrow> if q = p then Some s
                   else do {
                     (freed, s) \<leftarrow> dx_context_decref q s;
                     if freed then upd p (\<lambda>c. c\<lparr>cx_parent := None\<rparr>) s else Some s });
         (_, s) \<leftarrow> dx_context_decref p s;
         Some (status, s) } } }"

primrec dc_destroy_fuel :: "nat \<Rightarrow> destroyer" where
  "dc_destroy_fuel 0 = (\<lambda>_ _. None)"
| "dc_destroy_fuel (Suc n) = dc_destroy_with (dc_destroy_fuel n)"

lemma dc_destroy_fuel_code [code]:
  "dc_destroy_fuel 0 p s = None"
  "dc_destroy_fuel (Suc n) p s = dc_destroy_with (dc_destroy_fuel n) p s"
  by simp_all

definition dc_destroy :: destroyer where
  "dc_destroy context s = dc_destroy_fuel (next_ptr s + 2) context s"

definition dc_putcontext :: "ptr option \<Rightarrow> store \<Rightarrow> (status \<times> store) option" where
  "dc_putcontext = putcontext_with dc_destroy"

definition disir_mold_finished :: "ptr option \<Rightarrow> store \<Rightarrow> (status \<times> store) option" where
  "disir_mold_finished = mold_finished_with dc_destroy"

definition dx_element_storage_destroy :: "ptr \<Rightarrow> store \<Rightarrow> (status \<times> store) option" where
  "dx_element_storage_destroy = element_storage_destroy_with dc_destroy"

section \<open>How the heap evolves\<close>

definition evolver :: "destroyer \<Rightarrow> bool" where
  "evolver destroy \<longleftrightarrow>
     (\<forall>p s0 s st s'. destroy p s = Some (st, s') \<longrightarrow> evolves s0 s \<longrightarrow> evolves s0 s')"

lemma evolverD [evolving]:
  "destroy p s = Some (st, s') \<Longrightarrow> evolver destroy \<Longrightarrow> evolves s0 s \<Longrightarrow> evolves s0 s'"
  by (auto simp: evolver_def)

lemma evolves_remove_from_parent [evolving]:
  "context_remove_from_parent p s = Some s' \<Longrightarrow> evolves s0 s \<Longrightarrow> evolves s0 s'"
  unfolding context_remove_from_parent_def
  by (elim do_elims Pair_inject; ((hypsubst)+)?; (assumption | erule evolving | rule tame_updates)+)

lemma evolves_set_queue [evolving]:
  "set_queue q ps p s = Some s' \<Longrightarrow> evolves s0 s \<Longrightarrow> evolves s0 s'"
proof -
  assume u: "set_queue q ps p s = Some s'" and e: "evolves s0 s"
  from u obtain c x where "ctxs s p = Some c" "cx_obj c = Some x"
    by (auto simp: set_queue_def bind_eq_Some_conv)
  with u have "\<exists>y. set_obj p y s = Some s'"
    by (cases q; cases x) (auto simp: set_queue_def)
  with e show ?thesis by (auto intro: evolving)
qed

lemma evolves_free_obj [evolving]:
  "free_obj p s = Some s' \<Longrightarrow> evolves s0 s \<Longrightarrow> evolves s0 s'"
  unfolding free_obj_def
  by ((assumption | erule evolving | rule tame_updates)+)

lemma evolves_documentation_destroy [evolving]:
  "dx_documentation_destroy p s = Some (st, s') \<Longrightarrow> evolves s0 s \<Longrightarrow> evolves s0 s'"
  unfolding dx_documentation_destroy_def
  by (elim do_elims Pair_inject; ((hypsubst)+)?; (assumption | erule evolving | rule tame_updates)+)

lemma evolves_default_destroy [evolving]:
  "dx_default_destroy p s = Some (st, s') \<Longrightarrow> evolves s0 s \<Longrightarrow> evolves s0 s'"
  unfolding dx_default_destroy_def
  by (elim do_elims Pair_inject; ((hypsubst)+)?; (assumption | erule evolving | rule tame_updates)+)

lemma evolves_pop_destroy [evolving]:
  "pop_destroy destroy q p n s = Some s' \<Longrightarrow> evolver destroy \<Longrightarrow> evolves s0 s \<Longrightarrow> evolves s0 s'"
proof (induction n arbitrary: s)
  case 0
  then show ?case by (auto simp: bind_eq_Some_conv split: if_splits)
next
  case (Suc n)
  show ?case
    by (insert Suc.prems [unfolded pop_destroy.simps], elim do_elims Pair_inject; ((hypsubst)+)?;
      (assumption | erule evolving Suc.IH)+)
qed

lemma evolves_pop_destroy_all [evolving]:
  "pop_destroy_all destroy q p s = Some s' \<Longrightarrow> evolver destroy \<Longrightarrow> evolves s0 s \<Longrightarrow> evolves s0 s'"
  unfolding pop_destroy_all_def
  by (elim do_elims Pair_inject; ((hypsubst)+)?; (assumption | erule evolving | rule tame_updates)+)

lemma evolves_putcontext_with [evolving]:
  "putcontext_with destroy p s = Some (st, s') \<Longrightarrow> evolver destroy \<Longrightarrow> evolves s0 s \<Longrightarrow> evolves s0 s'"
  unfolding putcontext_with_def
  by (elim do_elims Pair_inject; ((hypsubst)+)?; (assumption | erule evolving | rule tame_updates)+)

lemma evolves_destroy_each [evolving]:
  "destroy_each destroy ps s = Some s' \<Longrightarrow> evolver destroy \<Longrightarrow> evolves s0 s \<Longrightarrow> evolves s0 s'"
proof (induction ps arbitrary: s)
  case (Cons p ps)
  show ?case
    by (insert Cons.prems [unfolded destroy_each.simps], elim do_elims Pair_inject; ((hypsubst)+)?;
      (assumption | erule evolving Cons.IH)+)
qed simp

lemma evolves_element_storage_destroy_with [evolving]:
  "element_storage_destroy_with destroy p s = Some (st, s') \<Longrightarrow> evolver destroy \<Longrightarrow> evolves s0 s \<Longrightarrow> evolves s0 s'"
  unfolding element_storage_destroy_with_def
  by (elim do_elims Pair_inject; ((hypsubst)+)?; (assumption | erule evolving | rule tame_updates)+)

lemma evolves_put_each [evolving]:
  "put_each destroy n col s = Some (col', s') \<Longrightarrow> evolver destroy \<Longrightarrow> evolves s0 s \<Longrightarrow> evolves s0 s'"
proof (induction n arbitrary: col s)
  case (Suc n)
  show ?case
    by (insert Suc.prems [unfolded put_each.simps], elim do_elims Pair_inject; ((hypsubst)+)?;
      (assumption | erule evolving Suc.IH)+)
qed simp

lemma evolves_destroy_children [evolving]:
  "destroy_children destroy p s = Some s' \<Longrightarrow> evolver destroy \<Longrightarrow> evolves s0 s \<Longrightarrow> evolves s0 s'"
  unfolding destroy_children_def
  by (elim do_elims Pair_inject; ((hypsubst)+)?; (assumption | erule evolving | rule tame_updates)+)

lemma evolves_mold_finished_with [evolving]:
  "mold_finished_with destroy p s = Some (st, s') \<Longrightarrow> evolver destroy \<Longrightarrow> evolves s0 s \<Longrightarrow> evolves s0 s'"
  unfolding mold_finished_with_def
  by (elim do_elims Pair_inject; ((hypsubst)+)?; (assumption | erule evolving | rule tame_updates)+)

lemma evolves_config_destroy_with [evolving]:
  "config_destroy_with destroy p s = Some (st, s') \<Longrightarrow> evolver destroy \<Longrightarrow> evolves s0 s \<Longrightarrow> evolves s0 s'"
  unfolding config_destroy_with_def
  by (elim do_elims Pair_inject; ((hypsubst)+)?; (assumption | erule evolving | rule tame_updates)+)

lemma evolves_mold_destroy_with [evolving]:
  "mold_destroy_with destroy p s = Some (st, s') \<Longrightarrow> evolver destroy \<Longrightarrow> evolves s0 s \<Longrightarrow> evolves s0 s'"
  unfolding mold_destroy_with_def
  by (elim do_elims Pair_inject; ((hypsubst)+)?; (assumption | erule evolving | rule tame_updates)+)

lemma evolves_section_destroy_with [evolving]:
  "section_destroy_with destroy p s = Some (st, s') \<Longrightarrow> evolver destroy \<Longrightarrow> evolves s0 s \<Longrightarrow> evolves s0 s'"
  unfolding section_destroy_with_def
  by (elim do_elims Pair_inject; ((hypsubst)+)?; (assumption | erule evolving | rule tame_updates)+)

lemma evolves_keyval_destroy_with [evolving]:
  "keyval_destroy_with destroy p s = Some (st, s') \<Longrightarrow> evolver destroy \<Longrightarrow> evolves s0 s \<Longrightarrow> evolves s0 s'"
  unfolding keyval_destroy_with_def
  by (elim do_elims Pair_inject; ((hypsubst)+)?; (assumption | erule evolving | rule tame_updates)+)

lemma evolves_restriction_destroy_with [evolving]:
  "restriction_destroy_with destroy p s = Some (st, s') \<Longrightarrow> evolver destroy \<Longrightarrow> evolves s0 s \<Longrightarrow> evolves s0 s'"
  unfolding restriction_destroy_with_def
  by (elim do_elims Pair_inject; ((hypsubst)+)?; (assumption | erule evolving | rule tame_updates)+)

lemma evolves_destroy_object_with [evolving]:
  "destroy_object_with destroy p s = Some (st, s') \<Longrightarrow> evolver destroy \<Longrightarrow> evolves s0 s \<Longrightarrow> evolves s0 s'"
  unfolding destroy_object_with_def
  by (elim do_elims type_SomeE Pair_inject; ((hypsubst)+)?; (assumption | erule evolving)+)

lemma evolves_destroy_with [evolving]:
  "dc_destroy_with destroy p s = Some (st, s') \<Longrightarrow> evolver destroy \<Longrightarrow> evolves s0 s \<Longrightarrow> evolves s0 s'"
  unfolding dc_destroy_with_def
  by (elim do_elims Pair_inject; ((hypsubst)+)?; (assumption | erule evolving | rule tame_updates)+)

lemma evolver_with: "evolver destroy \<Longrightarrow> evolver (dc_destroy_with destroy)"
  by (auto simp: evolver_def [of "dc_destroy_with destroy"] intro: evolves_destroy_with)

lemma evolver_fuel: "evolver (dc_destroy_fuel n)"
proof (induction n)
  case 0
  then show ?case by (simp add: evolver_def)
next
  case (Suc n)
  then show ?case by (simp add: evolver_with)
qed

lemma evolves_destroy [evolving]:
  "dc_destroy p s = Some (st, s') \<Longrightarrow> evolves s0 s \<Longrightarrow> evolves s0 s'"
  unfolding dc_destroy_def by (rule evolverD [OF _ evolver_fuel])

lemma evolver_dc_destroy: "evolver dc_destroy"
  by (auto simp: evolver_def intro: evolves_destroy)

lemma evolves_putcontext [evolving]:
  "dc_putcontext p s = Some (st, s') \<Longrightarrow> evolves s0 s \<Longrightarrow> evolves s0 s'"
  unfolding dc_putcontext_def
  by ((assumption | erule evolving | rule evolver_dc_destroy)+)

lemma evolves_mold_finished [evolving]:
  "disir_mold_finished p s = Some (st, s') \<Longrightarrow> evolves s0 s \<Longrightarrow> evolves s0 s'"
  unfolding disir_mold_finished_def
  by ((assumption | erule evolving | rule evolver_dc_destroy)+)

declare evolverD [evolving del]

end
