(* ===== verification/Lookup.thy ===== *)
theory Lookup
  imports Destroy
begin

text \<open>
  The remaining operations of src/lib/context.c that read a context tree or one object of it:
  the versions a context was introduced and deprecated in, the version of a config or mold (with
  the version functions of context_config.c and context_mold.c), the mold equivalents, the
  element at an index and the full name of an element.
\<close>

section \<open>Introduced and deprecated\<close>

text \<open>
  \<^verbatim>\<open>context_get_introduced_structure\<close> and its twin hand out a pointer into an object;
  here is the version it points to, and the write through it.
\<close>

definition context_get_introduced_structure :: "store \<Rightarrow> ptr \<Rightarrow> (status \<times> version option) option" where
  "context_get_introduced_structure s p = do {
     c \<leftarrow> ctxs s p;
     rt \<leftarrow> dc_context_type s (cx_root c);
     if rt \<noteq> CT_MOLD then Some (WRONG_CONTEXT, None)
     else do {
       t \<leftarrow> dc_context_type s (Some p);
       case t of
         CT_DOCUMENTATION \<Rightarrow> do { d \<leftarrow> get_documentation s p; Some (OK, Some (dd_introduced d)) }
       | CT_DEFAULT \<Rightarrow> do { d \<leftarrow> get_default s p; Some (OK, Some (de_introduced d)) }
       | CT_SECTION \<Rightarrow> do { n \<leftarrow> get_section s p; Some (OK, Some (se_introduced n)) }
       | CT_RESTRICTION \<Rightarrow> do { r \<leftarrow> get_restriction s p; Some (OK, Some (re_introduced r)) }
       | CT_MOLD \<Rightarrow> do { m \<leftarrow> get_mold s p; Some (OK, Some (mo_version m)) }
       | _ \<Rightarrow> Some (INTERNAL_ERROR, None) } }"

definition set_introduced :: "ptr \<Rightarrow> version \<Rightarrow> store \<Rightarrow> store option" where
  "set_introduced p v s = do {
     c \<leftarrow> ctxs s p;
     x \<leftarrow> cx_obj c;
     case x of
       ODocumentation d \<Rightarrow> set_obj p (ODocumentation (d\<lparr>dd_introduced := v\<rparr>)) s
     | ODefault d \<Rightarrow> set_obj p (ODefault (d\<lparr>de_introduced := v\<rparr>)) s
     | OSection n \<Rightarrow> set_obj p (OSection (n\<lparr>se_introduced := v\<rparr>)) s
     | ORestriction r \<Rightarrow> set_obj p (ORestriction (r\<lparr>re_introduced := v\<rparr>)) s
     | OMold m \<Rightarrow> set_obj p (OMold (m\<lparr>mo_version := v\<rparr>)) s
     | _ \<Rightarrow> None }"

definition context_get_deprecated_structure :: "store \<Rightarrow> ptr \<Rightarrow> (status \<times> version option) option" where
  "context_get_deprecated_structure s p = do {
     c \<leftarrow> ctxs s p;
     rt \<leftarrow> dc_context_type s (cx_root c);
     if rt \<noteq> CT_MOLD then Some (WRONG_CONTEXT, None)
     else do {
       t \<leftarrow> dc_context_type s (Some p);
       case t of
         CT_KEYVAL \<Rightarrow> do { k \<leftarrow> get_keyval s p; Some (OK, Some (kv_deprecated k)) }
       | CT_SECTION \<Rightarrow> do { n \<leftarrow> get_section s p; Some (OK, Some (se_deprecated n)) }
       | CT_RESTRICTION \<Rightarrow> do { r \<leftarrow> get_restriction s p; Some (OK, Some (re_deprecated r)) }
       | _ \<Rightarrow> Some (INTERNAL_ERROR, None) } }"

definition set_deprecated :: "ptr \<Rightarrow> version \<Rightarrow> store \<Rightarrow> store option" where
  "set_deprecated p v s = do {
     c \<leftarrow> ctxs s p;
     x \<leftarrow> cx_obj c;
     case x of
       OKeyval k \<Rightarrow> set_obj p (OKeyval (k\<lparr>kv_deprecated := v\<rparr>)) s
     | OSection n \<Rightarrow> set_obj p (OSection (n\<lparr>se_deprecated := v\<rparr>)) s
     | ORestriction r \<Rightarrow> set_obj p (ORestriction (r\<lparr>re_deprecated := v\<rparr>)) s
     | _ \<Rightarrow> None }"

definition dc_add_introduced :: "ptr option \<Rightarrow> version option \<Rightarrow> store \<Rightarrow> (status \<times> store) option" where
  "dc_add_introduced context version s = do {
     (status, s) \<leftarrow> dx_context_sp_full_check context s;
     if status \<noteq> OK then Some (status, s)
     else case version of None \<Rightarrow> Some (INVALID_ARGUMENT, s)
     | Some v \<Rightarrow> do {
         p \<leftarrow> context;
         status \<leftarrow> dx_context_type_check p [CT_KEYVAL, CT_SECTION, CT_DEFAULT, CT_RESTRICTION, CT_DOCUMENTATION] s;
         if status \<noteq> OK then do {
           s \<leftarrow> dx_context_error_set p ''Cannot add introduced version to %s'' s;
           Some (status, s) }
         else do {
           (status, r) \<leftarrow> context_get_introduced_structure s p;
           if status = OK then do { s \<leftarrow> set_introduced p v s; Some (OK, s) }
           else if status = WRONG_CONTEXT then do {
             s \<leftarrow> dx_context_error_set p ''Cannot add introduced to %s whose top-level is %s.'' s;
             Some (status, s) }
           else Some (status, s) } } }"

definition dc_add_deprecated :: "ptr option \<Rightarrow> version option \<Rightarrow> store \<Rightarrow> (status \<times> store) option" where
  "dc_add_deprecated context version s = do {
     (status, s) \<leftarrow> dx_context_sp_full_check context s;
     if status \<noteq> OK then Some (status, s)
     else case version of None \<Rightarrow> Some (INVALID_ARGUMENT, s)
     | Some v \<Rightarrow> do {
         p \<leftarrow> context;
         status \<leftarrow> dx_context_type_check p [CT_KEYVAL, CT_SECTION, CT_DEFAULT, CT_RESTRICTION] s;
         if status \<noteq> OK then do {
           s \<leftarrow> dx_context_error_set p ''Cannot add deprecated version to %s'' s;
           Some (status, s) }
         else do {
           (status, r) \<leftarrow> context_get_deprecated_structure s p;
           if status = OK then do { s \<leftarrow> set_deprecated p v s; Some (OK, s) }
           else if status = WRONG_CONTEXT then do {
             s \<leftarrow> dx_context_error_set p ''Cannot add deprecated to %s whose top-level is %s.'' s;
             Some (status, s) }
           else Some (status, s) } } }"

text \<open>The two getters; the version is given when the status is \<open>OK\<close>.\<close>

definition dc_get_introduced :: "ptr option \<Rightarrow> store \<Rightarrow> (status \<times> version option \<times> store) option" where
  "dc_get_introduced context s = do {
     (status, s) \<leftarrow> dx_context_sp_full_check context s;
     if status \<noteq> OK then Some (status, None, s)
     else do {
       p \<leftarrow> context;
       (status, r) \<leftarrow> context_get_introduced_structure s p;
       if status = INTERNAL_ERROR then do {
         s \<leftarrow> dx_context_error_set p ''Cannot get introduced version from %s'' s;
         Some (WRONG_CONTEXT, None, s) }
       else do {
         c \<leftarrow> ctxs s p;
         rt \<leftarrow> dc_context_type s (cx_root c);
         if rt \<noteq> CT_MOLD then do {
           s \<leftarrow> dx_context_error_set p ''Cannot get introduced from %s whose top-level is %s.'' s;
           Some (WRONG_CONTEXT, None, s) }
         else Some (status, r, s) } } }"

definition dc_get_deprecated :: "ptr option \<Rightarrow> store \<Rightarrow> (status \<times> version option \<times> store) option" where
  "dc_get_deprecated context s = do {
     (status, s) \<leftarrow> dx_context_sp_full_check context s;
     if status \<noteq> OK then Some (status, None, s)
     else do {
       p \<leftarrow> context;
       (status, r) \<leftarrow> context_get_deprecated_structure s p;
       if status = INTERNAL_ERROR then do {
         s \<leftarrow> dx_context_error_set p ''Cannot get deprecated version from %s'' s;
         Some (WRONG_CONTEXT, None, s) }
       else do {
         c \<leftarrow> ctxs s p;
         rt \<leftarrow> dc_context_type s (cx_root c);
         if rt \<noteq> CT_MOLD then do {
           s \<leftarrow> dx_context_error_set p ''Cannot get deprecated from %s whose top-level is %s.'' s;
           Some (WRONG_CONTEXT, None, s) }
         else Some (status, r, s) } } }"

section \<open>The version of a config or mold\<close>

definition dx_mold_update_version :: "ptr \<Rightarrow> version \<Rightarrow> store \<Rightarrow> (status \<times> store) option" where
  "dx_mold_update_version p v s = do {
     m \<leftarrow> get_mold s p;
     let cur = mo_version m;
     let fact = (if sv_major cur < sv_major v then v
                 else if sv_major cur = sv_major v \<and> sv_minor cur < sv_minor v
                 then Version (sv_major cur) (sv_minor v)
                 else cur);
     s \<leftarrow> set_obj p (OMold (m\<lparr>mo_version := fact\<rparr>)) s;
     Some (OK, s) }"

definition dc_mold_get_version :: "ptr \<Rightarrow> store \<Rightarrow> version option" where
  "dc_mold_get_version p s = do { m \<leftarrow> get_mold s p; Some (mo_version m) }"

definition dc_config_get_version :: "ptr \<Rightarrow> store \<Rightarrow> version option" where
  "dc_config_get_version p s = do { g \<leftarrow> get_config s p; Some (cf_version g) }"

definition dc_get_version :: "ptr option \<Rightarrow> store \<Rightarrow> (status \<times> version option \<times> store) option" where
  "dc_get_version context s = do {
     (status, s) \<leftarrow> dx_context_sp_full_check context s;
     if status \<noteq> OK then Some (status, None, s)
     else do {
       p \<leftarrow> context;
       status \<leftarrow> dx_context_type_check p [CT_CONFIG, CT_MOLD] s;
       if status \<noteq> OK then Some (status, None, s)
       else do {
         t \<leftarrow> dc_context_type s (Some p);
         v \<leftarrow> (if t = CT_CONFIG then dc_config_get_version p s else dc_mold_get_version p s);
         Some (OK, Some v, s) } } }"

definition dc_set_version :: "ptr option \<Rightarrow> version option \<Rightarrow> store \<Rightarrow> (status \<times> store) option" where
  "dc_set_version context version s = do {
     (status, s) \<leftarrow> dx_context_sp_full_check context s;
     if status \<noteq> OK then Some (status, s)
     else case version of None \<Rightarrow> Some (INVALID_ARGUMENT, s)
     | Some v \<Rightarrow> do {
         p \<leftarrow> context;
         status \<leftarrow> dx_context_type_check p [CT_CONFIG, CT_MOLD] s;
         if status \<noteq> OK then Some (status, s)
         else do {
           t \<leftarrow> dc_context_type s (Some p);
           if t = CT_CONFIG then do {
             g \<leftarrow> get_config s p;
             q \<leftarrow> cf_mold g;
             m \<leftarrow> get_mold s q;
             if dc_version_compare (mo_version m) v < 0 then do {
               s \<leftarrow> dx_context_error_set p ''Cannot set version to CONFIG whose MOLD is lower.'' s;
               Some (CONFLICTING_SEMVER, s) }
             else do { s \<leftarrow> set_obj p (OConfig (g\<lparr>cf_version := v\<rparr>)) s; Some (OK, s) } }
           else do {
             m \<leftarrow> get_mold s p;
             s \<leftarrow> set_obj p (OMold (m\<lparr>mo_version := v\<rparr>)) s;
             Some (OK, s) } } } }"

section \<open>Mold equivalents\<close>

definition dx_get_mold_equiv :: "store \<Rightarrow> ptr option \<Rightarrow> (status \<times> ptr option) option" where
  "dx_get_mold_equiv s context =
     (case context of None \<Rightarrow> Some (INVALID_ARGUMENT, None)
      | Some p \<Rightarrow> do {
          c \<leftarrow> ctxs s p;
          rt \<leftarrow> dc_context_type s (cx_root c);
          if rt \<noteq> CT_CONFIG then Some (WRONG_CONTEXT, None)
          else do {
            t \<leftarrow> dc_context_type s (Some p);
            case t of
              CT_CONFIG \<Rightarrow> do { g \<leftarrow> get_config s p; q \<leftarrow> cf_mold g; _ \<leftarrow> get_mold s q; Some (OK, Some q) }
            | CT_SECTION \<Rightarrow> do { n \<leftarrow> get_section s p; Some (OK, se_mold_equiv n) }
            | CT_KEYVAL \<Rightarrow> do { k \<leftarrow> get_keyval s p; Some (OK, kv_mold_equiv k) }
            | _ \<Rightarrow> Some (WRONG_CONTEXT, None) } })"

text \<open>The element storage of the mold that describes the elements of a config or section.\<close>

definition mold_storage_of :: "store \<Rightarrow> ptr \<Rightarrow> context_type \<Rightarrow> element_storage option option" where
  "mold_storage_of s p t =
     (if t = CT_CONFIG then do { g \<leftarrow> get_config s p; q \<leftarrow> cf_mold g; m \<leftarrow> get_mold s q; Some (mo_elements m) }
      else do { n \<leftarrow> get_section s p; q \<leftarrow> se_mold_equiv n; m \<leftarrow> get_section s q; Some (se_elements m) })"

definition dx_get_mold_equiv_type :: "ptr option \<Rightarrow> string option \<Rightarrow> store \<Rightarrow>
    (status \<times> context_type option \<times> store) option" where
  "dx_get_mold_equiv_type parent name s =
     (case (parent, name) of
        (Some p, Some n) \<Rightarrow> do {
          c \<leftarrow> ctxs s p;
          rt \<leftarrow> dc_context_type s (cx_root c);
          if rt \<noteq> CT_CONFIG then Some (WRONG_CONTEXT, None, s)
          else do {
            t \<leftarrow> dc_context_type s (Some p);
            if t \<noteq> CT_CONFIG \<and> t \<noteq> CT_SECTION then do {
              s \<leftarrow> dx_context_error_set p ''attempted to set mold_equiv on wrong context type: %s'' s;
              Some (WRONG_CONTEXT, None, s) }
            else do {
              storage \<leftarrow> mold_storage_of s p t;
              (status, r) \<leftarrow> dx_element_storage_get_first storage name;
              if status \<noteq> OK then Some (NOT_EXIST, None, s)
              else do { qt \<leftarrow> dc_context_type s r; Some (OK, Some qt, s) } } } }
      | _ \<Rightarrow> Some (INVALID_ARGUMENT, None, s))"

definition dx_set_mold_equiv :: "ptr option \<Rightarrow> string option \<Rightarrow> int \<Rightarrow> store \<Rightarrow> (status \<times> store) option" where
  "dx_set_mold_equiv context value value_size s =
     (case (context, value) of
        (Some p, Some n) \<Rightarrow>
          if value_size \<le> 0 then Some (INVALID_ARGUMENT, s)
          else do {
            c \<leftarrow> ctxs s p;
            pt \<leftarrow> dc_context_type s (cx_parent c);
            orphan \<leftarrow> (if pt = CT_SECTION then do {
                         q \<leftarrow> cx_parent c;
                         ps \<leftarrow> get_section s q;
                         Some (se_mold_equiv ps = None) }
                      else Some False);
            if orphan then do {
              s \<leftarrow> dx_context_error_set p ''Parent SECTION %s missing mold equivalent.'' s;
              Some (NOT_EXIST, s) }
            else if pt \<noteq> CT_CONFIG \<and> pt \<noteq> CT_SECTION then do {
              s \<leftarrow> dx_context_error_set p ''attempted to set mold_equiv on wrong context type: %s'' s;
              Some (INTERNAL_ERROR, s) }
            else do {
              q \<leftarrow> cx_parent c;
              storage \<leftarrow> mold_storage_of s q pt;
              (status, r) \<leftarrow> dx_element_storage_get_first storage (Some n);
              if status \<noteq> OK then do {
                s \<leftarrow> dx_context_error_set p ''%s missing mold equivalent entry for name %s.'' s;
                Some (status, s) }
              else do {
                queried \<leftarrow> r;
                t \<leftarrow> dc_context_type s (Some p);
                qt \<leftarrow> dc_context_type s (Some queried);
                if t \<noteq> qt then Some (WRONG_CONTEXT, s)
                else do {
                  s \<leftarrow> (if t = CT_SECTION then do {
                          x \<leftarrow> get_section s p;
                          set_obj p (OSection (x\<lparr>se_mold_equiv := Some queried\<rparr>)) s }
                        else if t = CT_KEYVAL then do {
                          x \<leftarrow> get_keyval s p;
                          m \<leftarrow> get_keyval s queried;
                          set_obj p (OKeyval (x\<lparr>kv_mold_equiv := Some queried,
                             kv_value := (kv_value x)\<lparr>dv_type := dv_type (kv_value m)\<rparr>\<rparr>)) s }
                        else Some s);
                  s \<leftarrow> dx_context_incref queried s;
                  Some (OK, s) } } } }
      | _ \<Rightarrow> Some (INVALID_ARGUMENT, s))"

section \<open>The element at an index\<close>

text \<open>The loop of \<^verbatim>\<open>dc_find_element\<close>, with \<open>k\<close> entries still to be skipped.\<close>

primrec skip_to :: "nat \<Rightarrow> disir_collection \<Rightarrow> store \<Rightarrow>
    (status \<times> ptr option \<times> disir_collection \<times> store) option" where
  "skip_to 0 col s = do {
     (status, r, col, s) \<leftarrow> dc_collection_next col s;
     Some (if status = EXHAUSTED then INTERNAL_ERROR else OK, r, col, s) }"
| "skip_to (Suc k) col s = do {
     (status, r, col, s) \<leftarrow> dc_collection_next col s;
     if status = EXHAUSTED then Some (INTERNAL_ERROR, r, col, s)
     else do { (_, s) \<leftarrow> dc_putcontext r s; skip_to k col s } }"

text \<open>The index is an \<^verbatim>\<open>unsigned int\<close>, and \<^verbatim>\<open>size - 1\<close> wraps around at a size of 0.\<close>

definition dc_find_element :: "ptr option \<Rightarrow> string option \<Rightarrow> nat \<Rightarrow> store \<Rightarrow>
    (status \<times> ptr option \<times> store) option" where
  "dc_find_element parent name index s = do {
     (status, r, s) \<leftarrow> dc_find_elements parent name s;
     case r of None \<Rightarrow> Some (status, None, s)
     | Some col \<Rightarrow> do {
         (n, cr, s) \<leftarrow> dc_collection_size (Some col) s;
         col \<leftarrow> cr;
         if (n + 2 ^ 32 - 1) mod 2 ^ 32 < index then do {
           (_, s) \<leftarrow> dc_collection_finished (Some col) s;
           Some (NOT_EXIST, None, s) }
         else do {
           (status, r, col, s) \<leftarrow> skip_to index col s;
           (_, s) \<leftarrow> dc_collection_finished (Some col) s;
           Some (status, r, s) } } }"

section \<open>The full name of an element\<close>

text \<open>
  The search for the position of a context among the elements of its name. The loop leaves
  only when it meets the context: an exhausted collection does not end it.
\<close>

partial_function (option) index_in :: "ptr \<Rightarrow> int \<Rightarrow> disir_collection \<Rightarrow> store \<Rightarrow>
    (status \<times> int \<times> disir_collection \<times> store) option" where
  "index_in p i col s = do {
     (status, r, col, s) \<leftarrow> dc_collection_next col s;
     if status \<noteq> OK \<and> status \<noteq> EXHAUSTED then Some (status, -1, col, s)
     else if r = Some p then do {
       (_, s) \<leftarrow> dc_putcontext r s;
       Some (OK, i + 1, col, s) }
     else do {
       (_, s) \<leftarrow> dc_putcontext r s;
       index_in p (i + 1) col s } }"

declare index_in.simps [code]

text \<open>
  The climb to the root: the names and indices found so far, innermost first. The two arrays
  of the code have 20 slots; the 21st name overruns them. \<open>None\<close> in the index is no search.
\<close>

partial_function (option) climb :: "ptr \<Rightarrow> (string \<times> int) list \<Rightarrow> store \<Rightarrow>
    ((string \<times> int) list \<times> store) option" where
  "climb p acc s =
     (if 20 \<le> length acc then None
      else do {
        (status, r, s) \<leftarrow> dc_get_name (Some p) s;
        c \<leftarrow> ctxs s p;
        (go, entry, s) \<leftarrow> (case r of
            None \<Rightarrow> Some (True, (''undefined'', 0), s)
          | Some (n, _) \<Rightarrow> do {
              name \<leftarrow> n;
              (status, cr, s) \<leftarrow> dc_find_elements (cx_parent c) (Some name) s;
              case cr of None \<Rightarrow> Some (False, (name, -1), s)
              | Some col \<Rightarrow> do {
                  (status, i, col, s) \<leftarrow> index_in p (-1) col s;
                  (_, s) \<leftarrow> dc_collection_finished (Some col) s;
                  Some (status = OK, (name, i), s) } });
        let acc = acc @ [entry];
        if \<not> go then Some (acc, s)
        else do {
          q \<leftarrow> cx_parent c;
          qc \<leftarrow> ctxs s q;
          if cx_parent qc = None then Some (acc, s) else climb q acc s } })"

declare climb.simps [code]

fun join_names :: "(string \<times> int) list \<Rightarrow> string" where
  "join_names [] = []"
| "join_names [(n, i)] = n @ (if i \<noteq> 0 then ''@'' @ show_int i else [])"
| "join_names ((n, i) # e # es) =
     n @ (if i \<noteq> 0 then ''@'' @ show_int i else []) @ ''.'' @ join_names (e # es)"

definition dc_resolve_root_name :: "ptr option \<Rightarrow> store \<Rightarrow> (status \<times> string option \<times> store) option" where
  "dc_resolve_root_name context s = do {
     (status, s) \<leftarrow> dx_context_sp_full_check context s;
     if status \<noteq> OK then Some (status, None, s)
     else do {
       p \<leftarrow> context;
       status \<leftarrow> dx_context_type_check p [CT_KEYVAL, CT_SECTION] s;
       if status \<noteq> OK then Some (status, None, s)
       else do {
         (acc, s) \<leftarrow> climb p [] s;
         Some (OK, Some (join_names (rev acc)), s) } } }"

section \<open>How the heap evolves\<close>

lemma evolves_set_introduced_etc [evolving]:
  "set_introduced p v s = Some s' \<Longrightarrow> evolves s0 s \<Longrightarrow> evolves s0 s'"
  "set_deprecated p v s = Some s' \<Longrightarrow> evolves s0 s \<Longrightarrow> evolves s0 s'"
  unfolding set_introduced_def set_deprecated_def
  by (elim do_elims Pair_inject object_SomeE; ((hypsubst)+)?; (assumption | erule evolving | rule tame_updates)+)+

lemma evolves_dc_add_introduced_etc [evolving]:
  "dc_add_introduced context version s = Some (r1, s') \<Longrightarrow> evolves s0 s \<Longrightarrow> evolves s0 s'"
  "dc_add_deprecated context version s = Some (r1, s') \<Longrightarrow> evolves s0 s \<Longrightarrow> evolves s0 s'"
  "dc_get_introduced context s = Some (r1, r2, s') \<Longrightarrow> evolves s0 s \<Longrightarrow> evolves s0 s'"
  "dc_get_deprecated context s = Some (r1, r2, s') \<Longrightarrow> evolves s0 s \<Longrightarrow> evolves s0 s'"
  "dx_mold_update_version p v s = Some (r1, s') \<Longrightarrow> evolves s0 s \<Longrightarrow> evolves s0 s'"
  "dc_get_version context s = Some (r1, r2, s') \<Longrightarrow> evolves s0 s \<Longrightarrow> evolves s0 s'"
  unfolding dc_add_introduced_def dc_add_deprecated_def dc_get_introduced_def dc_get_deprecated_def dx_mold_update_version_def dc_get_version_def
  by (elim do_elims Pair_inject; ((hypsubst)+)?; (assumption | erule evolving | rule tame_updates)+)+

lemma evolves_dc_set_version_etc [evolving]:
  "dc_set_version context version s = Some (r1, s') \<Longrightarrow> evolves s0 s \<Longrightarrow> evolves s0 s'"
  "dx_get_mold_equiv_type parent name s = Some (r1, r2, s') \<Longrightarrow> evolves s0 s \<Longrightarrow> evolves s0 s'"
  "dx_set_mold_equiv context value value_size s = Some (r1, s') \<Longrightarrow> evolves s0 s \<Longrightarrow> evolves s0 s'"
  unfolding dc_set_version_def dx_get_mold_equiv_type_def dx_set_mold_equiv_def
  by (elim do_elims Pair_inject; ((hypsubst)+)?; (assumption | erule evolving | rule tame_updates)+)+

lemma evolves_skip_to [evolving]:
  "skip_to k col s = Some (z1, z2, z3, s') \<Longrightarrow> evolves s0 s \<Longrightarrow> evolves s0 s'"
proof (induction k arbitrary: col s)
  case 0
  show ?case
    by (insert 0 [unfolded skip_to.simps], elim do_elims Pair_inject; ((hypsubst)+)?; (assumption | erule evolving)+)
next
  case (Suc k)
  show ?case
    by (insert Suc.prems [unfolded skip_to.simps], elim do_elims Pair_inject; ((hypsubst | erule Pair_inject)+)?;
      (assumption | erule evolving Suc.IH)+)
qed

lemma evolves_dc_find_element [evolving]:
  "dc_find_element parent name index s = Some (z1, z2, s') \<Longrightarrow> evolves s0 s \<Longrightarrow> evolves s0 s'"
  unfolding dc_find_element_def
  by (elim do_elims Pair_inject; ((hypsubst | erule Pair_inject)+)?; (assumption | erule evolving)+)

lemma evolves_index_in_result:
  assumes "index_in p i col s = Some r"
  shows "evolves s (snd (snd (snd r)))"
proof (rule index_in.raw_induct [where P = "\<lambda>p i col s r. evolves s (snd (snd (snd r)))", OF _ assms], goal_cases)
  case (1 f p i col s r)
  have *: "evolves t (snd (snd (snd y)))" if "f p i col s = Some y" "evolves t s" for p i col s y t
    using 1(1) [OF that(1)] that(2) by (blast intro: evolves_trans)
  show ?case
    by (insert 1(2), elim do_elims Pair_inject; ((hypsubst | erule Pair_inject)+)?; (unfold snd_conv)?;
      (rule evolves_refl | erule evolving *)+)
qed

lemma evolves_climb_result:
  assumes "climb p acc s = Some r"
  shows "evolves s (snd r)"
proof (rule climb.raw_induct [where P = "\<lambda>p acc s r. evolves s (snd r)", OF _ assms], goal_cases)
  case (1 f p acc s r)
  have *: "evolves t (snd y)" if "f p acc s = Some y" "evolves t s" for p acc s y t
    using 1(1) [OF that(1)] that(2) by (blast intro: evolves_trans)
  note index_in = evolves_index_in_result [of _ _ _ _ "(_, _, _, _)", unfolded snd_conv, THEN evolves_trans [rotated]]
  show ?case
    by (insert 1(2), elim do_elims Pair_inject; ((hypsubst | erule Pair_inject)+)?; (unfold snd_conv)?;
      (rule evolves_refl | erule evolving index_in *)+)
qed

lemma evolves_searches [evolving]:
  "index_in p i col s = Some (z1, z2, z3, s') \<Longrightarrow> evolves s0 s \<Longrightarrow> evolves s0 s'"
  "climb p acc s = Some (z4, s') \<Longrightarrow> evolves s0 s \<Longrightarrow> evolves s0 s'"
  using evolves_index_in_result [of p i col s] evolves_climb_result [of p acc s] by (auto intro: evolves_trans)

lemma evolves_dc_resolve_root_name [evolving]:
  "dc_resolve_root_name context s = Some (z1, z2, s') \<Longrightarrow> evolves s0 s \<Longrightarrow> evolves s0 s'"
  unfolding dc_resolve_root_name_def
  by (elim do_elims Pair_inject; ((hypsubst | erule Pair_inject)+)?; (assumption | erule evolving)+)

end
