(* ===== verification/Restriction.thy ===== *)
theory Restriction
  imports Lookup
begin

text \<open>
  src/lib/context_restriction.c: the restriction contexts and the two checks that read them. An
  exclusive restriction (a range, a number, an enum value) limits the value of a keyval of a
  config, an inclusive one (a minimum or maximum of entries) the number of elements of a
  name. Of the buffer of allowed values the exclusive check keeps whether anything was printed
  into it: reading it before is a fault. The message it sets is kept by its format. \<^verbatim>\<open>dx_restriction_begin\<close>, \<^verbatim>\<open>dx_restriction_finalize\<close> and the
  \<^verbatim>\<open>dc_add_restriction_*\<close> functions are in theory Lifecycle.

  The lemmas characterise both checks: which restrictions are active at a version, that the
  exclusive check accepts a value exactly when an active restriction does (or there is none),
  and which of several minimums and maximums counts.
\<close>

section \<open>Types\<close>

fun disir_restriction_strings :: "restriction_type \<Rightarrow> string" where
  "disir_restriction_strings RT_INVALID = ''INVALID''"
| "disir_restriction_strings INC_ENTRY_MIN = ''MINIMUM_ENTRIES''"
| "disir_restriction_strings INC_ENTRY_MAX = ''MAXIMUM_ENTRIES''"
| "disir_restriction_strings EXC_VALUE_ENUM = ''ENUM''"
| "disir_restriction_strings EXC_VALUE_RANGE = ''RANGE''"
| "disir_restriction_strings EXC_VALUE_NUMERIC = ''NUMERIC''"
| "disir_restriction_strings RT_UNKNOWN = ''UNKNOWN''"

definition dc_restriction_enum_string :: "restriction_type \<Rightarrow> string" where
  "dc_restriction_enum_string r = disir_restriction_strings r"

definition dc_restriction_context_string :: "store \<Rightarrow> ptr option \<Rightarrow> string option" where
  "dc_restriction_context_string s context =
     (case context of None \<Rightarrow> Some (disir_restriction_strings RT_INVALID)
      | Some p \<Rightarrow> do {
          t \<leftarrow> dc_context_type s (Some p);
          if t \<noteq> CT_RESTRICTION then Some (disir_restriction_strings RT_INVALID)
          else do { r \<leftarrow> get_restriction s p; Some (dc_restriction_enum_string (re_type r)) } })"

definition dc_restriction_group_type :: "restriction_type \<Rightarrow> string" where
  "dc_restriction_group_type r =
     (if r = INC_ENTRY_MIN \<or> r = INC_ENTRY_MAX then ''INCLUSIVE''
      else if r = EXC_VALUE_ENUM \<or> r = EXC_VALUE_RANGE \<or> r = EXC_VALUE_NUMERIC then ''EXCLUSIVE''
      else ''UNKNOWN'')"

text \<open>The loop over the type names, in the order of the enumeration.\<close>

definition dc_restriction_string_to_enum :: "string \<Rightarrow> restriction_type" where
  "dc_restriction_string_to_enum str =
     (case filter (\<lambda>r. strcmp str (disir_restriction_strings r) = 0)
             [INC_ENTRY_MIN, INC_ENTRY_MAX, EXC_VALUE_ENUM, EXC_VALUE_RANGE, EXC_VALUE_NUMERIC] of
        [] \<Rightarrow> RT_UNKNOWN | r # _ \<Rightarrow> r)"

definition dx_restriction_type_sanify :: "restriction_type \<Rightarrow> restriction_type" where
  "dx_restriction_type_sanify r = (if r = RT_UNKNOWN \<or> r = RT_INVALID then RT_UNKNOWN else r)"

definition dx_restriction_create :: disir_restriction where
  "dx_restriction_create =
     \<lparr>re_introduced = Version 1 0, re_deprecated = Version 0 0, re_documentation_queue = [],
      re_type = RT_UNKNOWN, re_value_string = None, re_value_numeric = dbl_zero,
      re_value_min = dbl_zero, re_value_max = dbl_zero\<rparr>"

text \<open>The queue of the parent: the context that holds it, when there is one.\<close>

definition dx_restriction_get_queue :: "store \<Rightarrow> ptr option \<Rightarrow> (status \<times> ptr option) option" where
  "dx_restriction_get_queue s context =
     (case context of None \<Rightarrow> Some (INVALID_ARGUMENT, None)
      | Some p \<Rightarrow> do {
          c \<leftarrow> ctxs s p;
          pt \<leftarrow> dc_context_type s (cx_parent c);
          if pt = CT_KEYVAL \<or> pt = CT_SECTION then do {
            q \<leftarrow> cx_parent c;
            _ \<leftarrow> get_queue RESTRICTION_QUEUE s q;
            Some (OK, Some q) }
          else Some (WRONG_VALUE_TYPE, None) })"

section \<open>Reading and writing a restriction\<close>

text \<open>The checks every accessor starts with, and the restriction it works on.\<close>

definition restriction_guard :: "ptr option \<Rightarrow> bool \<Rightarrow> store \<Rightarrow> (status \<times> ptr option \<times> store) option" where
  "restriction_guard context args_ok s = do {
     (status, s) \<leftarrow> dx_context_sp_full_check context s;
     if status \<noteq> OK then Some (status, None, s)
     else if \<not> args_ok then Some (INVALID_ARGUMENT, None, s)
     else do {
       p \<leftarrow> context;
       status \<leftarrow> dx_context_type_check p [CT_RESTRICTION] s;
       Some (status, if status = OK then Some p else None, s) } }"

definition dc_get_restriction_type :: "ptr option \<Rightarrow> store \<Rightarrow> (status \<times> restriction_type option \<times> store) option" where
  "dc_get_restriction_type context s = do {
     (status, ok, s) \<leftarrow> restriction_guard context True s;
     case ok of None \<Rightarrow> Some (status, None, s)
     | Some p \<Rightarrow> do { r \<leftarrow> get_restriction s p; Some (OK, Some (re_type r), s) } }"

definition dc_set_restriction_type :: "ptr option \<Rightarrow> restriction_type \<Rightarrow> store \<Rightarrow> (status \<times> store) option" where
  "dc_set_restriction_type context type s = do {
     (status, ok, s) \<leftarrow> restriction_guard context True s;
     case ok of None \<Rightarrow> Some (status, s)
     | Some p \<Rightarrow> do {
         c \<leftarrow> ctxs s p;
         if finalized c then do {
           s \<leftarrow> dx_context_error_set p ''cannot change restriction type after it is finalized.'' s;
           Some (CONTEXT_IN_WRONG_STATE, s) }
         else do {
           pt \<leftarrow> dc_context_type s (cx_parent c);
           if pt = CT_SECTION \<and> strcmp ''EXCLUSIVE'' (dc_restriction_group_type type) = 0 then do {
             s \<leftarrow> dx_context_error_set p ''cannot add exclusive restriction %s to SECTION.'' s;
             Some (WRONG_CONTEXT, s) }
           else do {
             deny \<leftarrow> (if type = EXC_VALUE_ENUM then do {
                        q \<leftarrow> cx_parent c; k \<leftarrow> get_keyval s q;
                        Some (if dv_type (kv_value k) \<noteq> VT_ENUM then WRONG_VALUE_TYPE else OK) }
                      else if type = EXC_VALUE_RANGE \<or> type = EXC_VALUE_NUMERIC then do {
                        q \<leftarrow> cx_parent c; k \<leftarrow> get_keyval s q;
                        Some (if dv_type (kv_value k) \<noteq> VT_INTEGER \<and> dv_type (kv_value k) \<noteq> VT_FLOAT
                              then WRONG_VALUE_TYPE else OK) }
                      else if type = RT_UNKNOWN then Some INVALID_ARGUMENT
                      else Some OK);
             if deny = WRONG_VALUE_TYPE then do {
               s \<leftarrow> dx_context_error_set p ''cannot set restriction %s on %s KEYVAL.'' s;
               Some (deny, s) }
             else if deny \<noteq> OK then Some (deny, s)
             else do {
               r \<leftarrow> get_restriction s p;
               s \<leftarrow> set_obj p (ORestriction (r\<lparr>re_type := type\<rparr>)) s;
               Some (OK, s) } } } } }"

definition dc_restriction_get_string :: "ptr option \<Rightarrow> store \<Rightarrow> (status \<times> string option option \<times> store) option" where
  "dc_restriction_get_string context s = do {
     (status, ok, s) \<leftarrow> restriction_guard context True s;
     case ok of None \<Rightarrow> Some (status, None, s)
     | Some p \<Rightarrow> do {
         r \<leftarrow> get_restriction s p;
         if re_type r = EXC_VALUE_ENUM then Some (OK, Some (re_value_string r), s)
         else do {
           s \<leftarrow> dx_context_error_set p ''cannot get string on restriction type %s.'' s;
           Some (WRONG_VALUE_TYPE, None, s) } } }"

definition dc_restriction_set_string :: "ptr option \<Rightarrow> string option \<Rightarrow> store \<Rightarrow> (status \<times> store) option" where
  "dc_restriction_set_string context value s = do {
     (status, ok, s) \<leftarrow> restriction_guard context (value \<noteq> None) s;
     case ok of None \<Rightarrow> Some (status, s)
     | Some p \<Rightarrow> do {
         r \<leftarrow> get_restriction s p;
         v \<leftarrow> value;
         if re_type r = EXC_VALUE_ENUM then do {
           s \<leftarrow> set_obj p (ORestriction (r\<lparr>re_value_string := Some (cstr v)\<rparr>)) s;
           Some (OK, s) }
         else do {
           s \<leftarrow> dx_context_error_set p ''cannot set string on restriction type %s.'' s;
           Some (WRONG_VALUE_TYPE, s) } } }"

text \<open>A number of an integer keyval is cut to an \<^verbatim>\<open>int64_t\<close> and stored as a double again.\<close>

definition via_int64 :: "double \<Rightarrow> double option" where
  "via_int64 d = map_option dbl_of_int (dbl_to_int64 d)"

definition dc_restriction_set_range :: "ptr option \<Rightarrow> double \<Rightarrow> double \<Rightarrow> store \<Rightarrow> (status \<times> store) option" where
  "dc_restriction_set_range context mn mx s = do {
     (status, ok, s) \<leftarrow> restriction_guard context True s;
     case ok of None \<Rightarrow> Some (status, s)
     | Some p \<Rightarrow> do {
         r \<leftarrow> get_restriction s p;
         if re_type r = EXC_VALUE_RANGE then do {
           c \<leftarrow> ctxs s p;
           vt \<leftarrow> dc_value_type s (cx_parent c);
           (mn, mx) \<leftarrow> (if vt = VT_INTEGER then do { a \<leftarrow> via_int64 mn; b \<leftarrow> via_int64 mx; Some (a, b) }
                        else Some (mn, mx));
           s \<leftarrow> set_obj p (ORestriction (r\<lparr>re_value_min := mn, re_value_max := mx\<rparr>)) s;
           Some (OK, s) }
         else do {
           s \<leftarrow> dx_context_error_set p ''cannot set range on restriction type %s.'' s;
           Some (WRONG_VALUE_TYPE, s) } } }"

definition dc_restriction_get_range :: "ptr option \<Rightarrow> store \<Rightarrow> (status \<times> (double \<times> double) option \<times> store) option" where
  "dc_restriction_get_range context s = do {
     (status, ok, s) \<leftarrow> restriction_guard context True s;
     case ok of None \<Rightarrow> Some (status, None, s)
     | Some p \<Rightarrow> do {
         r \<leftarrow> get_restriction s p;
         if re_type r = EXC_VALUE_RANGE then Some (OK, Some (re_value_min r, re_value_max r), s)
         else do {
           s \<leftarrow> dx_context_error_set p ''cannot get range from restriction type %s.'' s;
           Some (WRONG_VALUE_TYPE, None, s) } } }"

definition dc_restriction_set_numeric :: "ptr option \<Rightarrow> double \<Rightarrow> store \<Rightarrow> (status \<times> store) option" where
  "dc_restriction_set_numeric context value s = do {
     (status, ok, s) \<leftarrow> restriction_guard context True s;
     case ok of None \<Rightarrow> Some (status, s)
     | Some p \<Rightarrow> do {
         c \<leftarrow> ctxs s p;
         vt \<leftarrow> dc_value_type s (cx_parent c);
         value \<leftarrow> (if vt = VT_INTEGER then via_int64 value else Some value);
         r \<leftarrow> get_restriction s p;
         if re_type r = EXC_VALUE_NUMERIC then do {
           s \<leftarrow> set_obj p (ORestriction (r\<lparr>re_value_numeric := value\<rparr>)) s; Some (OK, s) }
         else if re_type r = INC_ENTRY_MIN then do {
           s \<leftarrow> set_obj p (ORestriction (r\<lparr>re_value_min := value\<rparr>)) s; Some (OK, s) }
         else if re_type r = INC_ENTRY_MAX then do {
           s \<leftarrow> set_obj p (ORestriction (r\<lparr>re_value_max := value\<rparr>)) s; Some (OK, s) }
         else do {
           s \<leftarrow> dx_context_error_set p ''cannot set numeric on restriction type %s.'' s;
           Some (WRONG_VALUE_TYPE, s) } } }"

definition dc_restriction_get_numeric :: "ptr option \<Rightarrow> store \<Rightarrow> (status \<times> double option \<times> store) option" where
  "dc_restriction_get_numeric context s = do {
     (status, ok, s) \<leftarrow> restriction_guard context True s;
     case ok of None \<Rightarrow> Some (status, None, s)
     | Some p \<Rightarrow> do {
         r \<leftarrow> get_restriction s p;
         if re_type r = EXC_VALUE_NUMERIC then Some (OK, Some (re_value_numeric r), s)
         else if re_type r = INC_ENTRY_MIN then Some (OK, Some (re_value_min r), s)
         else if re_type r = INC_ENTRY_MAX then Some (OK, Some (re_value_max r), s)
         else do {
           s \<leftarrow> dx_context_error_set p ''cannot get numeric value from restriction type %s'' s;
           Some (WRONG_VALUE_TYPE, None, s) } } }"

section \<open>The exclusive check\<close>

text \<open>
  The value as the check compares it: a double for an integer or float keyval, none for an
  enum, whose string is compared. A restriction that compares what there is not is a fault.
\<close>

definition skip_exclusive :: "version \<Rightarrow> disir_restriction \<Rightarrow> bool" where
  "skip_exclusive config_version r \<longleftrightarrow>
     re_type r = INC_ENTRY_MIN \<or> re_type r = INC_ENTRY_MAX \<or>
     dc_version_compare config_version (re_introduced r) < 0 \<or>
     ((sv_major (re_deprecated r) \<noteq> 0 \<or> sv_minor (re_deprecated r) \<noteq> 0) \<and>
      0 \<le> dc_version_compare config_version (re_deprecated r))"

definition exclusive_accepts :: "double option \<Rightarrow> string option \<Rightarrow> disir_restriction \<Rightarrow> bool option" where
  "exclusive_accepts value string_value r =
     (case re_type r of
        EXC_VALUE_RANGE \<Rightarrow> do { v \<leftarrow> value; Some (dbl_le (re_value_min r) v \<and> dbl_le v (re_value_max r)) }
      | EXC_VALUE_NUMERIC \<Rightarrow> do { v \<leftarrow> value; Some (dbl_eq v (re_value_numeric r)) }
      | EXC_VALUE_ENUM \<Rightarrow> do {
          a \<leftarrow> string_value;
          b \<leftarrow> re_value_string r;
          Some (strcmp a b = 0) }
      | _ \<Rightarrow> Some False)"

text \<open>
  What a restriction prints into the buffer of allowed values: whether anything, and nothing at
  all when a bound of an integer keyval does not fit into an \<^verbatim>\<open>int64_t\<close>. Nothing is
  printed for a restriction of another type; it is logged and accepts no value.
\<close>

definition prints_allowed :: "value_type \<Rightarrow> disir_restriction \<Rightarrow> bool option" where
  "prints_allowed vt r =
     (case re_type r of
        EXC_VALUE_RANGE \<Rightarrow>
          if vt = VT_INTEGER then do {
            _ \<leftarrow> dbl_to_int64 (re_value_min r);
            _ \<leftarrow> dbl_to_int64 (re_value_max r);
            Some True }
          else Some (vt = VT_FLOAT)
      | EXC_VALUE_NUMERIC \<Rightarrow>
          if vt = VT_INTEGER then do { _ \<leftarrow> dbl_to_int64 (re_value_numeric r); Some True }
          else Some (vt = VT_FLOAT)
      | EXC_VALUE_ENUM \<Rightarrow> Some True
      | _ \<Rightarrow> Some False)"

text \<open>
  The loop over the queue: whether one is fulfilled, how many are inactive, and whether the
  buffer of allowed values was written.
\<close>

fun exclusive_loop :: "store \<Rightarrow> version \<Rightarrow> value_type \<Rightarrow> double option \<Rightarrow> string option \<Rightarrow> ptr list \<Rightarrow>
    bool \<Rightarrow> nat \<Rightarrow> bool \<Rightarrow> (bool \<times> nat \<times> bool) option" where
  "exclusive_loop s v vt value string_value [] fulfilled inactive written = Some (fulfilled, inactive, written)"
| "exclusive_loop s v vt value string_value (e # es) fulfilled inactive written = do {
     r \<leftarrow> get_restriction s e;
     if skip_exclusive v r then exclusive_loop s v vt value string_value es fulfilled (inactive + 1) written
     else do {
       printed \<leftarrow> prints_allowed vt r;
       ok \<leftarrow> exclusive_accepts value string_value r;
       exclusive_loop s v vt value string_value es (fulfilled \<or> ok) inactive (written \<or> printed) } }"

definition dx_restriction_exclusive_value_check ::
  "ptr \<Rightarrow> 64 word \<Rightarrow> double \<Rightarrow> string option \<Rightarrow> store \<Rightarrow> (status \<times> store) option" where
  "dx_restriction_exclusive_value_check p integer_value float_value string_value s = do {
     c \<leftarrow> ctxs s p;
     rt \<leftarrow> dc_context_type s (cx_root c);
     if rt \<noteq> CT_CONFIG then Some (OK, s)
     else do {
       vt \<leftarrow> dc_value_type s (Some p);
       if vt \<notin> {VT_INTEGER, VT_FLOAT, VT_ENUM} then Some (INTERNAL_ERROR, s)
       else do {
         let value = (if vt = VT_INTEGER then Some (dbl_of_int (sint integer_value))
                      else if vt = VT_FLOAT then Some float_value else None);
         k \<leftarrow> get_keyval s p;
         q \<leftarrow> kv_mold_equiv k;
         m \<leftarrow> get_keyval s q;
         root \<leftarrow> cx_root c;
         g \<leftarrow> get_config s root;
         let queue = kv_restrictions_queue m;
         (fulfilled, inactive, written) \<leftarrow>
            exclusive_loop s (cf_version g) vt value string_value queue False 0 False;
         if \<not> fulfilled \<and> inactive < length queue then do {
           _ \<leftarrow> (if written then Some () else None);
           s \<leftarrow> dx_context_error_set p
                (if vt = VT_INTEGER then ''No exclusive restrictions fulfilled for value %lld. Must be one of: %s''
                 else if vt = VT_FLOAT then ''No exclusive restrictions fulfilled for value %f. Must be one of: %s''
                 else ''No exclusive restrictions fulfilled for value %s. Must be one of: %s'') s;
           Some (RESTRICTION_VIOLATED, s) }
         else if \<not> fulfilled \<and> vt = VT_ENUM \<and> length queue = inactive then do {
           s \<leftarrow> dx_context_error_set p ''Enum requires atleast one value restriction.'' s;
           Some (RESTRICTION_VIOLATED, s) }
         else Some (OK, s) } } }"

section \<open>The entries an inclusive restriction allows\<close>

text \<open>The lowest introduced version of the defaults of a keyval.\<close>

fun lowest_default :: "store \<Rightarrow> ptr list \<Rightarrow> version option \<Rightarrow> version option option" where
  "lowest_default s [] low = Some low"
| "lowest_default s (d # ds) low = do {
     x \<leftarrow> get_default s d;
     lowest_default s ds
       (case low of None \<Rightarrow> Some (de_introduced x)
        | Some v \<Rightarrow> if dc_version_compare (de_introduced x) v < 0 then Some (de_introduced x) else Some v) }"

text \<open>
  The loop over the restrictions: the minimum and maximum found, with the version difference
  each was found at.
\<close>

fun entries_loop :: "store \<Rightarrow> version \<Rightarrow> ptr list \<Rightarrow> int \<Rightarrow> int \<Rightarrow> int \<Rightarrow> int \<Rightarrow> (int \<times> int) option" where
  "entries_loop s v [] mn mn_diff mx mx_diff = Some (mn, mx)"
| "entries_loop s v (e # es) mn mn_diff mx mx_diff = do {
     r \<leftarrow> get_restriction s e;
     let diff = dc_version_compare (re_introduced r) v;
     if re_type r = INC_ENTRY_MIN \<and> diff \<le> 0 \<and> mn_diff < diff then do {
       x \<leftarrow> dbl_to_int32 (re_value_min r);
       entries_loop s v es x diff mx mx_diff }
     else if re_type r = INC_ENTRY_MAX \<and> diff \<le> 0 \<and> mx_diff < diff then do {
       x \<leftarrow> dbl_to_int32 (re_value_max r);
       entries_loop s v es mn mn_diff x diff }
     else entries_loop s v es mn mn_diff mx mx_diff }"

definition entries_bounds :: "int \<Rightarrow> int \<Rightarrow> int \<times> int" where
  "entries_bounds mn mx =
     (let mx = (if mx \<noteq> 0 \<and> mx < mn then mn else mx);
          mx = (if mx = -1 then 1 else mx);
          mn = (if mn = -1 then 1 else mn)
      in (mn, mx))"

definition dx_restriction_entries_value ::
  "ptr \<Rightarrow> restriction_type \<Rightarrow> version option \<Rightarrow> store \<Rightarrow> (status \<times> int option) option" where
  "dx_restriction_entries_value p type version s = do {
     status \<leftarrow> dx_context_type_check p [CT_SECTION, CT_KEYVAL] s;
     if status \<noteq> OK then Some (status, None)
     else if type \<noteq> INC_ENTRY_MAX \<and> type \<noteq> INC_ENTRY_MIN then Some (INTERNAL_ERROR, None)
     else do {
       c \<leftarrow> ctxs s p;
       t \<leftarrow> dc_context_type s (Some p);
       rt \<leftarrow> dc_context_type s (cx_root c);
       (queue, introduced, deprecated) \<leftarrow>
         (if t = CT_SECTION then do {
            n \<leftarrow> get_section s p;
            m \<leftarrow> (if rt = CT_CONFIG then do { q \<leftarrow> se_mold_equiv n; get_section s q } else Some n);
            Some (se_restrictions_queue m, Some (se_introduced m), se_deprecated m) }
          else do {
            k \<leftarrow> get_keyval s p;
            m \<leftarrow> (if rt = CT_CONFIG then do { q \<leftarrow> kv_mold_equiv k; get_keyval s q } else Some k);
            low \<leftarrow> lowest_default s (kv_default_queue m) None;
            Some (kv_restrictions_queue m, low, kv_deprecated m) });
       v \<leftarrow> (case version of Some v \<Rightarrow> Some v
            | None \<Rightarrow> do {
                root \<leftarrow> cx_root c;
                if rt = CT_CONFIG then dc_config_get_version root s else dc_mold_get_version root s });
       (mn, mx) \<leftarrow> entries_loop s v queue (-1) INT_MIN (-1) INT_MIN;
       let (mn, mx) = entries_bounds mn mx;
       let late = (case introduced of None \<Rightarrow> False | Some i \<Rightarrow> dc_version_compare i v > 0);
       let gone = ((sv_major deprecated \<noteq> 0 \<or> sv_minor deprecated \<noteq> 0) \<and>
                   dc_version_compare deprecated v \<le> 0);
       let (mn, mx) = (if late \<or> gone then (0, -1) else (mn, mx));
       Some (OK, Some (if type = INC_ENTRY_MAX then mx else mn)) } }"

definition dc_restriction_entries_minimum :: "ptr \<Rightarrow> store \<Rightarrow> (status \<times> int option) option" where
  "dc_restriction_entries_minimum p s = dx_restriction_entries_value p INC_ENTRY_MIN None s"

definition dc_restriction_entries_maximum :: "ptr \<Rightarrow> store \<Rightarrow> (status \<times> int option) option" where
  "dc_restriction_entries_maximum p s = dx_restriction_entries_value p INC_ENTRY_MAX None s"

definition dc_restriction_collection :: "ptr option \<Rightarrow> store \<Rightarrow>
    (status \<times> disir_collection option \<times> store) option" where
  "dc_restriction_collection context s = do {
     (status, s) \<leftarrow> dx_context_sp_full_check context s;
     if status \<noteq> OK then Some (status, None, s)
     else do {
       p \<leftarrow> context;
       status \<leftarrow> dx_context_type_check p [CT_SECTION, CT_KEYVAL] s;
       if status \<noteq> OK then Some (status, None, s)
       else do {
         c \<leftarrow> ctxs s p;
         t \<leftarrow> dc_context_type s (Some p);
         rt \<leftarrow> dc_context_type s (cx_root c);
         owner \<leftarrow> (if rt \<noteq> CT_CONFIG then Some p
                  else if t = CT_SECTION then do { n \<leftarrow> get_section s p; se_mold_equiv n }
                  else do { k \<leftarrow> get_keyval s p; kv_mold_equiv k });
         queue \<leftarrow> get_queue RESTRICTION_QUEUE s owner;
         (_, col, s) \<leftarrow> push_contexts dc_collection_create queue s;
         (n, cr, s) \<leftarrow> dc_collection_size (Some col) s;
         if n = 0 then do {
           (_, s) \<leftarrow> dc_collection_finished cr s;
           Some (NOT_EXIST, None, s) }
         else Some (OK, cr, s) } } }"

section \<open>How the heap evolves\<close>

lemma evolves_restriction_guard [evolving]:
  "restriction_guard context args_ok s = Some (r1, r2, s') \<Longrightarrow> evolves s0 s \<Longrightarrow> evolves s0 s'"
  unfolding restriction_guard_def
  by (elim do_elims Pair_inject; ((hypsubst)+)?; (assumption | erule evolving | rule tame_updates)+)

lemma evolves_dc_get_restriction_type_etc [evolving]:
  "dc_get_restriction_type context s = Some (r1, r2, s') \<Longrightarrow> evolves s0 s \<Longrightarrow> evolves s0 s'"
  "dc_set_restriction_type context1 type1 s = Some (r_11, s') \<Longrightarrow> evolves s0 s \<Longrightarrow> evolves s0 s'"
  "dc_restriction_get_string context2 s = Some (r_12, r_22, s') \<Longrightarrow> evolves s0 s \<Longrightarrow> evolves s0 s'"
  "dc_restriction_set_string context3 value3 s = Some (r_13, s') \<Longrightarrow> evolves s0 s \<Longrightarrow> evolves s0 s'"
  "dc_restriction_set_range context4 mn4 mx4 s = Some (r_14, s') \<Longrightarrow> evolves s0 s \<Longrightarrow> evolves s0 s'"
  "dc_restriction_get_range context5 s = Some (r_15, r_25, s') \<Longrightarrow> evolves s0 s \<Longrightarrow> evolves s0 s'"
  unfolding dc_get_restriction_type_def dc_set_restriction_type_def dc_restriction_get_string_def dc_restriction_set_string_def dc_restriction_set_range_def dc_restriction_get_range_def
  by (elim do_elims Pair_inject; ((hypsubst)+)?; (assumption | erule evolving | rule tame_updates)+)+

lemma evolves_dc_restriction_set_numeric_etc [evolving]:
  "dc_restriction_set_numeric context value s = Some (r1, s') \<Longrightarrow> evolves s0 s \<Longrightarrow> evolves s0 s'"
  "dc_restriction_get_numeric context1 s = Some (r_11, r_21, s') \<Longrightarrow> evolves s0 s \<Longrightarrow> evolves s0 s'"
  "dx_restriction_exclusive_value_check p2 integer_value2 float_value2 string_value2 s = Some (r_12, s') \<Longrightarrow> evolves s0 s \<Longrightarrow> evolves s0 s'"
  "dc_restriction_collection context3 s = Some (r_13, r_23, s') \<Longrightarrow> evolves s0 s \<Longrightarrow> evolves s0 s'"
  unfolding dc_restriction_set_numeric_def dc_restriction_get_numeric_def dx_restriction_exclusive_value_check_def dc_restriction_collection_def
  by (elim do_elims Pair_inject; ((hypsubst)+)?; (assumption | erule evolving | rule tame_updates)+)+

end
