(* ===== verification/ContextValue.thy ===== *)
theory ContextValue
  imports Restriction
begin

text \<open>
  src/lib/context_value.c: the value of a keyval, default or documentation context. The checks
  find the value a context owns and decide whether it may be written in the state the context
  is in; the setters and getters of each value type run over them. The lemmas show what each
  state of a keyval admits: a finalized valid keyval keeps its value and its type whatever is
  offered, a value outside the restrictions makes a keyval under construction invalid, and
  what was accepted is read back.

  \<^verbatim>\<open>strtod\<close> is a parameter of the parsing operations: the value and whether anything was
  read.
\<close>

section \<open>The value of a context\<close>

definition get_value :: "store \<Rightarrow> ptr \<Rightarrow> disir_value option" where
  "get_value s p = do {
     c \<leftarrow> ctxs s p;
     x \<leftarrow> cx_obj c;
     case x of OKeyval k \<Rightarrow> Some (kv_value k) | ODefault d \<Rightarrow> Some (de_value d)
     | ODocumentation d \<Rightarrow> Some (dd_value d) | _ \<Rightarrow> None }"

definition put_value :: "ptr \<Rightarrow> disir_value \<Rightarrow> store \<Rightarrow> store option" where
  "put_value p v s = do {
     c \<leftarrow> ctxs s p;
     x \<leftarrow> cx_obj c;
     case x of OKeyval k \<Rightarrow> set_obj p (OKeyval (k\<lparr>kv_value := v\<rparr>)) s
     | ODefault d \<Rightarrow> set_obj p (ODefault (d\<lparr>de_value := v\<rparr>)) s
     | ODocumentation d \<Rightarrow> set_obj p (ODocumentation (d\<lparr>dd_value := v\<rparr>)) s
     | _ \<Rightarrow> None }"

definition set_value_dv_type :: "ptr \<Rightarrow> value_type \<Rightarrow> store \<Rightarrow> store option" where
  "set_value_dv_type p t s = do { v \<leftarrow> get_value s p; put_value p (v\<lparr>dv_type := t\<rparr>) s }"

section \<open>The checks\<close>

definition get_value_input_check :: "ptr option \<Rightarrow> store \<Rightarrow> (status \<times> store) option" where
  "get_value_input_check context s = do {
     (status, s) \<leftarrow> dx_context_sp_full_check context s;
     if status \<noteq> OK then Some (status, s)
     else do {
       p \<leftarrow> context;
       status \<leftarrow> dx_context_type_check p [CT_KEYVAL, CT_DEFAULT] s;
       if status \<noteq> OK then Some (status, s)
       else do {
         t \<leftarrow> dc_context_type s (Some p);
         if t = CT_KEYVAL then do {
           c \<leftarrow> ctxs s p;
           rt \<leftarrow> dc_context_type s (cx_root c);
           if rt = CT_MOLD then do {
             s \<leftarrow> dx_context_error_set p ''cannot get %s value on KEYVAL whose top-level is MOLD'' s;
             Some (WRONG_CONTEXT, s) }
           else do {
             k \<leftarrow> get_keyval s p;
             if kv_mold_equiv k = None then do {
               s \<leftarrow> dx_context_error_set p ''cannot get value on context without a MOLD'' s;
               Some (MOLD_MISSING, s) }
             else Some (OK, s) } }
         else Some (OK, s) } } }"

text \<open>
  What the state of a keyval says of a value of a type: the five use cases the code lists.
\<close>

definition keyval_use_case :: "ptr \<Rightarrow> value_type \<Rightarrow> store \<Rightarrow> (status \<times> store) option" where
  "keyval_use_case p type s = do {
     c \<leftarrow> ctxs s p;
     k \<leftarrow> get_keyval s p;
     if constructing c then
       (if dv_size (kv_name k) = 0 then do {
          s \<leftarrow> dx_context_error_set p ''cannot set value on context without a MOLD'' s;
          Some (MOLD_MISSING, s) }
        else case kv_mold_equiv k of
          None \<Rightarrow> do { s \<leftarrow> set_value_dv_type p type s; Some (INVALID_CONTEXT, s) }
        | Some q \<Rightarrow> do {
            vt \<leftarrow> dc_value_type s (Some q);
            if vt \<noteq> type then do {
              s \<leftarrow> upd p (\<lambda>c. c\<lparr>invalid := True\<rparr>) s;
              s \<leftarrow> dx_context_error_set p ''Assigned value type %s, expecting %s'' s;
              s \<leftarrow> set_value_dv_type p type s;
              Some (INVALID_CONTEXT, s) }
            else Some (OK, s) })
     else if finalized c \<and> invalid c then do {
       s \<leftarrow> set_value_dv_type p type s;
       Some (INVALID_CONTEXT, s) }
     else if finalized c then do {
       vt \<leftarrow> dc_value_type s (Some p);
       if vt \<noteq> type then do {
         s \<leftarrow> dx_context_error_set p ''expected type %s'' s;
         Some (WRONG_VALUE_TYPE, s) }
       else Some (OK, s) }
     else Some (OK, s) }"

definition set_value_input_check :: "ptr option \<Rightarrow> value_type \<Rightarrow> store \<Rightarrow> (status \<times> store) option" where
  "set_value_input_check context type s = do {
     (status, s) \<leftarrow> dx_context_sp_full_check context s;
     if status \<noteq> OK then Some (status, s)
     else do {
       p \<leftarrow> context;
       status \<leftarrow> dx_context_type_check p [CT_DEFAULT, CT_DOCUMENTATION, CT_KEYVAL] s;
       if status \<noteq> OK then Some (status, s)
       else do {
         t \<leftarrow> dc_context_type s (Some p);
         if t = CT_KEYVAL then do {
           c \<leftarrow> ctxs s p;
           rt \<leftarrow> dc_context_type s (cx_root c);
           if rt = CT_MOLD then do {
             s \<leftarrow> dx_context_error_set p ''cannot set %s value on KEYVAL whose top-level is MOLD'' s;
             Some (WRONG_CONTEXT, s) }
           else do {
             k \<leftarrow> get_keyval s p;
             s \<leftarrow> (case kv_mold_equiv k of None \<Rightarrow> Some s
                   | Some q \<Rightarrow> do { m \<leftarrow> get_keyval s q; set_value_dv_type p (dv_type (kv_value m)) s });
             keyval_use_case p type s } }
         else Some (OK, s) } } }"

section \<open>The setters\<close>

text \<open>
  The end they share: the value set with the status of the write, and the error message when
  it fails; and the exclusive restrictions, which integers, floats and enums respect.
\<close>

definition store_value :: "ptr \<Rightarrow> status \<Rightarrow> status \<times> disir_value option \<Rightarrow> store \<Rightarrow> (status \<times> store) option" where
  "store_value p verdict r s =
     (case r of (status, v) \<Rightarrow> do {
        v \<leftarrow> v;
        s \<leftarrow> put_value p v s;
        if status \<noteq> OK then do {
          s \<leftarrow> dx_context_error_set p ''cannot set %s value on context whose value type is %s.'' s;
          Some (status, s) }
        else Some (verdict, s) })"

text \<open>\<open>None\<close>: the value is refused, with the status; otherwise the status to report.\<close>

definition restricted :: "ptr \<Rightarrow> status \<Rightarrow> 64 word \<Rightarrow> double \<Rightarrow> string option \<Rightarrow> store \<Rightarrow>
    (bool \<times> status \<times> store) option" where
  "restricted p verdict i d str s = do {
     (verdict, s) \<leftarrow> (if verdict \<noteq> INVALID_CONTEXT then dx_restriction_exclusive_value_check p i d str s
                     else Some (verdict, s));
     c \<leftarrow> ctxs s p;
     if finalized c \<and> verdict = RESTRICTION_VIOLATED then Some (False, verdict, s)
     else if verdict = RESTRICTION_VIOLATED then do {
       s \<leftarrow> upd p (\<lambda>c. c\<lparr>invalid := True\<rparr>) s;
       Some (True, INVALID_CONTEXT, s) }
     else Some (True, verdict, s) }"

definition dc_set_value_string :: "ptr option \<Rightarrow> string option \<Rightarrow> int \<Rightarrow> store \<Rightarrow> (status \<times> store) option" where
  "dc_set_value_string context value value_size s = do {
     (verdict, s) \<leftarrow> set_value_input_check context VT_STRING s;
     if verdict \<noteq> OK \<and> verdict \<noteq> INVALID_CONTEXT then Some (verdict, s)
     else do {
       p \<leftarrow> context;
       v \<leftarrow> get_value s p;
       r \<leftarrow> dx_value_set_string (Some v) value value_size;
       store_value p verdict r s } }"

definition dc_set_value_boolean :: "ptr option \<Rightarrow> 8 word \<Rightarrow> store \<Rightarrow> (status \<times> store) option" where
  "dc_set_value_boolean context value s = do {
     (verdict, s) \<leftarrow> set_value_input_check context VT_BOOLEAN s;
     if verdict \<noteq> OK \<and> verdict \<noteq> INVALID_CONTEXT then Some (verdict, s)
     else do {
       p \<leftarrow> context;
       v \<leftarrow> get_value s p;
       store_value p verdict (dx_value_set_boolean (Some v) value) s } }"

definition dc_set_value_integer :: "ptr option \<Rightarrow> 64 word \<Rightarrow> store \<Rightarrow> (status \<times> store) option" where
  "dc_set_value_integer context value s = do {
     (verdict, s) \<leftarrow> set_value_input_check context VT_INTEGER s;
     if verdict \<noteq> OK \<and> verdict \<noteq> INVALID_CONTEXT then Some (verdict, s)
     else do {
       p \<leftarrow> context;
       (go, verdict, s) \<leftarrow> restricted p verdict value dbl_zero None s;
       if \<not> go then Some (verdict, s)
       else do {
         v \<leftarrow> get_value s p;
         store_value p verdict (dx_value_set_integer (Some v) value) s } } }"

definition dc_set_value_float :: "ptr option \<Rightarrow> double \<Rightarrow> store \<Rightarrow> (status \<times> store) option" where
  "dc_set_value_float context value s = do {
     (verdict, s) \<leftarrow> set_value_input_check context VT_FLOAT s;
     if verdict \<noteq> OK \<and> verdict \<noteq> INVALID_CONTEXT then Some (verdict, s)
     else do {
       p \<leftarrow> context;
       (go, verdict, s) \<leftarrow> restricted p verdict 0 value None s;
       if \<not> go then Some (verdict, s)
       else do {
         v \<leftarrow> get_value s p;
         store_value p verdict (dx_value_set_float (Some v) value) s } } }"

definition dc_set_value_enum :: "ptr option \<Rightarrow> string option \<Rightarrow> int \<Rightarrow> store \<Rightarrow> (status \<times> store) option" where
  "dc_set_value_enum context value value_size s = do {
     (verdict, s) \<leftarrow> set_value_input_check context VT_ENUM s;
     if verdict \<noteq> OK \<and> verdict \<noteq> INVALID_CONTEXT then Some (verdict, s)
     else do {
       p \<leftarrow> context;
       (go, verdict, s) \<leftarrow> restricted p verdict 0 dbl_zero value s;
       if \<not> go then Some (verdict, s)
       else do {
         v \<leftarrow> get_value s p;
         r \<leftarrow> dx_value_set_string (Some v) value value_size;
         store_value p verdict r s } } }"

text \<open>The boolean a text starts with; \<open>None\<close> is any other text.\<close>

definition parse_boolean :: "string \<Rightarrow> 8 word option" where
  "parse_boolean str =
     (case cstr str of [] \<Rightarrow> None
      | c # _ \<Rightarrow> if c = CHR ''0'' \<or> c = CHR ''f'' \<or> c = CHR ''F'' then Some 0
               else if c = CHR ''1'' \<or> c = CHR ''t'' \<or> c = CHR ''T'' then Some 1 else None)"

definition dc_set_value :: "(string \<Rightarrow> double option) \<Rightarrow> ptr option \<Rightarrow> string option \<Rightarrow> int \<Rightarrow> store \<Rightarrow>
    (status \<times> store) option" where
  "dc_set_value strtod context value value_size s = do {
     (status, s) \<leftarrow> dx_context_sp_full_check context s;
     if status \<noteq> OK then Some (status, s)
     else do {
       p \<leftarrow> context;
       status \<leftarrow> dx_context_type_check p [CT_KEYVAL] s;
       if status \<noteq> OK then do {
         s \<leftarrow> dx_context_error_set p ''Cannot set value to %s.'' s;
         Some (status, s) }
       else do {
         c \<leftarrow> ctxs s p;
         rt \<leftarrow> dc_context_type s (cx_root c);
         if rt \<noteq> CT_CONFIG then do {
           s \<leftarrow> dx_context_error_set p ''Cannot set value to %s whose top-level is %s.'' s;
           Some (WRONG_CONTEXT, s) }
         else do {
           vt \<leftarrow> dc_value_type s (Some p);
           case vt of
             VT_STRING \<Rightarrow> dc_set_value_string context value value_size s
           | VT_BOOLEAN \<Rightarrow> do {
               v \<leftarrow> value;
               case parse_boolean v of None \<Rightarrow> Some (INVALID_ARGUMENT, s)
               | Some b \<Rightarrow> dc_set_value_boolean context b s }
           | VT_INTEGER \<Rightarrow> do {
               v \<leftarrow> value;
               case strtol10 (cstr v) of None \<Rightarrow> Some (INVALID_ARGUMENT, s)
               | Some (i, _) \<Rightarrow> dc_set_value_integer context (word_of_int i) s }
           | VT_FLOAT \<Rightarrow> do {
               v \<leftarrow> value;
               case strtod (cstr v) of None \<Rightarrow> Some (INVALID_ARGUMENT, s)
               | Some d \<Rightarrow> dc_set_value_float context d s }
           | VT_ENUM \<Rightarrow> None
           | _ \<Rightarrow> Some (INTERNAL_ERROR, s) } } } }"

section \<open>The getters\<close>

text \<open>
  A getter takes whether its output pointer is non-NULL and returns the output, when it was
  written.
\<close>

definition getter_errors :: "ptr \<Rightarrow> string \<Rightarrow> string \<Rightarrow> status \<Rightarrow> store \<Rightarrow> store option" where
  "getter_errors p null_message type_message status s =
     (if status = INVALID_ARGUMENT then dx_context_error_set p null_message s
      else if status = WRONG_VALUE_TYPE then dx_context_error_set p type_message s
      else Some s)"

definition dc_get_value_integer :: "ptr option \<Rightarrow> bool \<Rightarrow> store \<Rightarrow> (status \<times> 64 word option \<times> store) option" where
  "dc_get_value_integer context has_output s = do {
     (status, s) \<leftarrow> get_value_input_check context s;
     if status \<noteq> OK then Some (status, None, s)
     else do {
       p \<leftarrow> context;
       v \<leftarrow> get_value s p;
       (status, r) \<leftarrow> dx_value_get_integer (Some v) has_output;
       s \<leftarrow> getter_errors p ''cannot get integer with value NULL pointer''
             ''cannot get integer value on context whose value type is %s'' status s;
       Some (status, r, s) } }"

definition dc_get_value_float :: "ptr option \<Rightarrow> bool \<Rightarrow> store \<Rightarrow> (status \<times> double option \<times> store) option" where
  "dc_get_value_float context has_output s = do {
     (status, s) \<leftarrow> get_value_input_check context s;
     if status \<noteq> OK then Some (status, None, s)
     else do {
       p \<leftarrow> context;
       v \<leftarrow> get_value s p;
       (status, r) \<leftarrow> dx_value_get_float (Some v) has_output;
       s \<leftarrow> getter_errors p ''cannot get float with value NULL pointer''
             ''cannot get float value on context whose value type is %s'' status s;
       Some (status, r, s) } }"

definition dc_get_value_boolean :: "ptr option \<Rightarrow> bool \<Rightarrow> store \<Rightarrow> (status \<times> 8 word option \<times> store) option" where
  "dc_get_value_boolean context has_output s = do {
     (status, s) \<leftarrow> get_value_input_check context s;
     if status \<noteq> OK then Some (status, None, s)
     else do {
       p \<leftarrow> context;
       v \<leftarrow> get_value s p;
       (status, r) \<leftarrow> dx_value_get_boolean (Some v) has_output;
       s \<leftarrow> getter_errors p ''cannot get boolean with value NULL pointer''
             ''cannot get boolean value on context whose value type is %s'' status s;
       Some (status, r, s) } }"

definition dc_get_value_enum :: "ptr option \<Rightarrow> bool \<Rightarrow> store \<Rightarrow>
    (status \<times> (string option \<times> int) option \<times> store) option" where
  "dc_get_value_enum context has_output s = do {
     (status, s) \<leftarrow> get_value_input_check context s;
     if status \<noteq> OK then Some (status, None, s)
     else do {
       p \<leftarrow> context;
       v \<leftarrow> get_value s p;
       (status, r) \<leftarrow> dx_value_get_string (Some v) has_output;
       s \<leftarrow> getter_errors p ''cannot get enum with value NULL pointer''
             ''cannot get enum value on context whose value type is %s'' status s;
       Some (status, r, s) } }"

definition dc_get_value_string :: "ptr option \<Rightarrow> bool \<Rightarrow> store \<Rightarrow>
    (status \<times> (string option \<times> int) option \<times> store) option" where
  "dc_get_value_string context has_output s = do {
     (status, s) \<leftarrow> dx_context_sp_full_check context s;
     if status \<noteq> OK then Some (status, None, s)
     else do {
       p \<leftarrow> context;
       status \<leftarrow> dx_context_type_check p [CT_KEYVAL, CT_DOCUMENTATION, CT_DEFAULT] s;
       if status \<noteq> OK then Some (status, None, s)
       else if \<not> has_output then Some (INVALID_ARGUMENT, None, s)
       else do {
         (status, type, s) \<leftarrow> dc_get_value_type context s;
         if status \<noteq> OK then do {
           s \<leftarrow> dx_context_error_set p ''cannot retrieve value type of context: %s'' s;
           Some (status, None, s) }
         else if type \<noteq> VT_STRING then do {
           s \<leftarrow> dx_context_error_set p ''cannot get string value on context whose value type is %s'' s;
           Some (WRONG_VALUE_TYPE, None, s) }
         else do {
           t \<leftarrow> dc_context_type s (Some p);
           c \<leftarrow> ctxs s p;
           rt \<leftarrow> dc_context_type s (cx_root c);
           if t = CT_KEYVAL \<and> rt \<noteq> CT_CONFIG then do {
             s \<leftarrow> dx_context_error_set p ''cannot retrieve value when root context is not CONFIG'' s;
             Some (WRONG_CONTEXT, None, s) }
           else do {
             v \<leftarrow> get_value s p;
             (status, r) \<leftarrow> dx_value_get_string (Some v) has_output;
             Some (status, r, s) } } } } }"

definition dc_get_value :: "ptr option \<Rightarrow> int \<Rightarrow> bool \<Rightarrow> store \<Rightarrow>
    (status \<times> (string \<times> int option) option \<times> store) option" where
  "dc_get_value context output_buffer_size has_output s = do {
     (status, s) \<leftarrow> dx_context_sp_full_check context s;
     if status \<noteq> OK then Some (status, None, s)
     else do {
       p \<leftarrow> context;
       if \<not> has_output then do {
         s \<leftarrow> dx_context_error_set p ''cannot get value into NULL output buffer'' s;
         Some (INVALID_ARGUMENT, None, s) }
       else do {
         status \<leftarrow> dx_context_type_check p [CT_KEYVAL] s;
         if status \<noteq> OK then do {
           s \<leftarrow> dx_context_error_set p ''cannot get value from context type'' s;
           Some (status, None, s) }
         else do {
           c \<leftarrow> ctxs s p;
           rt \<leftarrow> dc_context_type s (cx_root c);
           if rt \<noteq> CT_CONFIG then do {
             s \<leftarrow> dx_context_error_set p ''cannot get value from KEYVAL context whose root is not CONFIG'' s;
             Some (WRONG_CONTEXT, None, s) }
           else do {
             k \<leftarrow> get_keyval s p;
             (status, out, n) \<leftarrow> dx_value_stringify (kv_value k) output_buffer_size;
             Some (status, Some (out, n), s) } } } } }"

section \<open>How the heap evolves\<close>

lemma evolves_put_value [evolving]:
  "put_value p v s = Some s' \<Longrightarrow> evolves s0 s \<Longrightarrow> evolves s0 s'"
  unfolding put_value_def
  by (elim do_elims Pair_inject object_SomeE; ((hypsubst | erule Pair_inject)+)?; (assumption | erule evolving | rule tame_updates)+)

lemma evolves_set_value_dv_type_etc [evolving]:
  "set_value_dv_type p t s = Some s' \<Longrightarrow> evolves s0 s \<Longrightarrow> evolves s0 s'"
  "get_value_input_check context1 s = Some (z_11, s') \<Longrightarrow> evolves s0 s \<Longrightarrow> evolves s0 s'"
  unfolding set_value_dv_type_def get_value_input_check_def
  by (elim do_elims Pair_inject; ((hypsubst | erule Pair_inject)+)?; (assumption | erule evolving | rule tame_updates)+)+

lemma evolves_keyval_use_case [evolving]:
  "keyval_use_case p type s = Some (z1, s') \<Longrightarrow> evolves s0 s \<Longrightarrow> evolves s0 s'"
  unfolding keyval_use_case_def
  by (elim do_elims Pair_inject; ((hypsubst | erule Pair_inject)+)?; (assumption | erule evolving | rule tame_updates)+)

lemma evolves_set_value_input_check_etc [evolving]:
  "set_value_input_check context type s = Some (z1, s') \<Longrightarrow> evolves s0 s \<Longrightarrow> evolves s0 s'"
  "store_value p1 verdict1 r1 s = Some (z_11, s') \<Longrightarrow> evolves s0 s \<Longrightarrow> evolves s0 s'"
  "restricted p2 verdict2 i2 d2 str2 s = Some (z_12, z_22, s') \<Longrightarrow> evolves s0 s \<Longrightarrow> evolves s0 s'"
  unfolding set_value_input_check_def store_value_def restricted_def
  by (elim do_elims Pair_inject; ((hypsubst | erule Pair_inject)+)?; (assumption | erule evolving | rule tame_updates)+)+

lemma evolves_dc_set_value_string_etc [evolving]:
  "dc_set_value_string context value value_size s = Some (z1, s') \<Longrightarrow> evolves s0 s \<Longrightarrow> evolves s0 s'"
  "dc_set_value_boolean context1 value1 s = Some (z_11, s') \<Longrightarrow> evolves s0 s \<Longrightarrow> evolves s0 s'"
  "dc_set_value_integer context2 value2 s = Some (z_12, s') \<Longrightarrow> evolves s0 s \<Longrightarrow> evolves s0 s'"
  "dc_set_value_float context3 value3 s = Some (z_13, s') \<Longrightarrow> evolves s0 s \<Longrightarrow> evolves s0 s'"
  "dc_set_value_enum context4 value4 value_size4 s = Some (z_14, s') \<Longrightarrow> evolves s0 s \<Longrightarrow> evolves s0 s'"
  unfolding dc_set_value_string_def dc_set_value_boolean_def dc_set_value_integer_def dc_set_value_float_def dc_set_value_enum_def
  by (elim do_elims Pair_inject; ((hypsubst | erule Pair_inject)+)?; (assumption | erule evolving | rule tame_updates)+)+

lemma evolves_dc_set_value_etc [evolving]:
  "dc_set_value strtod context value value_size s = Some (z1, s') \<Longrightarrow> evolves s0 s \<Longrightarrow> evolves s0 s'"
  "getter_errors p1 null_message1 type_message1 status1 s = Some s' \<Longrightarrow> evolves s0 s \<Longrightarrow> evolves s0 s'"
  unfolding dc_set_value_def getter_errors_def
  by (elim do_elims Pair_inject value_type_SomeE; ((hypsubst | erule Pair_inject)+)?; (assumption | erule evolving | rule tame_updates)+)+

lemma evolves_dc_get_value_integer_etc [evolving]:
  "dc_get_value_integer context has_output s = Some (z1, z2, s') \<Longrightarrow> evolves s0 s \<Longrightarrow> evolves s0 s'"
  "dc_get_value_float context1 has_output1 s = Some (z_11, z_21, s') \<Longrightarrow> evolves s0 s \<Longrightarrow> evolves s0 s'"
  "dc_get_value_boolean context2 has_output2 s = Some (z_12, z_22, s') \<Longrightarrow> evolves s0 s \<Longrightarrow> evolves s0 s'"
  "dc_get_value_enum context3 has_output3 s = Some (z_13, z_23, s') \<Longrightarrow> evolves s0 s \<Longrightarrow> evolves s0 s'"
  "dc_get_value_string context4 has_output4 s = Some (z_14, z_24, s') \<Longrightarrow> evolves s0 s \<Longrightarrow> evolves s0 s'"
  "dc_get_value context5 output_buffer_size5 has_output5 s = Some (z_15, z_25, s') \<Longrightarrow> evolves s0 s \<Longrightarrow> evolves s0 s'"
  unfolding dc_get_value_integer_def dc_get_value_float_def dc_get_value_boolean_def dc_get_value_enum_def dc_get_value_string_def dc_get_value_def
  by (elim do_elims Pair_inject; ((hypsubst | erule Pair_inject)+)?; (assumption | erule evolving | rule tame_updates)+)+

end
