(* ===== verification/Mqueue.thy ===== *)
theory Mqueue
  imports Values
begin

text \<open>
  The queues of src/lib/include/mqueue.h as the lists of their entries, head first. The prev
  pointer of the head is the tail. An expression over \<^verbatim>\<open>entry\<close> is a function that may
  fault, since it reads through the entry. Enqueueing an entry that is already linked into the
  queue would close the queue into a cycle, which is a fault.

  The lemmas show that the conditional enqueue keeps a queue sorted by version, behind the
  entries of an equal version, and which entry is the active one at a version: the last whose
  version is not above it, or the head when all are above.
\<close>

section \<open>The operations\<close>

definition mq_head :: "'a list \<Rightarrow> 'a option" where
  "mq_head q = (case q of [] \<Rightarrow> None | x # _ \<Rightarrow> Some x)"

definition mq_tail :: "'a list \<Rightarrow> 'a option" where
  "mq_tail q = (if q = [] then None else Some (last q))"

definition mq_enqueue :: "'a \<Rightarrow> 'a list \<Rightarrow> 'a list option" where
  "mq_enqueue x q = (if x \<in> set q then None else Some (q @ [x]))"

fun mq_insert_before :: "('a \<Rightarrow> bool option) \<Rightarrow> 'a \<Rightarrow> 'a list \<Rightarrow> 'a list option" where
  "mq_insert_before expr x [] = Some [x]"
| "mq_insert_before expr x (e # q) = do {
     b \<leftarrow> expr e;
     if b then Some (x # e # q) else do { r \<leftarrow> mq_insert_before expr x q; Some (e # r) } }"

definition mq_enqueue_conditional :: "('a \<Rightarrow> bool option) \<Rightarrow> 'a \<Rightarrow> 'a list \<Rightarrow> 'a list option" where
  "mq_enqueue_conditional expr x q = (if x \<in> set q then None else mq_insert_before expr x q)"

text \<open>The position of the first entry that satisfies an expression.\<close>

fun mq_find :: "('a \<Rightarrow> bool option) \<Rightarrow> 'a list \<Rightarrow> nat option option" where
  "mq_find expr [] = Some None"
| "mq_find expr (e # q) = do {
     b \<leftarrow> expr e;
     if b then Some (Some 0) else do { r \<leftarrow> mq_find expr q; Some (map_option Suc r) } }"

fun mq_size_cond :: "('a \<Rightarrow> bool option) \<Rightarrow> 'a list \<Rightarrow> nat option" where
  "mq_size_cond expr [] = Some 0"
| "mq_size_cond expr (e # q) = do {
     b \<leftarrow> expr e;
     n \<leftarrow> mq_size_cond expr q;
     Some (if b then n + 1 else n) }"

definition mq_prev :: "'a list \<Rightarrow> nat \<Rightarrow> 'a" where
  "mq_prev q i = (if i = 0 then last q else q ! (i - 1))"

section \<open>The entry that is active at a version\<close>

text \<open>
  The search that the defaults and the documentation of a context share. The second argument
  reads the version an entry was introduced in.
\<close>

definition mq_active :: "version option \<Rightarrow> ('a \<Rightarrow> version option) \<Rightarrow> 'a list \<Rightarrow> 'a option option" where
  "mq_active version introduced q =
     (case version of None \<Rightarrow> Some (mq_tail q)
      | Some v \<Rightarrow> do {
          r \<leftarrow> mq_find (\<lambda>e. map_option (\<lambda>w. dc_version_compare w v > 0) (introduced e)) q;
          Some (case r of None \<Rightarrow> mq_tail q
                | Some i \<Rightarrow> if Some (mq_prev q i) \<noteq> mq_tail q then Some (mq_prev q i)
                            else Some (q ! i)) })"

definition mq_enqueue_version :: "version \<Rightarrow> ('a \<Rightarrow> version option) \<Rightarrow> 'a \<Rightarrow> 'a list \<Rightarrow> 'a list option" where
  "mq_enqueue_version v introduced x q =
     mq_enqueue_conditional (\<lambda>e. map_option (\<lambda>w. dc_version_compare w v > 0) (introduced e)) x q"

definition mq_count_version :: "version \<Rightarrow> ('a \<Rightarrow> version option) \<Rightarrow> 'a list \<Rightarrow> nat option" where
  "mq_count_version v introduced q =
     mq_size_cond (\<lambda>e. map_option (\<lambda>w. dc_version_compare w v = 0) (introduced e)) q"

section \<open>What the version queues do\<close>

text \<open>
  \<open>versions_are f introduced q\<close>: every entry of the queue can be read, its version is the one
  \<open>f\<close> gives, and it is in the range the comparison is exact on.
\<close>

definition versions_are :: "('a \<Rightarrow> version) \<Rightarrow> ('a \<Rightarrow> version option) \<Rightarrow> 'a list \<Rightarrow> bool" where
  "versions_are f introduced q \<longleftrightarrow> (\<forall>e \<in> set q. introduced e = Some (f e) \<and> small_version (f e))"

lemma versions_are_simps [simp]:
  "versions_are f introduced []"
  "versions_are f introduced (e # q) \<longleftrightarrow>
     introduced e = Some (f e) \<and> small_version (f e) \<and> versions_are f introduced q"
  by (auto simp: versions_are_def)

lemma mq_count_version_eq:
  "versions_are f introduced q \<Longrightarrow>
     mq_count_version v introduced q = Some (length (filter (\<lambda>e. f e = v) q))"
  by (induction q) (auto simp: mq_count_version_def)

lemma mq_insert_version:
  assumes "versions_are f introduced q" and "small_version v"
  shows "mq_insert_before (\<lambda>e. map_option (\<lambda>w. dc_version_compare w v > 0) (introduced e)) x q =
     Some (takeWhile (\<lambda>e. f e \<le> v) q @ x # dropWhile (\<lambda>e. f e \<le> v) q)"
  using assms(1) by (induction q) (auto simp: dc_version_compare_greater assms(2))

lemma sorted_insert_version:
  assumes "sorted (map f q)" and "f x = v"
  shows "sorted (map f (takeWhile (\<lambda>e. f e \<le> v) q @ x # dropWhile (\<lambda>e. f e \<le> v) q))"
  using assms
proof (induction q)
  case (Cons e q)
  show ?case
  proof (cases "f e \<le> v")
    case True
    have "\<forall>y \<in> set (takeWhile (\<lambda>e. f e \<le> v) q) \<union> set (dropWhile (\<lambda>e. f e \<le> v) q). f e \<le> f y"
      using Cons.prems by (auto dest: set_takeWhileD set_dropWhileD)
    with True Cons show ?thesis by auto
  next
    case False
    with Cons.prems show ?thesis by auto
  qed
qed simp

lemma sorted_map_tail: "sorted (map f (a @ x # y # ys)) \<Longrightarrow> \<forall>e \<in> set ys. f y \<le> f e"
  by (auto simp: sorted_append)

lemma mq_enqueue_version_sorted:
  assumes "versions_are f introduced q" and "small_version (f x)" and "sorted (map f q)"
    and "x \<notin> set q"
  shows "\<exists>q1 q2. q = q1 @ q2 \<and> mq_enqueue_version (f x) introduced x q = Some (q1 @ x # q2) \<and>
     (\<forall>e \<in> set q1. f e \<le> f x) \<and> (\<forall>e \<in> set q2. f x < f e) \<and> sorted (map f (q1 @ x # q2))"
proof -
  let ?q1 = "takeWhile (\<lambda>e. f e \<le> f x) q" and ?q2 = "dropWhile (\<lambda>e. f e \<le> f x) q"
  have s: "sorted (map f (?q1 @ x # ?q2))" using sorted_insert_version [OF assms(3) refl] .
  have "\<forall>e \<in> set ?q2. f x < f e"
  proof (cases ?q2)
    case (Cons y ys)
    then have "\<not> f y \<le> f x" by (metis hd_dropWhile list.discI list.sel(1))
    moreover have "\<forall>e \<in> set ys. f y \<le> f e" using s unfolding Cons by (rule sorted_map_tail)
    ultimately show ?thesis unfolding Cons by force
  next
    case Nil
    show ?thesis unfolding Nil by simp
  qed
  moreover have "\<forall>e \<in> set ?q1. f e \<le> f x" by (blast dest: set_takeWhileD)
  moreover have "mq_enqueue_version (f x) introduced x q = Some (?q1 @ x # ?q2)"
    using assms(4) mq_insert_version [OF assms(1,2), of x]
    by (simp add: mq_enqueue_version_def mq_enqueue_conditional_def)
  ultimately show ?thesis using s takeWhile_dropWhile_id [symmetric] by blast
qed

lemma mq_find_version:
  assumes "versions_are f introduced q" and "small_version v"
  shows "mq_find (\<lambda>e. map_option (\<lambda>w. dc_version_compare w v > 0) (introduced e)) q =
     Some (let n = length (takeWhile (\<lambda>e. f e \<le> v) q) in if n = length q then None else Some n)"
  using assms(1)
  by (induction q) (auto simp: dc_version_compare_greater assms(2) Let_def split: if_splits)

lemma sorted_takeWhile_filter: "sorted (map f q) \<Longrightarrow> takeWhile (\<lambda>e. f e \<le> v) q = filter (\<lambda>e. f e \<le> v) q"
  for v :: "'b :: linorder"
  by (induction q) (force simp: filter_empty_conv intro!: filter_False [symmetric])+

lemma mq_active_version:
  assumes "versions_are f introduced q" and "small_version v" and "sorted (map f q)" and "distinct q"
    and "q \<noteq> []"
  shows "mq_active (Some v) introduced q =
     Some (Some (if filter (\<lambda>e. f e \<le> v) q = [] then hd q else last (filter (\<lambda>e. f e \<le> v) q)))"
proof -
  define n where "n = length (takeWhile (\<lambda>e. f e \<le> v) q)"
  have tw: "takeWhile (\<lambda>e. f e \<le> v) q = take n q" unfolding n_def by (rule takeWhile_eq_take)
  have fl: "filter (\<lambda>e. f e \<le> v) q = take n q" using sorted_takeWhile_filter [OF assms(3)] tw by metis
  have n: "n \<le> length q" unfolding n_def by (rule length_takeWhile_le)
  have 0: "n < length q \<Longrightarrow> 0 < n \<Longrightarrow> mq_prev q n \<noteq> last q"
    using assms(4,5) by (simp add: mq_prev_def last_conv_nth nth_eq_iff_index_eq)
  have f: "mq_find (\<lambda>e. map_option (\<lambda>w. dc_version_compare w v > 0) (introduced e)) q =
      Some (if n = length q then None else Some n)"
    using mq_find_version [OF assms(1,2)] by (simp add: n_def Let_def)
  consider "n = length q" | "n = 0" | "0 < n" "n < length q" using n by linarith
  then show ?thesis
  proof cases
    case 1
    with f fl assms(5) show ?thesis by (simp add: mq_active_def mq_tail_def)
  next
    case 2
    with f fl assms(5) show ?thesis
      by (simp add: mq_active_def mq_tail_def mq_prev_def hd_conv_nth)
  next
    case 3
    then have "last (take n q) = q ! (n - 1)"
      by (subst last_conv_nth) (auto simp: min_def)
    with 3 0 f fl assms(5) show ?thesis
      by (simp add: mq_active_def mq_tail_def) (simp add: mq_prev_def)
  qed
qed

end
