(* ===== verification/Documents.thy ===== *)
theory Documents
  imports ContextValue Mqueue
begin

text \<open>
  The default values of a keyval (src/lib/context_default.c) and the documentation of a context
  (src/lib/context_documentation.c): both are queued in the context they belong to, sorted by
  the version they were introduced in, and both are read by asking which entry is active at a
  version. The finalization of a default, which validates it, and the operations that begin,
  fill and finalize one in a single call are in theory Lifecycle.
\<close>

section \<open>Defaults\<close>

definition dx_default_create :: disir_default where
  "dx_default_create = \<lparr>de_introduced = Version 1 0, de_value = value_zero\<rparr>"

definition default_introduced :: "store \<Rightarrow> ptr \<Rightarrow> version option" where
  "default_introduced s d = map_option de_introduced (get_default s d)"

text \<open>
  The object of a new context, which becomes a child of a parent: the end of every
  \<^verbatim>\<open>dx_*_begin\<close>.
\<close>

definition begin_child :: "context_type \<Rightarrow> disir_object \<Rightarrow> ptr \<Rightarrow> store \<Rightarrow> (status \<times> ptr option \<times> store) option" where
  "begin_child type x parent s = do {
     let (r, s) = dx_context_create type s;
     p \<leftarrow> r;
     s \<leftarrow> set_obj p x s;
     s \<leftarrow> dx_context_attach (Some parent) (Some p) s;
     Some (OK, Some p, s) }"

definition dx_default_begin :: "ptr option \<Rightarrow> bool \<Rightarrow> store \<Rightarrow> (status \<times> ptr option \<times> store) option" where
  "dx_default_begin parent has_output s = do {
     (status, s) \<leftarrow> dx_context_sp_full_check parent s;
     if status \<noteq> OK then Some (status, None, s)
     else if \<not> has_output then Some (INVALID_ARGUMENT, None, s)
     else do {
       q \<leftarrow> parent;
       status \<leftarrow> dx_context_type_check q [CT_KEYVAL] s;
       if status \<noteq> OK then Some (status, None, s)
       else do {
         c \<leftarrow> ctxs s q;
         rt \<leftarrow> dc_context_type s (cx_root c);
         if rt \<noteq> CT_MOLD then do {
           s \<leftarrow> dx_context_error_set q ''Cannot add default to a KEYVAL whose root is not a MOLD'' s;
           Some (WRONG_CONTEXT, None, s) }
         else do {
           k \<leftarrow> get_keyval s q;
           if dx_value_type_sanify (dv_type (kv_value k)) = VT_UNKNOWN then do {
             s \<leftarrow> dx_context_error_set q
                   ''Cannot add a default entry to a keyval who has not yet defined a value type.'' s;
             Some (INVALID_CONTEXT, None, s) }
           else begin_child CT_DEFAULT
                  (ODefault (dx_default_create\<lparr>de_value := value_zero\<lparr>dv_type := dv_type (kv_value k)\<rparr>\<rparr>)) q s } } } }"

text \<open>\<open>keyval\<close> is the pointer the callers read from a mold equivalent: NULL is a fault.\<close>

definition dx_default_get_active :: "ptr option \<Rightarrow> version option \<Rightarrow> store \<Rightarrow> ptr option option" where
  "dx_default_get_active keyval version s = do {
     q \<leftarrow> keyval;
     ps \<leftarrow> get_queue DEFAULT_QUEUE s q;
     mq_active version (default_introduced s) ps }"

definition dc_get_default :: "ptr option \<Rightarrow> version option \<Rightarrow> int \<Rightarrow> bool \<Rightarrow> store \<Rightarrow>
    (status \<times> (string \<times> int option) option \<times> store) option" where
  "dc_get_default context version output_buffer_size has_output s = do {
     (status, s) \<leftarrow> dx_context_sp_full_check context s;
     if status \<noteq> OK then Some (status, None, s)
     else if output_buffer_size \<le> 0 \<or> \<not> has_output then Some (INVALID_ARGUMENT, None, s)
     else do {
       p \<leftarrow> context;
       status \<leftarrow> dx_context_type_check p [CT_DEFAULT, CT_KEYVAL] s;
       if status \<noteq> OK then Some (WRONG_CONTEXT, None, s)
       else do {
         t \<leftarrow> dc_context_type s (Some p);
         c \<leftarrow> ctxs s p;
         rt \<leftarrow> dc_context_type s (cx_root c);
         if t = CT_KEYVAL \<and> rt \<noteq> CT_CONFIG \<and> rt \<noteq> CT_MOLD then Some (INTERNAL_ERROR, None, s)
         else do {
           def \<leftarrow> (if t = CT_KEYVAL then do {
                    k \<leftarrow> get_keyval s p;
                    dx_default_get_active (if rt = CT_CONFIG then kv_mold_equiv k else Some p) version s }
                  else Some (Some p));
           d \<leftarrow> def;
           x \<leftarrow> get_default s d;
           (status, out, n) \<leftarrow> dx_value_stringify (de_value x) output_buffer_size;
           Some (status, Some (out, n), s) } } } }"

definition dc_get_default_contexts :: "ptr option \<Rightarrow> store \<Rightarrow>
    (status \<times> disir_collection option \<times> store) option" where
  "dc_get_default_contexts context s = do {
     (status, s) \<leftarrow> dx_context_sp_full_check context s;
     if status \<noteq> OK then Some (status, None, s)
     else do {
       p \<leftarrow> context;
       status \<leftarrow> dx_context_type_check p [CT_KEYVAL] s;
       if status \<noteq> OK then Some (status, None, s)
       else do {
         c \<leftarrow> ctxs s p;
         rt \<leftarrow> dc_context_type s (cx_root c);
         if rt \<noteq> CT_MOLD then do {
           s \<leftarrow> dx_context_error_set p ''cannot get defaults for KEYVAL not associated with a mold.'' s;
           Some (WRONG_CONTEXT, None, s) }
         else do {
           ps \<leftarrow> get_queue DEFAULT_QUEUE s p;
           collect ps s } } } }"

section \<open>Documentation\<close>

definition dx_documentation_create :: disir_documentation where
  "dx_documentation_create = \<lparr>dd_introduced = Version 0 0, dd_value = value_zero\<lparr>dv_type := VT_STRING\<rparr>\<rparr>"

definition documentation_introduced :: "store \<Rightarrow> ptr \<Rightarrow> version option" where
  "documentation_introduced s d = map_option dd_introduced (get_documentation s d)"

definition dx_documentation_add :: "ptr option \<Rightarrow> ptr \<Rightarrow> store \<Rightarrow> (status \<times> store) option" where
  "dx_documentation_add parent p s =
     (case parent of None \<Rightarrow> Some (INVALID_ARGUMENT, s)
      | Some q \<Rightarrow> do {
          c \<leftarrow> ctxs s p;
          if cx_obj c = None then Some (INVALID_ARGUMENT, s)
          else do {
            t \<leftarrow> dc_context_type s (Some q);
            if t \<notin> {CT_MOLD, CT_KEYVAL, CT_SECTION, CT_RESTRICTION} then Some (INTERNAL_ERROR, s)
            else do {
              d \<leftarrow> get_documentation s p;
              ps \<leftarrow> get_queue DOC_QUEUE s q;
              n \<leftarrow> mq_count_version (dd_introduced d) (documentation_introduced s) ps;
              if n \<noteq> 0 then do {
                s \<leftarrow> dx_context_error_set q
                      ''already contains a documentation entry with semantic version: %s'' s;
                Some (CONFLICTING_SEMVER, s) }
              else do {
                ps \<leftarrow> mq_enqueue_version (dd_introduced d) (documentation_introduced s) p ps;
                s \<leftarrow> set_queue DOC_QUEUE ps q s;
                Some (OK, s) } } } })"

definition dx_documentation_numentries :: "ptr \<Rightarrow> store \<Rightarrow> int option" where
  "dx_documentation_numentries p s = do {
     t \<leftarrow> dc_context_type s (Some p);
     if t \<in> {CT_MOLD, CT_KEYVAL, CT_SECTION} then do {
       ps \<leftarrow> get_queue DOC_QUEUE s p; Some (int (length ps)) }
     else Some (-1) }"

definition dx_documentation_begin :: "ptr option \<Rightarrow> bool \<Rightarrow> store \<Rightarrow> (status \<times> ptr option \<times> store) option" where
  "dx_documentation_begin parent has_output s = do {
     (status, s) \<leftarrow> dx_context_sp_full_check parent s;
     if status \<noteq> OK then Some (status, None, s)
     else if \<not> has_output then Some (INVALID_ARGUMENT, None, s)
     else do {
       q \<leftarrow> parent;
       status \<leftarrow> dx_context_type_check q [CT_MOLD, CT_KEYVAL, CT_SECTION, CT_RESTRICTION] s;
       if status \<noteq> OK then do {
         s \<leftarrow> dx_context_error_set q ''cannot add documentation to %s.'' s;
         Some (NO_CAN_DO, None, s) }
       else do {
         n \<leftarrow> dx_documentation_numentries q s;
         if n > 0 then do {
           s \<leftarrow> dx_context_error_set q ''cannot add multiple documentations to %s.'' s;
           Some (EXISTS, None, s) }
         else begin_child CT_DOCUMENTATION (ODocumentation dx_documentation_create) q s } } }"

definition dx_documentation_finalize :: "ptr option \<Rightarrow> store \<Rightarrow> (status \<times> store) option" where
  "dx_documentation_finalize doc s =
     (case doc of None \<Rightarrow> Some (INVALID_ARGUMENT, s)
      | Some p \<Rightarrow> do { c \<leftarrow> ctxs s p; dx_documentation_add (cx_parent c) p s })"

definition dc_get_documentation :: "ptr option \<Rightarrow> version option \<Rightarrow> bool \<Rightarrow> store \<Rightarrow>
    (status \<times> (string option \<times> int) option \<times> store) option" where
  "dc_get_documentation context version has_output s = do {
     (status, s) \<leftarrow> dx_context_sp_full_check context s;
     if status \<noteq> OK then Some (status, None, s)
     else do {
       p \<leftarrow> context;
       status \<leftarrow> dx_context_type_check p [CT_KEYVAL, CT_CONFIG, CT_SECTION, CT_RESTRICTION, CT_MOLD] s;
       if status \<noteq> OK then do {
         s \<leftarrow> dx_context_error_set p ''cannot fetch documentation for context.'' s;
         Some (status, None, s) }
       else if \<not> has_output then Some (INVALID_ARGUMENT, None, s)
       else do {
         t \<leftarrow> dc_context_type s (Some p);
         if t = CT_CONFIG then None
         else do {
           ps \<leftarrow> get_queue DOC_QUEUE s p;
           r \<leftarrow> mq_active version (documentation_introduced s) ps;
           case r of None \<Rightarrow> Some (INTERNAL_ERROR, None, s)
           | Some d \<Rightarrow> do {
               x \<leftarrow> get_documentation s d;
               (status, out) \<leftarrow> dx_value_get_string (Some (dd_value x)) has_output;
               Some (status, out, s) } } } } }"

section \<open>How the heap evolves\<close>

lemma evolves_begin_child [evolving]:
  "begin_child type x parent s = Some (z1, z2, s') \<Longrightarrow> evolves s0 s \<Longrightarrow> evolves s0 s'"
  unfolding begin_child_def
  by (elim do_elims Pair_inject; ((hypsubst | erule Pair_inject)+)?; (assumption | erule evolving | rule tame_updates)+)

lemma evolves_dx_default_begin_etc [evolving]:
  "dx_default_begin parent has_output s = Some (z1, z2, s') \<Longrightarrow> evolves s0 s \<Longrightarrow> evolves s0 s'"
  "dc_get_default context1 version1 output_buffer_size1 has_output1 s = Some (z_11, z_21, s') \<Longrightarrow> evolves s0 s \<Longrightarrow> evolves s0 s'"
  "dc_get_default_contexts context2 s = Some (z_12, z_22, s') \<Longrightarrow> evolves s0 s \<Longrightarrow> evolves s0 s'"
  "dx_documentation_add parent3 p3 s = Some (z_13, s') \<Longrightarrow> evolves s0 s \<Longrightarrow> evolves s0 s'"
  "dx_documentation_begin parent4 has_output4 s = Some (z_14, z_24, s') \<Longrightarrow> evolves s0 s \<Longrightarrow> evolves s0 s'"
  unfolding dx_default_begin_def dc_get_default_def dc_get_default_contexts_def dx_documentation_add_def dx_documentation_begin_def
  by (elim do_elims Pair_inject; ((hypsubst | erule Pair_inject)+)?; (assumption | erule evolving | rule tame_updates)+)+

lemma evolves_dx_documentation_finalize_etc [evolving]:
  "dx_documentation_finalize doc s = Some (z1, s') \<Longrightarrow> evolves s0 s \<Longrightarrow> evolves s0 s'"
  "dc_get_documentation context1 version1 has_output1 s = Some (z_11, z_21, s') \<Longrightarrow> evolves s0 s \<Longrightarrow> evolves s0 s'"
  unfolding dx_documentation_finalize_def dc_get_documentation_def
  by (elim do_elims Pair_inject; ((hypsubst | erule Pair_inject)+)?; (assumption | erule evolving | rule tame_updates)+)+

end
