(* ===== verification/Validate.thy ===== *)
theory Validate
  imports Documents
begin

text \<open>
  src/lib/validate.c: the validation of a context, which finalizing and updating run.
  \<^verbatim>\<open>dx_validate_context\<close> clears the invalid flag, checks the context by its type, its
  children, defaults and restrictions recursively, and marks it invalid again when a check
  fails. The body is written over the recursive call, and the recursion is tied by fuel: one
  unit per address ever allocated, enough for a tree. The loops over a collection carry a bound
  of one more than its entries, which every step of the iterator brings nearer.

  The lemmas show that validation writes nothing but flags, error messages and reference counts
  (it \<open>evolves\<close> the heap), what a name must consist of, when a restriction conflicts with
  another, and how the flags and the status of a validated context fit together.
\<close>

section \<open>The inclusive restrictions\<close>

definition mark_invalid :: "ptr \<Rightarrow> store \<Rightarrow> store option" where
  "mark_invalid p = upd p (\<lambda>c. c\<lparr>invalid := True\<rparr>)"

text \<open>
  The three checks of the number of elements of one name, with the verdict so far. The argument of
  the second message is read through the union as the version of a config, also for a section,
  where it is the introduced version, at the same offset and of the same type; messages are kept
  by their formats, so it does not show here.
\<close>

definition entries_fulfilled :: "ptr \<Rightarrow> int \<Rightarrow> int \<Rightarrow> int \<Rightarrow> status \<Rightarrow> store \<Rightarrow> (status \<times> store) option" where
  "entries_fulfilled p nelems mn mx verdict s = do {
     (verdict, s) \<leftarrow>
       (if nelems < mn then do {
          s \<leftarrow> mark_invalid p s;
          s \<leftarrow> dx_context_error_set p
                ''%s did not fulfill minimum required entities (minimum: %d, actual: %d)'' s;
          Some (RESTRICTION_VIOLATED, s) }
        else Some (verdict, s));
     (verdict, s) \<leftarrow>
       (if mx = -1 \<and> 0 < nelems then do {
          s \<leftarrow> mark_invalid p s;
          s \<leftarrow> dx_context_error_set p ''%s is not a valid element for version %s'' s;
          Some (RESTRICTION_VIOLATED, s) }
        else Some (verdict, s));
     if mx < nelems \<and> 0 < mx then do {
       s \<leftarrow> mark_invalid p s;
       s \<leftarrow> dx_context_error_set p
             ''%s exceeded maximum allowed entities (maximum: %d, actual: %d)'' s;
       Some (RESTRICTION_VIOLATED, s) }
     else Some (verdict, s) }"

definition count_elements :: "ptr \<Rightarrow> string option \<Rightarrow> store \<Rightarrow> (status \<times> int \<times> store) option" where
  "count_elements p name s = do {
     (status, cr, s) \<leftarrow> dc_find_elements (Some p) name s;
     if status = OK then do {
       (n, cr, s) \<leftarrow> dc_collection_size cr s;
       (_, s) \<leftarrow> dc_collection_finished cr s;
       Some (OK, int n, s) }
     else Some (status, 0, s) }"

text \<open>
  The loop over the elements of the mold equivalent. An output argument that is not written
  keeps the value of the last round.
\<close>

primrec inclusive_loop :: "nat \<Rightarrow> ptr \<Rightarrow> version \<Rightarrow> disir_collection \<Rightarrow> string option \<Rightarrow> int \<Rightarrow> int \<Rightarrow>
    status \<Rightarrow> store \<Rightarrow> (status \<times> status \<times> disir_collection \<times> store) option" where
  "inclusive_loop 0 p v col name mn mx verdict s = None"
| "inclusive_loop (Suc n) p v col name mn mx verdict s = do {
     (status, r, col, s) \<leftarrow> dc_collection_next col s;
     if status = EXHAUSTED then Some (OK, verdict, col, s)
     else if status \<noteq> OK then Some (status, verdict, col, s)
     else do {
       e \<leftarrow> r;
       (_, nr, s) \<leftarrow> dc_get_name (Some e) s;
       let name = (case nr of Some (x, _) \<Rightarrow> x | None \<Rightarrow> name);
       (status, nelems, s) \<leftarrow> count_elements p name s;
       if status \<noteq> OK \<and> status \<noteq> NOT_EXIST then Some (status, verdict, col, s)
       else do {
         (_, mr) \<leftarrow> dx_restriction_entries_value e INC_ENTRY_MIN (Some v) s;
         let mn = (case mr of Some x \<Rightarrow> x | None \<Rightarrow> mn);
         (_, mr) \<leftarrow> dx_restriction_entries_value e INC_ENTRY_MAX (Some v) s;
         let mx = (case mr of Some x \<Rightarrow> x | None \<Rightarrow> mx);
         (verdict, s) \<leftarrow> entries_fulfilled p nelems mn mx verdict s;
         (_, s) \<leftarrow> dc_putcontext (Some e) s;
         inclusive_loop n p v col name mn mx verdict s } } }"

definition validate_inclusive_restrictions :: "ptr \<Rightarrow> store \<Rightarrow> (status \<times> store) option" where
  "validate_inclusive_restrictions p s = do {
     c \<leftarrow> ctxs s p;
     rt \<leftarrow> dc_context_type s (cx_root c);
     if rt \<noteq> CT_CONFIG then Some (INTERNAL_ERROR, s)
     else do {
       t \<leftarrow> dc_context_type s (Some p);
       (status, cr, s) \<leftarrow>
         (if t = CT_CONFIG then do {
            g \<leftarrow> get_config s p;
            q \<leftarrow> cf_mold g;
            _ \<leftarrow> get_mold s q;
            dc_get_elements (Some q) s }
          else if t = CT_SECTION then do {
            n \<leftarrow> get_section s p;
            dc_get_elements (se_mold_equiv n) s }
          else Some (INTERNAL_ERROR, None, s));
       if status \<noteq> OK then Some (status, s)
       else do {
         root \<leftarrow> cx_root c;
         g \<leftarrow> get_config s root;
         col \<leftarrow> cr;
         (status, verdict, col, s) \<leftarrow>
            inclusive_loop (cc_numentries col + 1) p (cf_version g) col None 0 0 OK s;
         (_, s) \<leftarrow> dc_collection_finished (Some col) s;
         Some (if status = OK then verdict else status, s) } } }"

section \<open>The value of a keyval\<close>

definition validate_exclusive_restrictions :: "ptr \<Rightarrow> store \<Rightarrow> (status \<times> store) option" where
  "validate_exclusive_restrictions p s = do {
     vt \<leftarrow> dc_value_type s (Some p);
     if vt = VT_INTEGER then do {
       k \<leftarrow> get_keyval s p;
       i \<leftarrow> as_integer (dv_data (kv_value k));
       dx_restriction_exclusive_value_check p i dbl_zero None s }
     else if vt = VT_FLOAT then do {
       k \<leftarrow> get_keyval s p;
       d \<leftarrow> as_float (dv_data (kv_value k));
       dx_restriction_exclusive_value_check p 0 d None s }
     else if vt = VT_ENUM then do {
       k \<leftarrow> get_keyval s p;
       str \<leftarrow> name_cstr (kv_value k);
       dx_restriction_exclusive_value_check p 0 dbl_zero str s }
     else if vt = VT_STRING \<or> vt = VT_BOOLEAN then Some (OK, s)
     else Some (INTERNAL_ERROR, s) }"

text \<open>A child under construction must leave a finalized parent within its maximum.\<close>

definition validate_finalized_parent_constructing_child_violating_max_restriction ::
  "ptr \<Rightarrow> store \<Rightarrow> (status \<times> store) option" where
  "validate_finalized_parent_constructing_child_violating_max_restriction p s = do {
     c \<leftarrow> ctxs s p;
     if finalized c then Some (OK, s)
     else do {
       q \<leftarrow> cx_parent c;
       qc \<leftarrow> ctxs s q;
       if \<not> finalized qc then Some (OK, s)
       else do {
         t \<leftarrow> dc_context_type s (Some p);
         if t \<noteq> CT_KEYVAL \<and> t \<noteq> CT_SECTION then Some (INTERNAL_ERROR, s)
         else do {
           v \<leftarrow> get_name_value s p;
           name \<leftarrow> name_cstr v;
           (_, mr) \<leftarrow> dx_restriction_entries_value p INC_ENTRY_MAX None s;
           let mx = (case mr of Some x \<Rightarrow> x | None \<Rightarrow> 0);
           (_, n, s) \<leftarrow> count_elements q name s;
           if mx \<noteq> 0 \<and> mx \<le> n then do {
             s \<leftarrow> dx_context_error_set p ''Maximum entries of %d exceeded'' s;
             Some (RESTRICTION_VIOLATED, s) }
           else Some (OK, s) } } } }"

definition validate_config_keyval :: "ptr \<Rightarrow> store \<Rightarrow> (status \<times> store) option" where
  "validate_config_keyval p s = do {
     k \<leftarrow> get_keyval s p;
     case kv_mold_equiv k of
       None \<Rightarrow> do {
         s \<leftarrow> dx_context_error_set p ''KEYVAL missing mold equivalent entry for name '%s'.'' s;
         Some (MOLD_MISSING, s) }
     | Some q \<Rightarrow> do {
         (status, s) \<leftarrow> validate_finalized_parent_constructing_child_violating_max_restriction p s;
         if status \<noteq> OK then Some (status, s)
         else do {
           mt \<leftarrow> dc_value_type s (Some q);
           vt \<leftarrow> dc_value_type s (Some p);
           if mt \<noteq> vt then do {
             s \<leftarrow> dx_context_error_set p (''Value type '%s' assigned. Expecting '%s'' @ [CHR 0x27]) s;
             Some (WRONG_VALUE_TYPE, s) }
           else validate_exclusive_restrictions p s } } }"

definition validate_config_section :: "ptr \<Rightarrow> store \<Rightarrow> (status \<times> store) option" where
  "validate_config_section p s = do {
     n \<leftarrow> get_section s p;
     case se_mold_equiv n of
       None \<Rightarrow> do {
         s \<leftarrow> dx_context_error_set p ''SECTION missing mold equivalent entry for name '%s'.'' s;
         Some (MOLD_MISSING, s) }
     | Some q \<Rightarrow> do {
         (status, s) \<leftarrow> validate_finalized_parent_constructing_child_violating_max_restriction p s;
         if status \<noteq> OK then Some (status, s)
         else do {
           mt \<leftarrow> dc_value_type s (Some q);
           vt \<leftarrow> dc_value_type s (Some p);
           if mt \<noteq> vt then do {
             s \<leftarrow> dx_context_error_set p (''Value type '%s' assigned. Expecting '%s'' @ [CHR 0x27]) s;
             Some (WRONG_VALUE_TYPE, s) }
           else validate_inclusive_restrictions p s } } }"

section \<open>Restrictions and names\<close>

text \<open>Whether another entry of the queue of the same type was introduced in the same version.\<close>

fun restriction_conflicts :: "store \<Rightarrow> ptr \<Rightarrow> disir_restriction \<Rightarrow> ptr list \<Rightarrow> bool option" where
  "restriction_conflicts s p r [] = Some False"
| "restriction_conflicts s p r (e # es) = do {
     x \<leftarrow> get_restriction s e;
     if re_type x = re_type r \<and> e \<noteq> p \<and> dc_version_compare (re_introduced x) (re_introduced r) = 0
     then Some True else restriction_conflicts s p r es }"

definition validate_restriction :: "ptr \<Rightarrow> store \<Rightarrow> (status \<times> store) option" where
  "validate_restriction p s = do {
     r \<leftarrow> get_restriction s p;
     if dx_restriction_type_sanify (re_type r) = RT_UNKNOWN then do {
       s \<leftarrow> dx_context_error_set p ''Missing type component for restriction.'' s;
       Some (INVALID_CONTEXT, s) }
     else do {
       (status, owner) \<leftarrow> dx_restriction_get_queue s (Some p);
       if status \<noteq> OK then Some (status, s)
       else if re_type r = INC_ENTRY_MIN \<or> re_type r = INC_ENTRY_MAX then do {
         q \<leftarrow> owner;
         es \<leftarrow> get_queue RESTRICTION_QUEUE s q;
         clash \<leftarrow> restriction_conflicts s p r es;
         if clash then do {
           s \<leftarrow> dx_context_error_set p ''introduced version conflicts with another %s restriction.'' s;
           Some (CONFLICTING_SEMVER, s) }
         else Some (OK, s) }
       else Some (OK, s) } }"

definition name_char :: "char \<Rightarrow> bool" where
  "name_char c \<longleftrightarrow>
     (97 \<le> (of_char c :: nat) \<and> (of_char c :: nat) \<le> 122) \<or> c = CHR ''_'' \<or>
     (48 \<le> (of_char c :: nat) \<and> (of_char c :: nat) \<le> 57)"

definition validate_name :: "ptr \<Rightarrow> store \<Rightarrow> (status \<times> store) option" where
  "validate_name p s = do {
     (status, nr, s) \<leftarrow> dc_get_name (Some p) s;
     case nr of None \<Rightarrow> Some (status, s)
     | Some (n, _) \<Rightarrow> do {
         name \<leftarrow> n;
         if list_all name_char name then Some (OK, s)
         else do {
           s \<leftarrow> dx_context_error_set p ''name contains invalid character '%c'.'' s;
           Some (RESTRICTION_VIOLATED, s) } } }"

section \<open>Children, defaults and restrictions\<close>

type_synonym validator = "ptr \<Rightarrow> store \<Rightarrow> (status \<times> store) option"

text \<open>What a child may return without the validation of its siblings being given up.\<close>

definition tolerable :: "status \<Rightarrow> bool" where
  "tolerable st \<longleftrightarrow> st \<in> {OK, CONFLICTING_SEMVER, ELEMENTS_INVALID, INVALID_CONTEXT,
     RESTRICTION_VIOLATED, WRONG_VALUE_TYPE, MOLD_MISSING, DEFAULT_MISSING}"

primrec children_loop :: "validator \<Rightarrow> nat \<Rightarrow> disir_collection \<Rightarrow> status \<Rightarrow> store \<Rightarrow>
    (status \<times> status \<times> disir_collection \<times> store) option" where
  "children_loop validate 0 col verdict s = None"
| "children_loop validate (Suc n) col verdict s = do {
     (status, r, col, s) \<leftarrow> dc_collection_next col s;
     if status = EXHAUSTED then Some (OK, verdict, col, s)
     else if status \<noteq> OK then Some (status, verdict, col, s)
     else do {
       e \<leftarrow> r;
       (st, s) \<leftarrow> validate e s;
       let verdict = (if st \<noteq> OK then ELEMENTS_INVALID else verdict);
       (status, s) \<leftarrow> dc_putcontext (Some e) s;
       if status \<noteq> OK then Some (status, verdict, col, s)
       else if \<not> tolerable st then Some (st, verdict, col, s)
       else children_loop validate n col verdict s } }"

definition validate_children_with :: "validator \<Rightarrow> ptr \<Rightarrow> store \<Rightarrow> (status \<times> store) option" where
  "validate_children_with validate p s = do {
     (status, cr, s) \<leftarrow> dc_get_elements (Some p) s;
     if status \<noteq> OK then Some (status, s)
     else do {
       col \<leftarrow> cr;
       (status, verdict, col, s) \<leftarrow> children_loop validate (cc_numentries col + 1) col OK s;
       (_, s) \<leftarrow> dc_collection_finished (Some col) s;
       Some (if status = OK then verdict else status, s) } }"

text \<open>
  The loop over the defaults or restrictions of \<open>p\<close>, up to the first that is not valid, whose
  error message moves to \<open>p\<close>.
\<close>

fun validate_queue_with :: "validator \<Rightarrow> ptr \<Rightarrow> ptr list \<Rightarrow> store \<Rightarrow> (status \<times> store) option" where
  "validate_queue_with validate p [] s = Some (OK, s)"
| "validate_queue_with validate p (e # es) s = do {
     c \<leftarrow> ctxs s e;
     _ \<leftarrow> cx_obj c;
     (status, s) \<leftarrow> validate e s;
     if status \<noteq> OK then do {
       s \<leftarrow> dx_context_transfer_logwarn (Some p) (Some e) s;
       Some (status, s) }
     else validate_queue_with validate p es s }"

section \<open>A context of each type\<close>

text \<open>
  The cases of the switch of \<^verbatim>\<open>validate_context_validity\<close>. A fatal status is reported in
  preference to the verdict.
\<close>

definition top_validity_with :: "validator \<Rightarrow> ptr \<Rightarrow> status \<Rightarrow> store \<Rightarrow> (status \<times> store) option" where
  "top_validity_with validate p verdict s = do {
     (status, s) \<leftarrow> validate_children_with validate p s;
     let verdict = (if verdict = OK then status else verdict);
     Some (if status \<noteq> ELEMENTS_INVALID \<and> status \<noteq> OK then status else verdict, s) }"

definition section_validity_with :: "validator \<Rightarrow> ptr \<Rightarrow> store \<Rightarrow> (status \<times> store) option" where
  "section_validity_with validate p s = do {
     (verdict, s) \<leftarrow> validate_name p s;
     c \<leftarrow> ctxs s p;
     rt \<leftarrow> dc_context_type s (cx_root c);
     (status, verdict, s) \<leftarrow>
       (if rt = CT_CONFIG then do {
          (status, s) \<leftarrow> validate_config_section p s;
          Some (status, if verdict \<noteq> OK then verdict else status, s) }
        else if verdict \<noteq> OK then Some (OK, verdict, s)
        else do {
          es \<leftarrow> get_queue RESTRICTION_QUEUE s p;
          (verdict, s) \<leftarrow> validate_queue_with validate p es s;
          Some (OK, verdict, s) });
     if verdict \<notin> {INVALID_CONTEXT, RESTRICTION_VIOLATED, MOLD_MISSING, WRONG_VALUE_TYPE,
                   CONFLICTING_SEMVER, OK, FATAL_CONTEXT}
     then Some (if status \<noteq> OK then status else verdict, s)
     else top_validity_with validate p verdict s }"

definition keyval_validity_with :: "validator \<Rightarrow> ptr \<Rightarrow> store \<Rightarrow> (status \<times> store) option" where
  "keyval_validity_with validate p s = do {
     (verdict, s) \<leftarrow> validate_name p s;
     c \<leftarrow> ctxs s p;
     rt \<leftarrow> dc_context_type s (cx_root c);
     if rt = CT_CONFIG then do {
       (status, s) \<leftarrow> validate_config_keyval p s;
       Some (if status \<noteq> OK then status else verdict, s) }
     else if rt \<noteq> CT_MOLD \<or> verdict \<noteq> OK then Some (verdict, s)
     else do {
       k \<leftarrow> get_keyval s p;
       if dx_value_type_sanify (dv_type (kv_value k)) = VT_UNKNOWN then do {
         s \<leftarrow> dx_context_error_set p ''Missing type component for keyval.'' s;
         Some (WRONG_VALUE_TYPE, s) }
       else if kv_default_queue k = [] then do {
         s \<leftarrow> dx_context_error_set p ''Missing default entry for keyval.'' s;
         Some (DEFAULT_MISSING, s) }
       else do {
         (verdict, s) \<leftarrow> validate_queue_with validate p (kv_default_queue k) s;
         if verdict \<noteq> OK then Some (verdict, s)
         else do {
           es \<leftarrow> get_queue RESTRICTION_QUEUE s p;
           validate_queue_with validate p es s } } } }"

definition default_validity :: "ptr \<Rightarrow> store \<Rightarrow> (status \<times> store) option" where
  "default_validity p s = do {
     c \<leftarrow> ctxs s p;
     q \<leftarrow> cx_parent c;
     es \<leftarrow> get_queue DEFAULT_QUEUE s q;
     d \<leftarrow> get_default s p;
     n \<leftarrow> mq_count_version (de_introduced d) (default_introduced s) es;
     if n \<noteq> 1 then do {
       s \<leftarrow> dx_context_error_set p ''already contains a default entry with semantic version: %s'' s;
       Some (CONFLICTING_SEMVER, s) }
     else Some (OK, s) }"

definition validate_context_validity_with :: "validator \<Rightarrow> ptr \<Rightarrow> store \<Rightarrow> (status \<times> store) option" where
  "validate_context_validity_with validate p s = do {
     t \<leftarrow> dc_context_type s (Some p);
     case t of
       CT_CONFIG \<Rightarrow> do {
         (verdict, s) \<leftarrow> validate_inclusive_restrictions p s;
         if verdict \<noteq> OK \<and> verdict \<noteq> RESTRICTION_VIOLATED then Some (verdict, s)
         else top_validity_with validate p verdict s }
     | CT_MOLD \<Rightarrow> top_validity_with validate p OK s
     | CT_SECTION \<Rightarrow> section_validity_with validate p s
     | CT_KEYVAL \<Rightarrow> keyval_validity_with validate p s
     | CT_DEFAULT \<Rightarrow> default_validity p s
     | CT_RESTRICTION \<Rightarrow> validate_restriction p s
     | _ \<Rightarrow> Some (INTERNAL_ERROR, s) }"

text \<open>The errors that make the context itself invalid.\<close>

definition invalidating :: "status \<Rightarrow> bool" where
  "invalidating st \<longleftrightarrow> st \<in> {WRONG_VALUE_TYPE, DEFAULT_MISSING, FATAL_CONTEXT, MOLD_MISSING,
     CONFLICTING_SEMVER, RESTRICTION_VIOLATED}"

definition dx_validate_context_with :: "validator \<Rightarrow> validator" where
  "dx_validate_context_with validate p s = do {
     c \<leftarrow> ctxs s p;
     if fatal c then do {
       s \<leftarrow> mark_invalid p s;
       Some (if constructing c then INVALID_CONTEXT else FATAL_CONTEXT, s) }
     else do {
       s \<leftarrow> upd p (\<lambda>c. c\<lparr>invalid := False\<rparr>) s;
       (status, s) \<leftarrow> validate_context_validity_with validate p s;
       c \<leftarrow> ctxs s p;
       parent_finalized \<leftarrow> (case cx_parent c of None \<Rightarrow> Some False
                           | Some q \<Rightarrow> do { qc \<leftarrow> ctxs s q; Some (finalized qc) });
       if parent_finalized \<and> status \<noteq> OK then
         (if status = INVALID_CONTEXT then None
          else do { s \<leftarrow> mark_invalid p s; Some (status, s) })
       else if invalidating status then do {
         s \<leftarrow> mark_invalid p s;
         Some (if constructing c then INVALID_CONTEXT else status, s) }
       else if status = ELEMENTS_INVALID \<and> constructing c then Some (INVALID_CONTEXT, s)
       else Some (status, s) } }"

primrec dx_validate_context_fuel :: "nat \<Rightarrow> validator" where
  "dx_validate_context_fuel 0 = (\<lambda>_ _. None)"
| "dx_validate_context_fuel (Suc n) = dx_validate_context_with (dx_validate_context_fuel n)"

lemma dx_validate_context_fuel_code [code]:
  "dx_validate_context_fuel 0 p s = None"
  "dx_validate_context_fuel (Suc n) p s = dx_validate_context_with (dx_validate_context_fuel n) p s"
  by simp_all

definition dx_validate_context :: validator where
  "dx_validate_context p s = dx_validate_context_fuel (next_ptr s + 1) p s"

section \<open>The invalid elements of a context\<close>

text \<open>
  \<^verbatim>\<open>dx_invalid_elements\<close> collects the invalid contexts below a context, and the root itself.
  The collection is an optional output. When the elements cannot be retrieved the code gives
  back a collection it never received, which is a fault.
\<close>

type_synonym lister = "ptr \<Rightarrow> disir_collection option \<Rightarrow> store \<Rightarrow> (status \<times> disir_collection option \<times> store) option"

definition push_if_wanted :: "disir_collection option \<Rightarrow> ptr \<Rightarrow> store \<Rightarrow> (disir_collection option \<times> store) option" where
  "push_if_wanted out p s =
     (case out of None \<Rightarrow> Some (None, s)
      | Some col \<Rightarrow> do {
          (_, col, s) \<leftarrow> dc_collection_push_context col (Some p) s;
          Some (Some col, s) })"

definition inspect_element :: "lister \<Rightarrow> ptr \<Rightarrow> disir_collection option \<Rightarrow> status \<Rightarrow> store \<Rightarrow>
    (status \<times> disir_collection option \<times> store) option" where
  "inspect_element inspect e out verdict s = do {
     (status, s) \<leftarrow> dc_context_valid (Some e) s;
     (verdict, out, s) \<leftarrow>
       (if status = INVALID_CONTEXT then do {
          (out, s) \<leftarrow> push_if_wanted out e s;
          Some (INVALID_CONTEXT, out, s) }
        else Some (verdict, out, s));
     t \<leftarrow> dc_context_type s (Some e);
     if t = CT_SECTION then do {
       (status, out, s) \<leftarrow> inspect e out s;
       Some (if status = INVALID_CONTEXT then INVALID_CONTEXT else verdict, out, s) }
     else Some (verdict, out, s) }"

primrec invalid_loop :: "lister \<Rightarrow> nat \<Rightarrow> disir_collection \<Rightarrow> disir_collection option \<Rightarrow> status \<Rightarrow> store \<Rightarrow>
    (status \<times> status \<times> disir_collection \<times> disir_collection option \<times> store) option" where
  "invalid_loop inspect 0 col out verdict s = None"
| "invalid_loop inspect (Suc n) col out verdict s = do {
     (status, r, col, s) \<leftarrow> dc_collection_next col s;
     if status = EXHAUSTED then Some (OK, verdict, col, out, s)
     else if status \<noteq> OK then Some (status, verdict, col, out, s)
     else do {
       e \<leftarrow> r;
       (verdict, out, s) \<leftarrow> inspect_element inspect e out verdict s;
       (_, s) \<leftarrow> dc_putcontext (Some e) s;
       invalid_loop inspect n col out verdict s } }"

definition dx_invalid_elements_with :: "lister \<Rightarrow> lister" where
  "dx_invalid_elements_with inspect p out s = do {
     c \<leftarrow> ctxs s p;
     let verdict = (if invalid c then INVALID_CONTEXT else OK);
     (out, s) \<leftarrow> (if cx_root c = Some p \<and> verdict = INVALID_CONTEXT then push_if_wanted out p s
                 else Some (out, s));
     (status, cr, s) \<leftarrow> dc_get_elements (Some p) s;
     if status \<noteq> OK then None
     else do {
       col \<leftarrow> cr;
       (status, verdict, col, out, s) \<leftarrow>
          invalid_loop inspect (cc_numentries col + 1) col out verdict s;
       (_, s) \<leftarrow> dc_collection_finished (Some col) s;
       Some (if status = OK then verdict else status, out, s) } }"

primrec dx_invalid_elements_fuel :: "nat \<Rightarrow> lister" where
  "dx_invalid_elements_fuel 0 = (\<lambda>_ _ _. None)"
| "dx_invalid_elements_fuel (Suc n) = dx_invalid_elements_with (dx_invalid_elements_fuel n)"

lemma dx_invalid_elements_fuel_code [code]:
  "dx_invalid_elements_fuel 0 p out s = None"
  "dx_invalid_elements_fuel (Suc n) p out s = dx_invalid_elements_with (dx_invalid_elements_fuel n) p out s"
  by simp_all

definition dx_invalid_elements :: lister where
  "dx_invalid_elements p out s = dx_invalid_elements_fuel (next_ptr s + 1) p out s"

text \<open>
  \<^verbatim>\<open>disir_config_valid\<close> of disir_config.c and \<^verbatim>\<open>disir_mold_valid\<close> of disir_mold.c: an empty
  collection is given back instead of being handed out.
\<close>

definition report_invalid :: "ptr option \<Rightarrow> bool \<Rightarrow> store \<Rightarrow> (status \<times> disir_collection option \<times> store) option" where
  "report_invalid context wanted s =
     (case context of None \<Rightarrow> Some (INVALID_ARGUMENT, None, s)
      | Some p \<Rightarrow> do {
          (status, out, s) \<leftarrow>
             dx_invalid_elements p (if wanted then Some dc_collection_create else None) s;
          if \<not> wanted then Some (status, None, s)
          else do {
            (n, out, s) \<leftarrow> dc_collection_size out s;
            if n \<noteq> 0 then Some (status, out, s)
            else do {
              (_, s) \<leftarrow> dc_collection_finished out s;
              Some (status, None, s) } } })"

definition disir_config_valid :: "ptr option \<Rightarrow> bool \<Rightarrow> store \<Rightarrow>
    (status \<times> disir_collection option \<times> store) option" where
  "disir_config_valid config wanted s = report_invalid config wanted s"

definition disir_mold_valid :: "ptr option \<Rightarrow> bool \<Rightarrow> store \<Rightarrow>
    (status \<times> disir_collection option \<times> store) option" where
  "disir_mold_valid mold wanted s = report_invalid mold wanted s"

section \<open>How the heap evolves\<close>

lemma evolves_mark_invalid [evolving]: "mark_invalid p s = Some s' \<Longrightarrow> evolves s0 s \<Longrightarrow> evolves s0 s'"
  unfolding mark_invalid_def by (erule evolves_upd) (rule tame_updates)

lemma evolves_entries_fulfilled [evolving]:
  "entries_fulfilled p k mn mx verdict s = Some (z, s') \<Longrightarrow> evolves s0 s \<Longrightarrow> evolves s0 s'"
  "count_elements p name s = Some (z1, z2, s') \<Longrightarrow> evolves s0 s \<Longrightarrow> evolves s0 s'"
  unfolding entries_fulfilled_def count_elements_def
  by (elim do_elims Pair_inject; ((hypsubst | erule Pair_inject)+)?; (assumption | erule evolving | rule tame_updates)+)+

lemma evolves_inclusive_loop [evolving]:
  "inclusive_loop n p v col name mn mx verdict s = Some (z1, z2, z3, s') \<Longrightarrow> evolves s0 s \<Longrightarrow> evolves s0 s'"
proof (induction n arbitrary: col name mn mx verdict s)
  case (Suc n)
  show ?case
    by (insert Suc.prems [unfolded inclusive_loop.simps], elim do_elims Pair_inject; ((hypsubst | erule Pair_inject)+)?;
      (assumption | erule evolving Suc.IH)+)
qed simp

lemma evolves_validate_checks [evolving]:
  "validate_inclusive_restrictions p s = Some (z1, s') \<Longrightarrow> evolves s0 s \<Longrightarrow> evolves s0 s'"
  "validate_exclusive_restrictions p s = Some (z2, s') \<Longrightarrow> evolves s0 s \<Longrightarrow> evolves s0 s'"
  "validate_finalized_parent_constructing_child_violating_max_restriction p s = Some (z3, s') \<Longrightarrow> evolves s0 s \<Longrightarrow> evolves s0 s'"
  "validate_restriction p s = Some (z4, s') \<Longrightarrow> evolves s0 s \<Longrightarrow> evolves s0 s'"
  "validate_name p s = Some (z5, s') \<Longrightarrow> evolves s0 s \<Longrightarrow> evolves s0 s'"
  "default_validity p s = Some (z6, s') \<Longrightarrow> evolves s0 s \<Longrightarrow> evolves s0 s'"
  unfolding validate_inclusive_restrictions_def validate_exclusive_restrictions_def validate_finalized_parent_constructing_child_violating_max_restriction_def validate_restriction_def validate_name_def default_validity_def
  by (elim do_elims Pair_inject; ((hypsubst | erule Pair_inject)+)?; (assumption | erule evolving | rule tame_updates)+)+

lemma evolves_validate_config [evolving]:
  "validate_config_keyval p s = Some (z1, s') \<Longrightarrow> evolves s0 s \<Longrightarrow> evolves s0 s'"
  "validate_config_section p s = Some (z2, s') \<Longrightarrow> evolves s0 s \<Longrightarrow> evolves s0 s'"
  unfolding validate_config_keyval_def validate_config_section_def
  by (elim do_elims Pair_inject; ((hypsubst | erule Pair_inject)+)?; (assumption | erule evolving | rule tame_updates)+)+

definition checker :: "validator \<Rightarrow> bool" where
  "checker validate \<longleftrightarrow>
     (\<forall>p s0 s st s'. validate p s = Some (st, s') \<longrightarrow> evolves s0 s \<longrightarrow> evolves s0 s')"

lemma checkerD:
  "validate p s = Some (st, s') \<Longrightarrow> checker validate \<Longrightarrow> evolves s0 s \<Longrightarrow> evolves s0 s'"
  by (auto simp: checker_def)

lemma evolves_children_loop [evolving]:
  "children_loop validate n col verdict s = Some (z1, z2, z3, s') \<Longrightarrow> checker validate \<Longrightarrow> evolves s0 s \<Longrightarrow> evolves s0 s'"
proof (induction n arbitrary: col verdict s)
  case (Suc n)
  show ?case
    by (insert Suc.prems [unfolded children_loop.simps], elim do_elims Pair_inject; ((hypsubst | erule Pair_inject)+)?;
      (assumption | erule evolving Suc.IH checkerD)+)
qed simp

lemma evolves_validate_queue_with [evolving]:
  "validate_queue_with validate p es s = Some (z, s') \<Longrightarrow> checker validate \<Longrightarrow> evolves s0 s \<Longrightarrow> evolves s0 s'"
proof (induction es arbitrary: s)
  case (Cons e es)
  show ?case
    by (insert Cons.prems [unfolded validate_queue_with.simps], elim do_elims Pair_inject; ((hypsubst | erule Pair_inject)+)?;
      (assumption | erule evolving Cons.IH checkerD)+)
qed simp

lemma evolves_validate_children_with [evolving]:
  "validate_children_with validate p s = Some (z, s') \<Longrightarrow> checker validate \<Longrightarrow> evolves s0 s \<Longrightarrow> evolves s0 s'"
  unfolding validate_children_with_def
  by (elim do_elims Pair_inject; ((hypsubst | erule Pair_inject)+)?; (assumption | erule evolving | rule tame_updates)+)

lemma evolves_top_validity_with [evolving]:
  "top_validity_with validate p verdict s = Some (z, s') \<Longrightarrow> checker validate \<Longrightarrow> evolves s0 s \<Longrightarrow> evolves s0 s'"
  unfolding top_validity_with_def
  by (elim do_elims Pair_inject; ((hypsubst | erule Pair_inject)+)?; (assumption | erule evolving | rule tame_updates)+)

lemma evolves_element_validity_with [evolving]:
  "section_validity_with validate p s = Some (z, s') \<Longrightarrow> checker validate \<Longrightarrow> evolves s0 s \<Longrightarrow> evolves s0 s'"
  "keyval_validity_with validate p s = Some (z1, s') \<Longrightarrow> checker validate \<Longrightarrow> evolves s0 s \<Longrightarrow> evolves s0 s'"
  unfolding section_validity_with_def keyval_validity_with_def
  by (elim do_elims Pair_inject; ((hypsubst | erule Pair_inject)+)?; (assumption | erule evolving | rule tame_updates)+)+

lemma evolves_validate_context_validity_with [evolving]:
  "validate_context_validity_with validate p s = Some (z, s') \<Longrightarrow> checker validate \<Longrightarrow> evolves s0 s \<Longrightarrow> evolves s0 s'"
  unfolding validate_context_validity_with_def
  by (elim do_elims Pair_inject type_SomeE; ((hypsubst | erule Pair_inject)+)?; (assumption | erule evolving | rule tame_updates)+)

lemma evolves_dx_validate_context_with [evolving]:
  "dx_validate_context_with validate p s = Some (z, s') \<Longrightarrow> checker validate \<Longrightarrow> evolves s0 s \<Longrightarrow> evolves s0 s'"
  unfolding dx_validate_context_with_def
  by (elim do_elims Pair_inject; ((hypsubst | erule Pair_inject)+)?; (assumption | erule evolving | rule tame_updates)+)

lemma checker_fuel: "checker (dx_validate_context_fuel n)"
proof (induction n)
  case (Suc n)
  then show ?case
    unfolding checker_def [of "dx_validate_context_fuel (Suc n)"]
    by (auto intro: evolves_dx_validate_context_with)
qed (simp add: checker_def)

lemma evolves_validate_context [evolving]:
  "dx_validate_context p s = Some (z, s') \<Longrightarrow> evolves s0 s \<Longrightarrow> evolves s0 s'"
  unfolding dx_validate_context_def by (erule checkerD) (rule checker_fuel)

definition inspector :: "lister \<Rightarrow> bool" where
  "inspector inspect \<longleftrightarrow>
     (\<forall>p out s0 s st r s'. inspect p out s = Some (st, r, s') \<longrightarrow> evolves s0 s \<longrightarrow> evolves s0 s')"

lemma inspectorD:
  "inspect p out s = Some (st, r, s') \<Longrightarrow> inspector inspect \<Longrightarrow> evolves s0 s \<Longrightarrow> evolves s0 s'"
  by (auto simp: inspector_def)

lemma evolves_push_if_wanted [evolving]:
  "push_if_wanted out p s = Some (z, s') \<Longrightarrow> evolves s0 s \<Longrightarrow> evolves s0 s'"
  unfolding push_if_wanted_def
  by (elim do_elims Pair_inject; ((hypsubst | erule Pair_inject)+)?; (assumption | erule evolving | rule tame_updates)+)

lemma evolves_context_valid [evolving]:
  "dc_context_valid p s = Some (z, s') \<Longrightarrow> evolves s0 s \<Longrightarrow> evolves s0 s'"
  by (auto simp: dc_context_valid_def bind_eq_Some_conv split: if_splits intro: evolving)

lemma evolves_inspect_element [evolving]:
  "inspect_element inspect e out verdict s = Some (z1, z2, s') \<Longrightarrow> inspector inspect \<Longrightarrow> evolves s0 s \<Longrightarrow> evolves s0 s'"
  unfolding inspect_element_def
  by (elim do_elims Pair_inject; ((hypsubst | erule Pair_inject)+)?; (assumption | erule evolving inspectorD)+)

lemma evolves_invalid_loop [evolving]:
  "invalid_loop inspect n col out verdict s = Some (z1, z2, z3, z4, s') \<Longrightarrow> inspector inspect \<Longrightarrow> evolves s0 s \<Longrightarrow> evolves s0 s'"
proof (induction n arbitrary: col out verdict s)
  case (Suc n)
  show ?case
    by (insert Suc.prems [unfolded invalid_loop.simps], elim do_elims Pair_inject; ((hypsubst | erule Pair_inject)+)?;
      (assumption | erule evolving Suc.IH)+)
qed simp

lemma evolves_dx_invalid_elements_with [evolving]:
  "dx_invalid_elements_with inspect p out s = Some (z1, z2, s') \<Longrightarrow> inspector inspect \<Longrightarrow> evolves s0 s \<Longrightarrow> evolves s0 s'"
  unfolding dx_invalid_elements_with_def
  by (elim do_elims Pair_inject; ((hypsubst | erule Pair_inject)+)?; (assumption | erule evolving | rule tame_updates)+)

lemma inspector_fuel: "inspector (dx_invalid_elements_fuel n)"
proof (induction n)
  case (Suc n)
  then show ?case
    unfolding inspector_def [of "dx_invalid_elements_fuel (Suc n)"]
    by (auto intro: evolves_dx_invalid_elements_with)
qed (simp add: inspector_def)

lemma evolves_invalid_elements [evolving]:
  "dx_invalid_elements p out s = Some (z1, z2, s') \<Longrightarrow> evolves s0 s \<Longrightarrow> evolves s0 s'"
  unfolding dx_invalid_elements_def by (erule inspectorD) (rule inspector_fuel)

lemma evolves_report_invalid [evolving]:
  "report_invalid p wanted s = Some (z1, z2, s') \<Longrightarrow> evolves s0 s \<Longrightarrow> evolves s0 s'"
  unfolding report_invalid_def
  by (elim do_elims Pair_inject; ((hypsubst | erule Pair_inject)+)?; (assumption | erule evolving | rule tame_updates)+)

lemma evolves_disir_valid [evolving]:
  "disir_config_valid p wanted s = Some (z1, z2, s') \<Longrightarrow> evolves s0 s \<Longrightarrow> evolves s0 s'"
  "disir_mold_valid p wanted s = Some (z1, z2, s') \<Longrightarrow> evolves s0 s \<Longrightarrow> evolves s0 s'"
  unfolding disir_config_valid_def disir_mold_valid_def by (erule (1) evolves_report_invalid)+

end
