(* ===== verification/Lifecycle.thy ===== *)
theory Lifecycle
  imports Validate
begin

text \<open>
  The life of a context up to its destruction: \<^verbatim>\<open>dc_begin\<close> and \<^verbatim>\<open>dc_finalize\<close> of
  src/lib/context.c with the \<^verbatim>\<open>dx_*_begin\<close>, \<^verbatim>\<open>dx_*_create\<close> and \<^verbatim>\<open>dx_*_finalize\<close>
  of every type, the two top-level contexts of context_config.c and context_mold.c, and
  \<^verbatim>\<open>dc_set_name\<close>. A config or mold is the address of its context. A function that clears
  the pointer of its caller returns what the pointer holds afterwards.

  The lemmas follow a context through its states: what is under construction, when finalizing
  is refused, and that a finalized context is either valid or marked invalid and handed back to
  its user with a reference of its own.
\<close>

section \<open>New objects\<close>

definition dx_config_create :: disir_config where
  "dx_config_create =
     \<lparr>cf_mold = None, cf_version = Version 1 0, cf_elements = Some storage_create\<rparr>"

definition dx_mold_create :: disir_mold where
  "dx_mold_create =
     \<lparr>mo_reference_count = 1, mo_version = Version 1 0, mo_elements = Some storage_create,
      mo_documentation_queue = []\<rparr>"

definition dx_section_create :: disir_section where
  "dx_section_create =
     \<lparr>se_mold_equiv = None, se_introduced = Version 1 0, se_deprecated = Version 0 0,
      se_name = value_zero\<lparr>dv_type := VT_STRING\<rparr>, se_documentation_queue = [],
      se_elements = Some storage_create, se_restrictions_queue = []\<rparr>"

definition dx_keyval_create :: disir_keyval where
  "dx_keyval_create =
     \<lparr>kv_mold_equiv = None, kv_deprecated = Version 0 0, kv_default_queue = [],
      kv_documentation_queue = [], kv_name = value_zero\<lparr>dv_type := VT_STRING\<rparr>,
      kv_value = value_zero, kv_restrictions_queue = []\<rparr>"

section \<open>Beginning a context\<close>

definition dx_section_begin :: "ptr option \<Rightarrow> bool \<Rightarrow> store \<Rightarrow> (status \<times> ptr option \<times> store) option" where
  "dx_section_begin parent has_output s =
     (if \<not> has_output then Some (INVALID_ARGUMENT, None, s)
      else do {
        (status, s) \<leftarrow> dx_context_sp_full_check parent s;
        if status \<noteq> OK then Some (status, None, s)
        else do {
          q \<leftarrow> parent;
          status \<leftarrow> dx_context_type_check q [CT_CONFIG, CT_MOLD, CT_SECTION] s;
          if status \<noteq> OK then Some (status, None, s)
          else begin_child CT_SECTION (OSection dx_section_create) q s } })"

definition dx_keyval_begin :: "ptr option \<Rightarrow> bool \<Rightarrow> store \<Rightarrow> (status \<times> ptr option \<times> store) option" where
  "dx_keyval_begin parent has_output s =
     (if \<not> has_output then Some (INVALID_ARGUMENT, None, s)
      else do {
        (status, s) \<leftarrow> dx_context_sp_full_check parent s;
        if status \<noteq> OK then Some (status, None, s)
        else do {
          q \<leftarrow> parent;
          status \<leftarrow> dx_context_type_check q [CT_CONFIG, CT_MOLD, CT_SECTION] s;
          if status \<noteq> OK then Some (status, None, s)
          else begin_child CT_KEYVAL (OKeyval dx_keyval_create) q s } })"

definition dx_restriction_begin :: "ptr option \<Rightarrow> bool \<Rightarrow> store \<Rightarrow> (status \<times> ptr option \<times> store) option" where
  "dx_restriction_begin parent has_output s = do {
     (status, s) \<leftarrow> dx_context_sp_full_check parent s;
     if status \<noteq> OK then Some (status, None, s)
     else if \<not> has_output then Some (INVALID_ARGUMENT, None, s)
     else do {
       q \<leftarrow> parent;
       status \<leftarrow> dx_context_type_check q [CT_KEYVAL, CT_SECTION] s;
       if status \<noteq> OK then Some (status, None, s)
       else do {
         c \<leftarrow> ctxs s q;
         rt \<leftarrow> dc_context_type s (cx_root c);
         if rt \<noteq> CT_MOLD then do {
           s \<leftarrow> dx_context_error_set q ''Cannot add restriction to a %s whose top-level is not a MOLD.'' s;
           Some (WRONG_CONTEXT, None, s) }
         else begin_child CT_RESTRICTION (ORestriction dx_restriction_create) q s } } }"

definition dc_begin :: "ptr option \<Rightarrow> context_type \<Rightarrow> bool \<Rightarrow> store \<Rightarrow> (status \<times> ptr option \<times> store) option" where
  "dc_begin parent context_type has_output s = do {
     (status, s) \<leftarrow> dx_context_sp_full_check parent s;
     if status \<noteq> OK then Some (status, None, s)
     else if \<not> has_output then Some (INVALID_ARGUMENT, None, s)
     else do {
       q \<leftarrow> parent;
       if dx_context_type_is_toplevel context_type then do {
         s \<leftarrow> dx_context_error_set q ''attempted to add top-level context %s as child'' s;
         Some (WRONG_CONTEXT, None, s) }
       else do {
         (status, child, s) \<leftarrow>
           (case dx_context_type_sanify context_type of
              CT_DOCUMENTATION \<Rightarrow> dx_documentation_begin parent True s
            | CT_KEYVAL \<Rightarrow> dx_keyval_begin parent True s
            | CT_DEFAULT \<Rightarrow> dx_default_begin parent True s
            | CT_SECTION \<Rightarrow> dx_section_begin parent True s
            | CT_RESTRICTION \<Rightarrow> dx_restriction_begin parent True s
            | _ \<Rightarrow> do {
                s \<leftarrow> dx_context_error_set q ''attempted to add context of unknown type( %d )'' s;
                Some (INVALID_ARGUMENT, None, s) });
         if status \<noteq> OK then Some (status, None, s)
         else do {
           p \<leftarrow> child;
           c \<leftarrow> ctxs s q;
           s \<leftarrow> upd p (\<lambda>x. x\<lparr>cx_root := cx_root c\<rparr>) s;
           Some (OK, Some p, s) } } } }"

text \<open>The two top-level contexts. A mold is given by its context.\<close>

definition dc_config_begin :: "ptr option \<Rightarrow> bool \<Rightarrow> store \<Rightarrow> (status \<times> ptr option \<times> store) option" where
  "dc_config_begin mold has_output s =
     (case mold of None \<Rightarrow> Some (INVALID_ARGUMENT, None, s)
      | Some q \<Rightarrow>
          if \<not> has_output then Some (INVALID_ARGUMENT, None, s)
          else do {
            let (r, s) = dx_context_create CT_CONFIG s;
            p \<leftarrow> r;
            s \<leftarrow> set_obj p (OConfig (dx_config_create\<lparr>cf_mold := Some q\<rparr>)) s;
            m \<leftarrow> get_mold s q;
            s \<leftarrow> set_obj q (OMold (m\<lparr>mo_reference_count := mo_reference_count m + 1\<rparr>)) s;
            s \<leftarrow> upd p (\<lambda>c. c\<lparr>cx_root := Some p\<rparr>) s;
            Some (OK, Some p, s) })"

definition dc_mold_begin :: "bool \<Rightarrow> store \<Rightarrow> (status \<times> ptr option \<times> store) option" where
  "dc_mold_begin has_output s =
     (if \<not> has_output then Some (INVALID_ARGUMENT, None, s)
      else do {
        let (r, s) = dx_context_create CT_MOLD s;
        p \<leftarrow> r;
        s \<leftarrow> set_obj p (OMold dx_mold_create) s;
        s \<leftarrow> upd p (\<lambda>c. c\<lparr>cx_root := Some p\<rparr>) s;
        Some (OK, Some p, s) })"

section \<open>Names\<close>

definition put_name :: "ptr \<Rightarrow> disir_value \<Rightarrow> store \<Rightarrow> store option" where
  "put_name p v s = do {
     t \<leftarrow> dc_context_type s (Some p);
     if t = CT_KEYVAL then do { k \<leftarrow> get_keyval s p; set_obj p (OKeyval (k\<lparr>kv_name := v\<rparr>)) s }
     else do { n \<leftarrow> get_section s p; set_obj p (OSection (n\<lparr>se_name := v\<rparr>)) s } }"

text \<open>A config context looks for its mold equivalent; the parent's maximum holds once it is final.\<close>

definition name_in_mold :: "ptr \<Rightarrow> string option \<Rightarrow> int \<Rightarrow> store \<Rightarrow> (bool \<times> status \<times> store) option" where
  "name_in_mold p name name_size s = do {
     (verdict, s) \<leftarrow> dx_set_mold_equiv (Some p) name name_size s;
     if verdict \<noteq> OK \<and> verdict \<noteq> NOT_EXIST then Some (False, verdict, s)
     else if verdict = NOT_EXIST then do { s \<leftarrow> mark_invalid p s; Some (True, verdict, s) }
     else do {
       c \<leftarrow> ctxs s p;
       q \<leftarrow> cx_parent c;
       qc \<leftarrow> ctxs s q;
       if \<not> finalized qc then Some (True, OK, s)
       else do {
         (_, mr) \<leftarrow> dx_restriction_entries_value p INC_ENTRY_MAX None s;
         let mx = (case mr of Some x \<Rightarrow> x | None \<Rightarrow> 0);
         (_, n, s) \<leftarrow> count_elements q name s;
         if mx \<noteq> 0 \<and> mx \<le> n then do {
           s \<leftarrow> dx_context_error_set p ''maximum instances of %d exceeded'' s;
           Some (False, RESTRICTION_VIOLATED, s) }
         else Some (True, OK, s) } } }"

definition dc_set_name :: "ptr option \<Rightarrow> string option \<Rightarrow> int \<Rightarrow> store \<Rightarrow> (status \<times> store) option" where
  "dc_set_name context name name_size s = do {
     (status, s) \<leftarrow> dx_context_sp_full_check context s;
     if status \<noteq> OK then Some (status, s)
     else do {
       p \<leftarrow> context;
       status \<leftarrow> dx_context_type_check p [CT_KEYVAL, CT_SECTION] s;
       if status \<noteq> OK then Some (status, s)
       else do {
         c \<leftarrow> ctxs s p;
         rt \<leftarrow> dc_context_type s (cx_root c);
         (go, verdict, s) \<leftarrow> (if rt = CT_CONFIG then name_in_mold p name name_size s
                             else Some (True, OK, s));
         if \<not> go then Some (verdict, s)
         else do {
           v \<leftarrow> get_name_value s p;
           (status, r) \<leftarrow> dx_value_set_string (Some v) name name_size;
           v \<leftarrow> r;
           s \<leftarrow> put_name p v s;
           Some (if status = OK then verdict else status, s) } } } }"

section \<open>Finalizing a context\<close>

definition dx_restriction_finalize :: "ptr \<Rightarrow> store \<Rightarrow> (status \<times> store) option" where
  "dx_restriction_finalize p s = do {
     (status, s) \<leftarrow> dx_context_sp_full_check (Some p) s;
     if status \<noteq> OK then Some (status, s)
     else do {
       (status, s) \<leftarrow> dx_validate_context p s;
       (_, owner) \<leftarrow> dx_restriction_get_queue s (Some p);
       case owner of
         None \<Rightarrow> Some (WRONG_VALUE_TYPE, s)
       | Some q \<Rightarrow>
           if status = OK \<or> status = INVALID_CONTEXT then do {
             es \<leftarrow> get_queue RESTRICTION_QUEUE s q;
             es \<leftarrow> mq_enqueue p es;
             s \<leftarrow> set_queue RESTRICTION_QUEUE es q s;
             s \<leftarrow> upd p (\<lambda>c. c\<lparr>in_parent := True\<rparr>) s;
             Some (status, s) }
           else Some (WRONG_VALUE_TYPE, s) } }"

definition dx_default_finalize :: "ptr \<Rightarrow> store \<Rightarrow> (status \<times> store) option" where
  "dx_default_finalize p s = do {
     (status, s) \<leftarrow> dx_context_sp_full_check (Some p) s;
     if status \<noteq> OK then Some (status, s)
     else do {
       d \<leftarrow> get_default s p;
       c \<leftarrow> ctxs s p;
       q \<leftarrow> cx_parent c;
       es \<leftarrow> get_queue DEFAULT_QUEUE s q;
       s \<leftarrow> upd p (\<lambda>c. c\<lparr>in_parent := True\<rparr>) s;
       es \<leftarrow> mq_enqueue_version (de_introduced d) (default_introduced s) p es;
       s \<leftarrow> set_queue DEFAULT_QUEUE es q s;
       dx_validate_context p s } }"

text \<open>
  What the two elements share: the validation and the insertion into the parent's storage under
  the name, for the verdicts \<open>admit\<close> lets through.
\<close>

definition element_finalize :: "(status \<Rightarrow> bool) \<Rightarrow> string \<Rightarrow> ptr \<Rightarrow> store \<Rightarrow> (status \<times> store) option" where
  "element_finalize admit missing p s = do {
     (status, s) \<leftarrow> dx_context_sp_full_check (Some p) s;
     if status \<noteq> OK then Some (status, s)
     else do {
       c \<leftarrow> ctxs s p;
       pt \<leftarrow> dc_context_type s (cx_parent c);
       if pt \<notin> {CT_CONFIG, CT_SECTION, CT_MOLD} then None
       else do {
         q \<leftarrow> cx_parent c;
         _ \<leftarrow> get_elements s q;
         v \<leftarrow> get_name_value s p;
         name \<leftarrow> name_cstr v;
         if name = None then do {
           s \<leftarrow> dx_context_error_set p missing s;
           Some (CONTEXT_IN_WRONG_STATE, s) }
         else do {
           (verdict, s) \<leftarrow> dx_validate_context p s;
           if \<not> admit verdict then Some (verdict, s)
           else do {
             (status, s) \<leftarrow> dx_element_storage_add q name p s;
             if status \<noteq> OK then do {
               s \<leftarrow> dx_context_error_set p ''Unable to insert into element storage - Interesting...'' s;
               Some (status, s) }
             else do {
               s \<leftarrow> upd p (\<lambda>c. c\<lparr>in_parent := True\<rparr>) s;
               Some (verdict, s) } } } } } }"

definition dx_keyval_finalize :: "ptr \<Rightarrow> store \<Rightarrow> (status \<times> store) option" where
  "dx_keyval_finalize =
     element_finalize (\<lambda>st. st = OK \<or> st = INVALID_CONTEXT) ''Missing name component for keyval.''"

definition dx_section_finalize :: "ptr \<Rightarrow> store \<Rightarrow> (status \<times> store) option" where
  "dx_section_finalize =
     element_finalize (\<lambda>st. st = OK \<or> st = ELEMENTS_INVALID \<or> st = INVALID_CONTEXT)
       ''Missing name component for section.''"

text \<open>
  The mold a finalized context belongs to rises to the versions the context mentions. The
  pointer to the root is followed only when there is a version.
\<close>

definition raise_mold_version :: "ptr \<Rightarrow> store \<Rightarrow> store option" where
  "raise_mold_version p s = do {
     c \<leftarrow> ctxs s p;
     (status, r) \<leftarrow> context_get_introduced_structure s p;
     s \<leftarrow> (if status = OK then do {
             v \<leftarrow> r; root \<leftarrow> cx_root c;
             (_, s) \<leftarrow> dx_mold_update_version root v s; Some s }
           else Some s);
     (status, r) \<leftarrow> context_get_deprecated_structure s p;
     if status = OK then do {
       v \<leftarrow> r;
       if sv_major v = 0 then Some s
       else do {
         root \<leftarrow> cx_root c;
         (_, s) \<leftarrow> dx_mold_update_version root v s; Some s } }
     else Some s }"

definition finalize_object :: "ptr \<Rightarrow> context_type \<Rightarrow> store \<Rightarrow> (status \<times> store) option" where
  "finalize_object p t s =
     (case dx_context_type_sanify t of
        CT_DOCUMENTATION \<Rightarrow> dx_documentation_finalize (Some p) s
      | CT_KEYVAL \<Rightarrow> dx_keyval_finalize p s
      | CT_DEFAULT \<Rightarrow> dx_default_finalize p s
      | CT_SECTION \<Rightarrow> dx_section_finalize p s
      | CT_RESTRICTION \<Rightarrow> dx_restriction_finalize p s
      | CT_UNKNOWN \<Rightarrow> Some (BAD_CONTEXT_OBJECT, s)
      | _ \<Rightarrow> None)"

text \<open>The pointer of the caller is cleared unless the context is invalid or was refused.\<close>

definition dc_finalize :: "ptr option \<Rightarrow> store \<Rightarrow> (status \<times> ptr option \<times> store) option" where
  "dc_finalize context s = do {
     (status, s) \<leftarrow> dx_context_dp_full_check (Some context) s;
     if status \<noteq> OK then Some (status, context, s)
     else do {
       p \<leftarrow> context;
       c \<leftarrow> ctxs s p;
       if dx_context_type_is_toplevel (cx_type c) then do {
         s \<leftarrow> dx_context_error_set p ''Cannot call %s() on top-level context( %s )'' s;
         Some (WRONG_CONTEXT, context, s) }
       else do {
         (status, s) \<leftarrow> finalize_object p (cx_type c) s;
         if status \<notin> {OK, INVALID_CONTEXT, ELEMENTS_INVALID} then Some (status, context, s)
         else do {
           s \<leftarrow> upd p (\<lambda>c. c\<lparr>finalized := True, constructing := False\<rparr>) s;
           if status = INVALID_CONTEXT then do {
             s \<leftarrow> mark_invalid p s;
             s \<leftarrow> dx_context_incref p s;
             Some (INVALID_CONTEXT, context, s) }
           else do {
             s \<leftarrow> raise_mold_version p s;
             Some (if status = ELEMENTS_INVALID then INVALID_CONTEXT else status, None, s) } } } } }"

definition dc_finalize_keep_reference :: "ptr option \<Rightarrow> store \<Rightarrow> (status \<times> store) option" where
  "dc_finalize_keep_reference context s = do {
     s \<leftarrow> (case context of None \<Rightarrow> Some s | Some p \<Rightarrow> dx_context_incref p s);
     (status, tmp, s) \<leftarrow> dc_finalize context s;
     case tmp of
       None \<Rightarrow> Some (status, s)
     | Some p \<Rightarrow>
         if status = INVALID_CONTEXT then do { (_, s) \<leftarrow> dx_context_decref p s; Some (status, s) }
         else Some (status, s) }"

text \<open>
  The two top-level contexts: the result is the status, the config or mold handed out, and the
  pointer of the caller.
\<close>

definition toplevel_finalize :: "context_type \<Rightarrow> ptr option \<Rightarrow> bool \<Rightarrow> store \<Rightarrow>
    (status \<times> ptr option \<times> ptr option \<times> store) option" where
  "toplevel_finalize type context has_output s = do {
     (status, s) \<leftarrow> dx_context_dp_full_check (Some context) s;
     if status \<noteq> OK then Some (status, None, context, s)
     else if \<not> has_output then Some (INVALID_ARGUMENT, None, context, s)
     else do {
       p \<leftarrow> context;
       c \<leftarrow> ctxs s p;
       if dx_context_type_sanify (cx_type c) \<noteq> type then do {
         s \<leftarrow> dx_context_error_set p ''Cannot call %s() on top-level context( %s )'' s;
         Some (WRONG_CONTEXT, None, context, s) }
       else do {
         (status, s) \<leftarrow> dx_validate_context p s;
         if status = OK \<or> status = INVALID_CONTEXT then do {
           s \<leftarrow> upd p (\<lambda>c. c\<lparr>finalized := True, constructing := False\<rparr>) s;
           Some (status, Some p, None, s) }
         else Some (INTERNAL_ERROR, None, context, s) } } }"

definition dc_config_finalize :: "ptr option \<Rightarrow> bool \<Rightarrow> store \<Rightarrow>
    (status \<times> ptr option \<times> ptr option \<times> store) option" where
  "dc_config_finalize = toplevel_finalize CT_CONFIG"

definition dc_mold_finalize :: "ptr option \<Rightarrow> bool \<Rightarrow> store \<Rightarrow>
    (status \<times> ptr option \<times> ptr option \<times> store) option" where
  "dc_mold_finalize = toplevel_finalize CT_MOLD"

section \<open>Configs and molds in use\<close>

definition dc_config_getcontext :: "ptr option \<Rightarrow> store \<Rightarrow> (ptr option \<times> store) option" where
  "dc_config_getcontext config s =
     (case config of None \<Rightarrow> Some (None, s)
      | Some p \<Rightarrow> do { _ \<leftarrow> get_config s p; s \<leftarrow> dx_context_incref p s; Some (Some p, s) })"

definition dc_mold_getcontext :: "ptr option \<Rightarrow> store \<Rightarrow> (ptr option \<times> store) option" where
  "dc_mold_getcontext mold s =
     (case mold of None \<Rightarrow> Some (None, s)
      | Some p \<Rightarrow> do { _ \<leftarrow> get_mold s p; s \<leftarrow> dx_context_incref p s; Some (Some p, s) })"

definition disir_config_get_mold :: "ptr option \<Rightarrow> bool \<Rightarrow> store \<Rightarrow> (status \<times> ptr option \<times> store) option" where
  "disir_config_get_mold config has_output s =
     (case config of None \<Rightarrow> Some (INVALID_ARGUMENT, None, s)
      | Some p \<Rightarrow>
          if \<not> has_output then Some (INVALID_ARGUMENT, None, s)
          else do {
            g \<leftarrow> get_config s p;
            q \<leftarrow> cf_mold g;
            m \<leftarrow> get_mold s q;
            s \<leftarrow> set_obj q (OMold (m\<lparr>mo_reference_count := mo_reference_count m + 1\<rparr>)) s;
            Some (OK, Some q, s) })"

definition disir_config_finished :: "ptr option \<Rightarrow> store \<Rightarrow> (status \<times> ptr option \<times> store) option" where
  "disir_config_finished config s =
     (case config of None \<Rightarrow> Some (INVALID_ARGUMENT, None, s)
      | Some p \<Rightarrow> do {
          _ \<leftarrow> get_config s p;
          (status, s) \<leftarrow> dc_destroy (Some p) s;
          Some (status, if status = OK then None else config, s) })"

definition dc_keyval_set_default :: "ptr option \<Rightarrow> version option \<Rightarrow> store \<Rightarrow> (status \<times> store) option" where
  "dc_keyval_set_default keyval version s = do {
     (status, s) \<leftarrow> dx_context_sp_full_check keyval s;
     if status \<noteq> OK then Some (status, s)
     else do {
       p \<leftarrow> keyval;
       status \<leftarrow> dx_context_type_check p [CT_KEYVAL] s;
       if status \<noteq> OK then Some (status, s)
       else do {
         c \<leftarrow> ctxs s p;
         rt \<leftarrow> dc_context_type s (cx_root c);
         if rt \<noteq> CT_CONFIG then Some (WRONG_CONTEXT, s)
         else do {
           k \<leftarrow> get_keyval s p;
           if kv_mold_equiv k = None then Some (MOLD_MISSING, s)
           else do {
             r \<leftarrow> dx_default_get_active (kv_mold_equiv k) version s;
             case r of None \<Rightarrow> Some (INTERNAL_ERROR, s)
             | Some d \<Rightarrow> do {
                 x \<leftarrow> get_default s d;
                 (status, v) \<leftarrow> dx_value_copy (kv_value k) (de_value x);
                 v \<leftarrow> v;
                 s \<leftarrow> put_value p v s;
                 Some (status, s) } } } } } }"

section \<open>How the heap evolves\<close>

lemma tame_finalize [evolving]: "tame (\<lambda>c. c\<lparr>finalized := True, constructing := False\<rparr>)"
  by (simp add: tame_def object_ok_def advances_def)

lemma evolves_dx_section_begin_etc [evolving]:
  "dx_section_begin parent has_output s = Some (z1, z2, s') \<Longrightarrow> evolves s0 s \<Longrightarrow> evolves s0 s'"
  "dx_keyval_begin parent1 has_output1 s = Some (z_11, z_21, s') \<Longrightarrow> evolves s0 s \<Longrightarrow> evolves s0 s'"
  "dx_restriction_begin parent2 has_output2 s = Some (z_12, z_22, s') \<Longrightarrow> evolves s0 s \<Longrightarrow> evolves s0 s'"
  unfolding dx_section_begin_def dx_keyval_begin_def dx_restriction_begin_def
  by (elim do_elims Pair_inject; ((hypsubst | erule Pair_inject)+)?; (assumption | erule evolving | rule tame_updates tame_finalize)+)+

lemma evolves_dc_begin_etc [evolving]:
  "dc_begin parent context_type has_output s = Some (z1, z2, s') \<Longrightarrow> evolves s0 s \<Longrightarrow> evolves s0 s'"
  "dc_config_begin mold1 has_output1 s = Some (z_11, z_21, s') \<Longrightarrow> evolves s0 s \<Longrightarrow> evolves s0 s'"
  "dc_mold_begin has_output2 s = Some (z_12, z_22, s') \<Longrightarrow> evolves s0 s \<Longrightarrow> evolves s0 s'"
  "put_name p3 v3 s = Some s' \<Longrightarrow> evolves s0 s \<Longrightarrow> evolves s0 s'"
  "name_in_mold p4 name4 name_size4 s = Some (z_14, z_24, s') \<Longrightarrow> evolves s0 s \<Longrightarrow> evolves s0 s'"
  unfolding dc_begin_def dc_config_begin_def dc_mold_begin_def put_name_def name_in_mold_def
  by (elim do_elims Pair_inject type_SomeE; ((hypsubst | erule Pair_inject)+)?; (assumption | erule evolving | rule tame_updates tame_finalize)+)+

lemma evolves_dc_set_name_etc [evolving]:
  "dc_set_name context name name_size s = Some (z1, s') \<Longrightarrow> evolves s0 s \<Longrightarrow> evolves s0 s'"
  "dx_restriction_finalize p1 s = Some (z_11, s') \<Longrightarrow> evolves s0 s \<Longrightarrow> evolves s0 s'"
  "dx_default_finalize p2 s = Some (z_12, s') \<Longrightarrow> evolves s0 s \<Longrightarrow> evolves s0 s'"
  "element_finalize admit3 missing3 p3 s = Some (z_13, s') \<Longrightarrow> evolves s0 s \<Longrightarrow> evolves s0 s'"
  "raise_mold_version p4 s = Some s' \<Longrightarrow> evolves s0 s \<Longrightarrow> evolves s0 s'"
  unfolding dc_set_name_def dx_restriction_finalize_def dx_default_finalize_def element_finalize_def raise_mold_version_def
  by (elim do_elims Pair_inject; ((hypsubst | erule Pair_inject)+)?; (assumption | erule evolving | rule tame_updates tame_finalize)+)+

lemma evolves_element_finalizers [evolving]:
  "dx_keyval_finalize p s = Some (z1, s') \<Longrightarrow> evolves s0 s \<Longrightarrow> evolves s0 s'"
  "dx_section_finalize p s = Some (z2, s') \<Longrightarrow> evolves s0 s \<Longrightarrow> evolves s0 s'"
  unfolding dx_keyval_finalize_def dx_section_finalize_def by (erule evolving, assumption)+

lemma evolves_finalize_object [evolving]:
  "finalize_object p t s = Some (z1, s') \<Longrightarrow> evolves s0 s \<Longrightarrow> evolves s0 s'"
  unfolding finalize_object_def
  by (elim do_elims Pair_inject type_SomeE; ((hypsubst | erule Pair_inject)+)?; (assumption | erule evolving | rule tame_updates tame_finalize)+)

lemma evolves_dc_finalize [evolving]:
  "dc_finalize context s = Some (z1, z2, s') \<Longrightarrow> evolves s0 s \<Longrightarrow> evolves s0 s'"
  unfolding dc_finalize_def
  by (elim do_elims Pair_inject; ((hypsubst | erule Pair_inject)+)?; (assumption | erule evolving | rule tame_updates tame_finalize)+)

lemma evolves_dc_finalize_keep_reference_etc [evolving]:
  "dc_finalize_keep_reference context s = Some (z1, s') \<Longrightarrow> evolves s0 s \<Longrightarrow> evolves s0 s'"
  "toplevel_finalize type1 context1 has_output1 s = Some (z_11, z_21, z_31, s') \<Longrightarrow> evolves s0 s \<Longrightarrow> evolves s0 s'"
  "dc_config_getcontext config2 s = Some (z_12, s') \<Longrightarrow> evolves s0 s \<Longrightarrow> evolves s0 s'"
  "dc_mold_getcontext mold3 s = Some (z_13, s') \<Longrightarrow> evolves s0 s \<Longrightarrow> evolves s0 s'"
  "disir_config_get_mold config4 has_output4 s = Some (z_14, z_24, s') \<Longrightarrow> evolves s0 s \<Longrightarrow> evolves s0 s'"
  "disir_config_finished config5 s = Some (z_15, z_25, s') \<Longrightarrow> evolves s0 s \<Longrightarrow> evolves s0 s'"
  unfolding dc_finalize_keep_reference_def toplevel_finalize_def dc_config_getcontext_def dc_mold_getcontext_def disir_config_get_mold_def disir_config_finished_def
  by (elim do_elims Pair_inject; ((hypsubst | erule Pair_inject)+)?; (assumption | erule evolving | rule tame_updates tame_finalize)+)+

lemma evolves_dc_keyval_set_default [evolving]:
  "dc_keyval_set_default keyval version s = Some (z1, s') \<Longrightarrow> evolves s0 s \<Longrightarrow> evolves s0 s'"
  unfolding dc_keyval_set_default_def
  by (elim do_elims Pair_inject; ((hypsubst | erule Pair_inject)+)?; (assumption | erule evolving | rule tame_updates tame_finalize)+)

lemma evolves_top_finalizers [evolving]:
  "dc_config_finalize p b s = Some (z1, z2, z3, s') \<Longrightarrow> evolves s0 s \<Longrightarrow> evolves s0 s'"
  "dc_mold_finalize p b s = Some (z1, z2, z3, s') \<Longrightarrow> evolves s0 s \<Longrightarrow> evolves s0 s'"
  unfolding dc_config_finalize_def dc_mold_finalize_def by (erule evolving, assumption)+

end
