(* ===== verification/Versioning.thy ===== *)
theory Versioning
  imports Lifecycle
begin

text \<open>
  How versions order what a mold holds: the version of a mold, the queue of the defaults of a
  keyval and of the documentation of a context, and the default that is active at a version
  (context_mold.c, context_default.c, context_documentation.c). The facts on the queues come from
  theory Mqueue; here they are carried over to the heap.
\<close>

lemma option_eqI: "(\<And>x. a = Some x \<longleftrightarrow> b = Some x) \<Longrightarrow> a = b"
  by (cases a; cases b) auto

section \<open>Objects and queues under an update of the heap\<close>

text \<open>An update that leaves the object of every context alone.\<close>

definition same_objects :: "store \<Rightarrow> store \<Rightarrow> bool" where
  "same_objects s s' \<longleftrightarrow> (\<forall>p. map_option cx_obj (ctxs s' p) = map_option cx_obj (ctxs s p))"

lemma same_objects_refl [simp]: "same_objects s s"
  by (simp add: same_objects_def)

lemma same_objects_trans: "same_objects s s' \<Longrightarrow> same_objects s' s'' \<Longrightarrow> same_objects s s''"
  by (simp add: same_objects_def)

lemma same_objects_upd: "upd p g s = Some s' \<Longrightarrow> (\<And>c. cx_obj (g c) = cx_obj c) \<Longrightarrow> same_objects s s'"
  by (auto simp: same_objects_def upd_Some)

lemma same_objects_cases:
  "same_objects s s' \<Longrightarrow> (ctxs s p = None \<and> ctxs s' p = None) \<or>
     (\<exists>c c'. ctxs s p = Some c \<and> ctxs s' p = Some c' \<and> cx_obj c' = cx_obj c)"
  by (cases "ctxs s p"; cases "ctxs s' p") (auto simp: same_objects_def dest: spec [of _ p])

lemma same_objects_read:
  assumes "same_objects s s'"
  shows "get_default s' p = get_default s p" "get_documentation s' p = get_documentation s p"
    "get_queue q s' p = get_queue q s p" "default_introduced s' p = default_introduced s p"
    "documentation_introduced s' p = documentation_introduced s p"
  using same_objects_cases [OF assms, of p]
  by (auto simp: get_default_def get_documentation_def get_queue_def default_introduced_def
      documentation_introduced_def)

text \<open>The queue of an object, and the object with another one.\<close>

fun queue_of :: "queue \<Rightarrow> disir_object \<Rightarrow> ptr list option" where
  "queue_of DOC_QUEUE (OMold m) = Some (mo_documentation_queue m)"
| "queue_of DOC_QUEUE (OSection n) = Some (se_documentation_queue n)"
| "queue_of DOC_QUEUE (OKeyval k) = Some (kv_documentation_queue k)"
| "queue_of DOC_QUEUE (ORestriction r) = Some (re_documentation_queue r)"
| "queue_of DEFAULT_QUEUE (OKeyval k) = Some (kv_default_queue k)"
| "queue_of RESTRICTION_QUEUE (OSection n) = Some (se_restrictions_queue n)"
| "queue_of RESTRICTION_QUEUE (OKeyval k) = Some (kv_restrictions_queue k)"
| "queue_of _ _ = None"

fun with_queue :: "queue \<Rightarrow> ptr list \<Rightarrow> disir_object \<Rightarrow> disir_object" where
  "with_queue DOC_QUEUE ps (OMold m) = OMold (m\<lparr>mo_documentation_queue := ps\<rparr>)"
| "with_queue DOC_QUEUE ps (OSection n) = OSection (n\<lparr>se_documentation_queue := ps\<rparr>)"
| "with_queue DOC_QUEUE ps (OKeyval k) = OKeyval (k\<lparr>kv_documentation_queue := ps\<rparr>)"
| "with_queue DOC_QUEUE ps (ORestriction r) = ORestriction (r\<lparr>re_documentation_queue := ps\<rparr>)"
| "with_queue DEFAULT_QUEUE ps (OKeyval k) = OKeyval (k\<lparr>kv_default_queue := ps\<rparr>)"
| "with_queue RESTRICTION_QUEUE ps (OSection n) = OSection (n\<lparr>se_restrictions_queue := ps\<rparr>)"
| "with_queue RESTRICTION_QUEUE ps (OKeyval k) = OKeyval (k\<lparr>kv_restrictions_queue := ps\<rparr>)"
| "with_queue _ _ x = x"

lemma queue_of_with_queue [simp]: "queue_of q x \<noteq> None \<Longrightarrow> queue_of q (with_queue q ps x) = Some ps"
  by (cases q; cases x) auto

lemma object_type_with_queue [simp]: "object_type (with_queue q ps x) = object_type x"
  by (cases q; cases x) auto

lemma with_queue_other [simp]:
  "with_queue q ps x = ODefault d \<longleftrightarrow> x = ODefault d" "with_queue q ps x = ODocumentation e \<longleftrightarrow> x = ODocumentation e"
  by (cases q; cases x; auto)+

lemma get_queue_of: "get_queue q s p = do { c \<leftarrow> ctxs s p; x \<leftarrow> cx_obj c; queue_of q x }"
  unfolding get_queue_def
  by (intro arg_cong2 [where f = Option.bind] refl ext) (auto split: queue.splits disir_object.splits)

lemma set_queue_with:
  "set_queue q ps p s = do { c \<leftarrow> ctxs s p; x \<leftarrow> cx_obj c; _ \<leftarrow> queue_of q x; set_obj p (with_queue q ps x) s }"
  unfolding set_queue_def
  by (intro arg_cong2 [where f = Option.bind] refl ext) (auto split: queue.splits disir_object.splits)

lemma set_queue_Some:
  "set_queue q ps p s = Some s' \<longleftrightarrow> (\<exists>c x. ctxs s p = Some c \<and> cx_obj c = Some x \<and> queue_of q x \<noteq> None \<and>
     object_type x = cx_type c \<and> s' = s\<lparr>ctxs := (ctxs s)(p \<mapsto> c\<lparr>cx_obj := Some (with_queue q ps x)\<rparr>)\<rparr>)"
  by (auto simp: set_queue_with bind_eq_Some_conv set_obj_Some)

lemma get_default_iff: "get_default s p = Some d \<longleftrightarrow> (\<exists>c. ctxs s p = Some c \<and> cx_obj c = Some (ODefault d))"
  by (auto simp: get_default_def split: option.splits disir_object.splits)

lemma get_documentation_iff:
  "get_documentation s p = Some d \<longleftrightarrow> (\<exists>c. ctxs s p = Some c \<and> cx_obj c = Some (ODocumentation d))"
  by (auto simp: get_documentation_def split: option.splits disir_object.splits)

lemma set_queue_reads:
  assumes "set_queue q ps p s = Some s'"
  shows "get_queue q s' p = Some ps" "e \<noteq> p \<Longrightarrow> ctxs s' e = ctxs s e" "next_ptr s' = next_ptr s"
    "get_default s' e = get_default s e" "get_documentation s' e = get_documentation s e"
    "ctxs s p = Some c \<Longrightarrow> \<exists>x. ctxs s' p = Some (c\<lparr>cx_obj := x\<rparr>)"
proof -
  show "get_default s' e = get_default s e"
    using assms by (intro option_eqI) (auto simp: get_default_iff set_queue_Some split: if_splits)
  show "get_documentation s' e = get_documentation s e"
    using assms by (intro option_eqI) (auto simp: get_documentation_iff set_queue_Some split: if_splits)
qed (use assms in \<open>auto simp: set_queue_Some get_queue_of\<close>)

lemma set_queue_ok:
  assumes "store_ok s" and "get_queue q s p = Some ps"
  shows "\<exists>s'. set_queue q ps' p s = Some s'"
  using assms by (auto simp: set_queue_Some get_queue_of bind_eq_Some_conv object_ok_def dest!: store_okD)


section \<open>Properties\<close>

text \<open>
  The version of a mold only rises: after an update it is the greater, in the order on
  (major, minor), of what it was and the version it is updated with, and nothing else of the mold
  changes.
\<close>

theorem mold_version_is_max:
  assumes "store_ok s" and "get_mold s p = Some m"
  shows "\<exists>s'. dx_mold_update_version p v s = Some (OK, s') \<and>
    get_mold s' p = Some (m\<lparr>mo_version := max (mo_version m) v\<rparr>) \<and> (\<forall>q. q \<noteq> p \<longrightarrow> ctxs s' q = ctxs s q)"
proof -
  obtain c where c: "ctxs s p = Some c" "cx_obj c = Some (OMold m)"
    using assms(2) by (auto simp: get_mold_def split: option.splits disir_object.splits)
  then have t: "cx_type c = CT_MOLD" using store_okD [OF assms(1) c(1)] by (simp add: object_ok_def)
  have v: "(if sv_major (mo_version m) < sv_major v then v
      else if sv_major (mo_version m) = sv_major v \<and> sv_minor (mo_version m) < sv_minor v
      then Version (sv_major (mo_version m)) (sv_minor v) else mo_version m) = max (mo_version m) v"
    by (cases v; cases "mo_version m") (auto simp: max_def less_eq_version_def)
  show ?thesis unfolding dx_mold_update_version_def Let_def assms(2) Option.bind.bind_lunit v
    using c t by (simp add: set_obj_def get_mold_def)
qed

theorem mold_version_is_max_witness:
  "\<exists>s s'. dc_mold_begin True empty_store = Some (OK, Some 0, s) \<and>
     dx_mold_update_version 0 (Version 2 3) s = Some (OK, s') \<and>
     map_option mo_version (get_mold s' 0) = Some (Version 2 3)"
proof -
  obtain s where s: "dc_mold_begin True empty_store = Some (OK, Some 0, s)" "get_mold s 0 = Some dx_mold_create"
    by (auto simp: dc_mold_begin_def dx_context_create_def empty_store_def dx_context_type_sanify_def
        set_obj_def get_mold_def)
  have "evolves empty_store s" using s(1) by (rule evolving) simp
  then have "store_ok s" using store_ok_empty by (simp add: evolves_def)
  from mold_version_is_max [OF this s(2), of "Version 2 3"] s(1) show ?thesis
    by (auto simp: dx_mold_create_def max_def less_eq_version_def)
qed

text \<open>
  C15. Which default is active: with versions below \<open>2 ^ 31\<close> and a queue sorted by the version
  the defaults were introduced in, it is the latest one introduced at or before the version asked
  for, the first one when all came later, and the last one when no version is asked for.
\<close>

theorem active_default_is_latest:
  assumes "get_queue DEFAULT_QUEUE s q = Some ds" and "ds \<noteq> []" and "distinct ds"
    and "versions_are f (default_introduced s) ds" and "sorted (map f ds)" and "small_version v"
  shows "dx_default_get_active (Some q) (Some v) s =
      Some (Some (if \<exists>e \<in> set ds. f e \<le> v then last (filter (\<lambda>e. f e \<le> v) ds) else hd ds)) \<and>
    dx_default_get_active (Some q) None s = Some (Some (last ds))"
  using mq_active_version [OF assms(4,6,5,3,2)] assms(1,2)
  by (auto simp: dx_default_get_active_def filter_empty_conv mq_active_def mq_tail_def)

text \<open>A keyval of a mold with defaults of versions 1.0 and 2.0 in its queue, and one of 1.5 begun.\<close>

definition sample_child :: "context_type \<Rightarrow> disir_object \<Rightarrow> disir_context" where
  "sample_child t x =
     \<lparr>cx_type = t, constructing = True, finalized = False, invalid = False, fatal = False, destroyed = False,
      in_parent = False, cx_obj = Some x, cx_parent = Some 0, cx_root = None, cx_refcount = 1, cx_error = None\<rparr>"

definition sample_heap :: store where
  "sample_heap =
     \<lparr>ctxs = [0 \<mapsto> sample_child CT_KEYVAL (OKeyval (dx_keyval_create\<lparr>kv_default_queue := [1, 2]\<rparr>)),
              1 \<mapsto> sample_child CT_DEFAULT (ODefault dx_default_create),
              2 \<mapsto> sample_child CT_DEFAULT (ODefault (dx_default_create\<lparr>de_introduced := Version 2 0\<rparr>)),
              3 \<mapsto> sample_child CT_DEFAULT (ODefault (dx_default_create\<lparr>de_introduced := Version 1 5\<rparr>))],
      next_ptr = 4\<rparr>"

definition sample_version :: "ptr \<Rightarrow> version" where
  "sample_version p = (if p = 1 then Version 1 0 else if p = 2 then Version 2 0 else Version 1 5)"

lemma sample_heap_facts:
  "store_ok sample_heap" "get_queue DEFAULT_QUEUE sample_heap 0 = Some [1, 2]"
  "versions_are sample_version (default_introduced sample_heap) [1, 2]"
  "sorted (map sample_version [1, 2])" "small_version (Version 1 5)" "sample_version 3 = Version 1 5"
  by (auto simp: sample_heap_def sample_child_def store_ok_def object_ok_def get_queue_def versions_are_def
      default_introduced_def get_default_def sample_version_def small_version_def dx_default_create_def
      less_eq_version_def dx_keyval_create_def)

theorem active_default_is_latest_witness:
  "dx_default_get_active (Some 0) (Some (Version 1 5)) sample_heap = Some (Some 1) \<and>
   dx_default_get_active (Some 0) None sample_heap = Some (Some 2)"
  using active_default_is_latest [OF sample_heap_facts(2) _ _ sample_heap_facts(3,4,5)]
  by (simp add: sample_version_def less_eq_version_def)

lemma mark_invalid_Some:
  "mark_invalid p s = Some s' \<longleftrightarrow> (\<exists>c. ctxs s p = Some c \<and> s' = s\<lparr>ctxs := (ctxs s)(p \<mapsto> c\<lparr>invalid := True\<rparr>)\<rparr>)"
  by (simp add: mark_invalid_def upd_Some)

text \<open>The validation of a default reads the queue of its keyval and marks only itself.\<close>

lemma validate_default:
  assumes c: "ctxs s p = Some c" "cx_type c = CT_DEFAULT" "\<not> fatal c" "cx_obj c = Some (ODefault d)"
    and q: "cx_parent c = Some q" "ctxs s q = Some qc"
    and ds: "get_queue DEFAULT_QUEUE s q = Some ds" "versions_are f (default_introduced s) ds"
    and n: "n = length (filter (\<lambda>e. f e = de_introduced d) ds)"
  shows "\<exists>st s'. dx_validate_context p s = Some (st, s') \<and> same_objects s s' \<and> (st = OK \<longleftrightarrow> n = 1)"
proof -
  let ?s1 = "s\<lparr>ctxs := (ctxs s)(p \<mapsto> c\<lparr>invalid := False\<rparr>)\<rparr>"
  have same: "same_objects s ?s1" using c(1) by (auto simp: same_objects_def)
  have "mq_count_version (de_introduced d) (default_introduced ?s1) ds = Some n"
    using mq_count_version_eq [of f "default_introduced ?s1" ds "de_introduced d"] ds(2) n
    by (simp add: versions_are_def same_objects_read [OF same])
  moreover have "get_queue DEFAULT_QUEUE ?s1 q = Some ds" "get_default ?s1 p = Some d"
    using ds(1) c by (simp_all add: same_objects_read [OF same] get_default_def)
  ultimately have v: "default_validity p ?s1 =
      (if n \<noteq> 1 then do {
         s \<leftarrow> dx_context_error_set p ''already contains a default entry with semantic version: %s'' ?s1;
         Some (CONFLICTING_SEMVER, s) } else Some (OK, ?s1))"
    using q(1) by (simp add: default_validity_def)
  show ?thesis
    using c q v
    by (auto simp: dx_validate_context_def dx_validate_context_with_def validate_context_validity_with_def
        dc_context_type_def dx_context_type_sanify_def dx_context_error_set_def mark_invalid_def
        invalidating_def same_objects_def)
qed

text \<open>
  C14. Finalizing a default puts it into the queue of its keyval behind every default
  introduced before or with it and in front of every later one, so the queue stays sorted, and
  it is accepted exactly when no other default of the keyval was introduced in its version.
\<close>

theorem default_finalize_keeps_queue_sorted:
  assumes s: "store_ok s"
    and c: "ctxs s p = Some c" "cx_type c = CT_DEFAULT" "\<not> destroyed c" "\<not> fatal c" "cx_obj c = Some (ODefault d)"
    and q: "cx_parent c = Some q" "q \<noteq> p"
    and ds: "get_queue DEFAULT_QUEUE s q = Some ds" "p \<notin> set ds" "versions_are f (default_introduced s) ds"
      "sorted (map f ds)"
    and f: "f p = de_introduced d" "small_version (f p)"
  shows "\<exists>st s' ds1 ds2. dx_default_finalize p s = Some (st, s') \<and> ds = ds1 @ ds2 \<and>
    get_queue DEFAULT_QUEUE s' q = Some (ds1 @ p # ds2) \<and> sorted (map f (ds1 @ p # ds2)) \<and>
    (\<forall>e. default_introduced s' e = default_introduced s e) \<and> (st = OK \<longleftrightarrow> (\<forall>e \<in> set ds. f e \<noteq> f p))"
proof -
  let ?s1 = "s\<lparr>ctxs := (ctxs s)(p \<mapsto> c\<lparr>in_parent := True\<rparr>)\<rparr>"
  have e1: "evolves s ?s1" using evolves_upd [OF _ tame_updates(5) evolves_refl, of p "\<lambda>_. True" s ?s1] c(1) by simp
  then have s1: "store_ok ?s1" using s by (simp add: evolves_def)
  have same1: "same_objects s ?s1" using c(1) by (auto simp: same_objects_def)
  obtain qc where qc: "ctxs s q = Some qc" using ds(1) by (auto simp: get_queue_of bind_eq_Some_conv)
  obtain ds1 ds2 where split: "ds = ds1 @ ds2"
    and enq: "mq_enqueue_version (f p) (default_introduced s) p ds = Some (ds1 @ p # ds2)"
    and sorted: "sorted (map f (ds1 @ p # ds2))"
    using mq_enqueue_version_sorted [OF ds(3) f(2) ds(4,2)] by blast
  obtain s2 where s2: "set_queue DEFAULT_QUEUE (ds1 @ p # ds2) q ?s1 = Some s2"
    using set_queue_ok [OF s1] ds(1) same_objects_read(3) [OF same1] by metis
  have i2: "default_introduced s2 e = default_introduced s e" for e
    by (simp add: default_introduced_def set_queue_reads(4) [OF s2] same_objects_read [OF same1])
  have p2: "ctxs s2 p = Some (c\<lparr>in_parent := True\<rparr>)" using set_queue_reads(2) [OF s2, of p] q(2) by simp
  have q2: "\<exists>qc2. ctxs s2 q = Some qc2" using set_queue_reads(6) [OF s2, of qc] qc q(2) by auto
  have "default_introduced s p = Some (f p)" using c f by (simp add: default_introduced_def get_default_def)
  then have "versions_are f (default_introduced s2) (ds1 @ p # ds2)"
    using ds(3) f by (auto simp: versions_are_def i2 split)
  from validate_default [OF p2 _ _ _ _ _ set_queue_reads(1) [OF s2] this refl, of d] c q q2
  obtain st s' where v: "dx_validate_context p s2 = Some (st, s')" "same_objects s2 s'"
    "st = OK \<longleftrightarrow> length (filter (\<lambda>e. f e = de_introduced d) (ds1 @ p # ds2)) = 1" by auto
  have "default_introduced ?s1 = default_introduced s" using same_objects_read(4) [OF same1] by blast
  moreover have "get_default s p = Some d" using c by (simp add: get_default_def)
  ultimately have "dx_default_finalize p s = Some (st, s')"
    using c q ds(1) enq s2 v(1) f(1)
    by (simp add: dx_default_finalize_def dx_context_sp_full_check_def dx_context_type_sanify_def)
  moreover have "st = OK \<longleftrightarrow> (\<forall>e \<in> set ds. f e \<noteq> f p)"
    unfolding v(3) split using f(1) by (auto simp: filter_empty_conv)
  moreover have "get_queue DEFAULT_QUEUE s' q = Some (ds1 @ p # ds2)"
    using set_queue_reads(1) [OF s2] same_objects_read(3) [OF v(2)] by simp
  moreover have "\<forall>e. default_introduced s' e = default_introduced s e"
    using i2 same_objects_read(4) [OF v(2)] by simp
  ultimately show ?thesis using split sorted by blast
qed

theorem default_finalize_keeps_queue_sorted_witness:
  "\<exists>s'. dx_default_finalize 3 sample_heap = Some (OK, s') \<and>
     get_queue DEFAULT_QUEUE s' 0 = Some [1, 3, 2]"
proof -
  let ?d = "dx_default_create\<lparr>de_introduced := Version 1 5\<rparr>"
  let ?c = "sample_child CT_DEFAULT (ODefault ?d)"
  have c: "ctxs sample_heap 3 = Some ?c" "cx_type ?c = CT_DEFAULT" "\<not> destroyed ?c" "\<not> fatal ?c"
    "cx_obj ?c = Some (ODefault ?d)" "cx_parent ?c = Some 0" "(0 :: ptr) \<noteq> 3" "3 \<notin> set [1, 2 :: ptr]"
    "sample_version 3 = de_introduced ?d" "small_version (sample_version 3)"
    by (simp_all add: sample_heap_def sample_child_def sample_version_def small_version_def)
  obtain st s' ds1 ds2 where r: "dx_default_finalize 3 sample_heap = Some (st, s')" "[1, 2] = ds1 @ ds2"
    "get_queue DEFAULT_QUEUE s' 0 = Some (ds1 @ 3 # ds2)" "sorted (map sample_version (ds1 @ 3 # ds2))"
    "st = OK \<longleftrightarrow> (\<forall>e \<in> set [1, 2]. sample_version e \<noteq> sample_version 3)"
    using default_finalize_keeps_queue_sorted [OF sample_heap_facts(1) c(1-7) sample_heap_facts(2) c(8)
        sample_heap_facts(3,4) c(9,10)] by blast
  have ok: "st = OK" using r(5) by (simp add: sample_version_def)
  have "ds1 = [1]"
    using r(2,4) by (cases ds1; cases "tl ds1") (auto simp: sample_version_def less_eq_version_def)
  with r(1,2,3) ok show ?thesis by simp
qed

text \<open>
  C39. A documentation entry is refused, with the queue left as it was, when its parent already
  documents that version; otherwise it is inserted in the order of the versions.
\<close>

theorem documentation_add_by_version:
  assumes s: "store_ok s"
    and c: "ctxs s p = Some c" "cx_obj c = Some (ODocumentation d)"
    and q: "ctxs s q = Some qc" "cx_type qc \<in> {CT_MOLD, CT_KEYVAL, CT_SECTION, CT_RESTRICTION}"
    and ds: "get_queue DOC_QUEUE s q = Some ds" "p \<notin> set ds" "versions_are f (documentation_introduced s) ds"
      "sorted (map f ds)"
    and f: "f p = dd_introduced d" "small_version (f p)"
  shows "\<exists>st s'. dx_documentation_add (Some q) p s = Some (st, s') \<and>
    (if f p \<in> f ` set ds then st = CONFLICTING_SEMVER \<and> get_queue DOC_QUEUE s' q = Some ds
     else st = OK \<and> (\<exists>ds1 ds2. ds = ds1 @ ds2 \<and> get_queue DOC_QUEUE s' q = Some (ds1 @ p # ds2) \<and>
            sorted (map f (ds1 @ p # ds2))))"
proof -
  have t: "dc_context_type s (Some q) = Some (cx_type qc)"
    using q by (auto simp: dc_context_type_def dx_context_type_sanify_def)
  have g: "get_documentation s p = Some d" using c by (simp add: get_documentation_def)
  have n: "mq_count_version (dd_introduced d) (documentation_introduced s) ds =
      Some (length (filter (\<lambda>e. f e = f p) ds))"
    using mq_count_version_eq [OF ds(3), of "f p"] f(1) by simp
  show ?thesis
  proof (cases "f p \<in> f ` set ds")
    case True
    then have "filter (\<lambda>e. f e = f p) ds \<noteq> []" by (force simp: filter_empty_conv)
    moreover obtain s' where s': "dx_context_error_set q ''already contains a documentation entry with semantic version: %s'' s = Some s'"
      using q(1) by (auto simp: dx_context_error_set_def)
    moreover have "same_objects s s'"
      using s' unfolding dx_context_error_set_def by (rule same_objects_upd) simp
    ultimately show ?thesis
      using True c q(2) t g n ds(1) same_objects_read(3) [of s s'] by (simp add: dx_documentation_add_def)
  next
    case False
    then have "filter (\<lambda>e. f e = f p) ds = []" by (intro filter_False ballI) (metis imageI)
    moreover obtain ds1 ds2 where "ds = ds1 @ ds2" "sorted (map f (ds1 @ p # ds2))"
      "mq_enqueue_version (f p) (documentation_introduced s) p ds = Some (ds1 @ p # ds2)"
      using mq_enqueue_version_sorted [OF ds(3) f(2) ds(4,2)] by blast
    moreover obtain s' where "set_queue DOC_QUEUE (ds1 @ p # ds2) q s = Some s'"
      using set_queue_ok [OF s ds(1)] by blast
    ultimately show ?thesis
      using False c q(2) t g n ds(1) f(1) set_queue_reads(1) [of DOC_QUEUE "ds1 @ p # ds2" q s s']
      by (simp add: dx_documentation_add_def) blast
  qed
qed

theorem documentation_add_by_version_witness:
  "\<exists>s'. dx_documentation_add (Some 0) 4
       (sample_heap\<lparr>ctxs := (ctxs sample_heap)(4 \<mapsto> sample_child CT_DOCUMENTATION
          (ODocumentation dx_documentation_create)), next_ptr := 5\<rparr>) = Some (OK, s') \<and>
     get_queue DOC_QUEUE s' 0 = Some [4]"
proof -
  let ?s = "sample_heap\<lparr>ctxs := (ctxs sample_heap)(4 \<mapsto> sample_child CT_DOCUMENTATION
          (ODocumentation dx_documentation_create)), next_ptr := 5\<rparr>"
  let ?d = dx_documentation_create
  let ?k = "dx_keyval_create\<lparr>kv_default_queue := [1, 2]\<rparr>"
  have s: "store_ok ?s" using sample_heap_facts(1)
    by (auto simp: store_ok_def object_ok_def sample_child_def sample_heap_def split: if_splits)
  have c: "ctxs ?s 4 = Some (sample_child CT_DOCUMENTATION (ODocumentation ?d))"
    "cx_obj (sample_child CT_DOCUMENTATION (ODocumentation ?d)) = Some (ODocumentation ?d)"
    "ctxs ?s 0 = Some (sample_child CT_KEYVAL (OKeyval ?k))"
    "cx_type (sample_child CT_KEYVAL (OKeyval ?k)) \<in> {CT_MOLD, CT_KEYVAL, CT_SECTION, CT_RESTRICTION}"
    "get_queue DOC_QUEUE ?s 0 = Some []" "4 \<notin> set ([] :: ptr list)"
    "versions_are (\<lambda>_. Version 0 0) (documentation_introduced ?s) []" "sorted (map (\<lambda>_. Version 0 0) ([] :: ptr list))"
    "(\<lambda>_. Version 0 0) 4 = dd_introduced ?d" "small_version ((\<lambda>_. Version 0 0) 4)"
    by (simp_all add: sample_child_def sample_heap_def get_queue_def dx_keyval_create_def small_version_def
        dx_documentation_create_def)
  obtain st s' where r: "dx_documentation_add (Some 0) 4 ?s = Some (st, s')"
    "if Version 0 0 \<in> (\<lambda>_. Version 0 0) ` set ([] :: ptr list)
     then st = CONFLICTING_SEMVER \<and> get_queue DOC_QUEUE s' 0 = Some []
     else st = OK \<and> (\<exists>ds1 ds2. [] = ds1 @ ds2 \<and> get_queue DOC_QUEUE s' 0 = Some (ds1 @ 4 # ds2) \<and>
            sorted (map (\<lambda>_. Version 0 0) (ds1 @ 4 # ds2)))"
    using documentation_add_by_version [OF s c] by blast
  then show ?thesis by simp
qed

end
