(* ===== verification/Constraints.thy ===== *)
theory Constraints
  imports Lifecycle
begin

text \<open>
  What the restrictions of a mold make of the values of a config: which restrictions are active
  at the version of the config, when a value is accepted (context_restriction.c), and what the
  setters and getters of context_value.c do with a value that is, or is not.
\<close>

section \<open>Active restrictions\<close>

text \<open>
  A restriction on values counts at a version when it was introduced by then and was not
  deprecated by then; version 0.0 is no deprecation.
\<close>

definition active :: "version \<Rightarrow> disir_restriction \<Rightarrow> bool" where
  "active v r \<longleftrightarrow> re_type r \<noteq> INC_ENTRY_MIN \<and> re_type r \<noteq> INC_ENTRY_MAX \<and> re_introduced r \<le> v \<and>
     (re_deprecated r = Version 0 0 \<or> v < re_deprecated r)"

lemma skip_exclusive_active:
  assumes "small_version v" and "small_version (re_introduced r)" and "small_version (re_deprecated r)"
  shows "skip_exclusive v r \<longleftrightarrow> \<not> active v r"
proof -
  have "sv_major (re_deprecated r) = 0 \<and> sv_minor (re_deprecated r) = 0 \<longleftrightarrow> re_deprecated r = Version 0 0"
    by (cases "re_deprecated r") simp
  moreover have "dc_version_compare v (re_introduced r) < 0 \<longleftrightarrow> v < re_introduced r"
    by (rule dc_version_compare_less [OF assms(1,2)])
  moreover have "0 \<le> dc_version_compare v (re_deprecated r) \<longleftrightarrow> re_deprecated r \<le> v"
    using dc_version_compare_less [OF assms(1,3)] by (metis not_less)
  ultimately show ?thesis unfolding skip_exclusive_def active_def by auto
qed

definition small_restriction :: "disir_restriction \<Rightarrow> bool" where
  "small_restriction r \<longleftrightarrow> small_version (re_introduced r) \<and> small_version (re_deprecated r)"

text \<open>
  The loop over a queue whose entries are the restrictions \<open>rs\<close>: it ends with whether one of
  the active ones accepts the value, and the number of the others.
\<close>

lemma exclusive_loop_spec:
  assumes "list_all2 (\<lambda>e r. get_restriction s e = Some r \<and> small_restriction r) es rs" and "small_version v"
    and "\<forall>r \<in> set rs. active v r \<longrightarrow> exclusive_accepts value str r \<noteq> None \<and> prints_allowed vt r = Some True"
  shows "exclusive_loop s v vt value str es fulfilled inactive written =
    Some (fulfilled \<or> (\<exists>r \<in> set rs. active v r \<and> exclusive_accepts value str r = Some True),
          inactive + length (filter (\<lambda>r. \<not> active v r) rs), written \<or> (\<exists>r \<in> set rs. active v r))"
  using assms(1,3)
proof (induction es rs arbitrary: fulfilled inactive written rule: list_all2_induct)
  case (Cons e es r rs)
  have "skip_exclusive v r \<longleftrightarrow> \<not> active v r"
    using Cons.hyps(1) assms(2) by (simp add: skip_exclusive_active small_restriction_def)
  with Cons show ?case by auto
qed simp

section \<open>Properties\<close>

text \<open>
  A restriction that fits a value: a range or a number an integer or float, the bounds for an
  integer within those of an \<^verbatim>\<open>int64_t\<close>, an enum restriction with a text an enum value.
\<close>

definition in_int64 :: "double \<Rightarrow> bool" where
  "in_int64 d \<longleftrightarrow> dbl_to_int64 d \<noteq> None"

definition fits_value :: "value_type \<Rightarrow> string option \<Rightarrow> disir_restriction \<Rightarrow> bool" where
  "fits_value vt str r \<longleftrightarrow>
     (case re_type r of
        EXC_VALUE_RANGE \<Rightarrow> vt = VT_FLOAT \<or> vt = VT_INTEGER \<and> in_int64 (re_value_min r) \<and> in_int64 (re_value_max r)
      | EXC_VALUE_NUMERIC \<Rightarrow> vt = VT_FLOAT \<or> vt = VT_INTEGER \<and> in_int64 (re_value_numeric r)
      | EXC_VALUE_ENUM \<Rightarrow> vt = VT_ENUM \<and> str \<noteq> None \<and> re_value_string r \<noteq> None
      | _ \<Rightarrow> False)"

text \<open>The value a restriction accepts, by the type of the keyval.\<close>

definition accepted_by :: "value_type \<Rightarrow> 64 word \<Rightarrow> double \<Rightarrow> string option \<Rightarrow> disir_restriction \<Rightarrow> bool" where
  "accepted_by vt i d str r \<longleftrightarrow>
     (case re_type r of
        EXC_VALUE_RANGE \<Rightarrow>
          (let x = (if vt = VT_INTEGER then dbl_of_int (sint i) else d) in dbl_le (re_value_min r) x \<and> dbl_le x (re_value_max r))
      | EXC_VALUE_NUMERIC \<Rightarrow> dbl_eq (if vt = VT_INTEGER then dbl_of_int (sint i) else d) (re_value_numeric r)
      | EXC_VALUE_ENUM \<Rightarrow> strcmp (the str) (the (re_value_string r)) = 0
      | _ \<Rightarrow> False)"

lemma fits_accepts:
  assumes "fits_value vt str r" and "vt \<in> {VT_INTEGER, VT_FLOAT, VT_ENUM}"
    and "value = (if vt = VT_INTEGER then Some (dbl_of_int (sint i)) else if vt = VT_FLOAT then Some d else None)"
  shows "exclusive_accepts value str r = Some (accepted_by vt i d str r)" "prints_allowed vt r = Some True"
  using assms
  by (auto simp: fits_value_def exclusive_accepts_def accepted_by_def prints_allowed_def in_int64_def Let_def
      split: restriction_type.splits)

text \<open>
  C16. The check of a value of a config against the restrictions of its mold, when those active at
  the version of the config fit the type of the keyval: an integer or float is accepted exactly when
  no restriction on values is active or one that is active accepts it, an enum exactly when one that
  is active accepts it (without any, no enum value is legal). A refusal records an error with the
  context and changes nothing else.
\<close>

theorem exclusive_check_decides:
  assumes c: "ctxs s p = Some c" "cx_root c = Some cfg" "get_config s cfg = Some g"
    and cfg: "dc_context_type s (Some cfg) = Some CT_CONFIG"
    and vt: "dc_value_type s (Some p) = Some vt" "vt \<in> {VT_INTEGER, VT_FLOAT, VT_ENUM}"
    and k: "get_keyval s p = Some k" "kv_mold_equiv k = Some q" "get_keyval s q = Some m"
    and rs: "list_all2 (\<lambda>e r. get_restriction s e = Some r \<and> small_restriction r) (kv_restrictions_queue m) rs"
      "\<forall>r \<in> set rs. active (cf_version g) r \<longrightarrow> fits_value vt str r" and v: "small_version (cf_version g)"
  shows "\<exists>st s'. dx_restriction_exclusive_value_check p i d str s = Some (st, s') \<and>
    (if (\<exists>r \<in> set rs. active (cf_version g) r \<and> accepted_by vt i d str r) \<or>
        vt \<noteq> VT_ENUM \<and> \<not> (\<exists>r \<in> set rs. active (cf_version g) r)
     then st = OK \<and> s' = s
     else st = RESTRICTION_VIOLATED \<and> (\<exists>msg. s' = s\<lparr>ctxs := (ctxs s)(p \<mapsto> c\<lparr>cx_error := Some msg\<rparr>)\<rparr>))"
proof -
  define x where "x = (if vt = VT_INTEGER then Some (dbl_of_int (sint i)) else if vt = VT_FLOAT then Some d else None)"
  note fits = fits_accepts [OF _ vt(2) x_def]
  have ac: "active (cf_version g) r \<and> exclusive_accepts x str r = Some True \<longleftrightarrow>
      active (cf_version g) r \<and> accepted_by vt i d str r" if "r \<in> set rs" for r
    using rs(2) that fits(1) by auto
  have loop: "exclusive_loop s (cf_version g) vt x str (kv_restrictions_queue m) False 0 False =
      Some (\<exists>r \<in> set rs. active (cf_version g) r \<and> accepted_by vt i d str r,
            length (filter (\<lambda>r. \<not> active (cf_version g) r) rs), \<exists>r \<in> set rs. active (cf_version g) r)"
  proof -
    have "\<forall>r \<in> set rs. active (cf_version g) r \<longrightarrow> exclusive_accepts x str r \<noteq> None \<and> prints_allowed vt r = Some True"
      using rs(2) fits by auto
    moreover have "(\<exists>r \<in> set rs. active (cf_version g) r \<and> exclusive_accepts x str r = Some True) \<longleftrightarrow>
        (\<exists>r \<in> set rs. active (cf_version g) r \<and> accepted_by vt i d str r)" using ac by blast
    ultimately show ?thesis using exclusive_loop_spec [OF rs(1) v, of x str vt False 0 False] by simp
  qed
  have len: "length (kv_restrictions_queue m) = length rs" using rs(1) by (rule list_all2_lengthD)
  have less: "length (filter (\<lambda>r. \<not> active (cf_version g) r) rs) < length rs \<longleftrightarrow>
      (\<exists>r \<in> set rs. active (cf_version g) r)"
    by (induction rs) (auto simp: less_Suc_eq_le dest: length_filter_le [THEN le_trans])
  have eq: "length rs = length (filter (\<lambda>r. \<not> active (cf_version g) r) rs) \<longleftrightarrow>
      \<not> (\<exists>r \<in> set rs. active (cf_version g) r)"
    using less length_filter_le [of "\<lambda>r. \<not> active (cf_version g) r" rs] by linarith
  show ?thesis
    unfolding dx_restriction_exclusive_value_check_def
    using c cfg vt k
    by (simp add: Let_def x_def [symmetric] loop len less eq dx_context_error_set_def) auto
qed


text \<open>
  A config (address 0) of version 1.0 with a finalized integer keyval (3), whose mold equivalent
  (1) has a restriction to the range from 0 to 6 (2); a documentation (4) and a default (5).
\<close>

definition config_context :: "context_type \<Rightarrow> disir_object \<Rightarrow> ptr option \<Rightarrow> disir_context" where
  "config_context t x r =
     \<lparr>cx_type = t, constructing = False, finalized = True, invalid = False, fatal = False, destroyed = False,
      in_parent = False, cx_obj = Some x, cx_parent = None, cx_root = r, cx_refcount = 1, cx_error = None\<rparr>"

definition integer_value :: "64 word \<Rightarrow> disir_value" where
  "integer_value i = \<lparr>dv_type = VT_INTEGER, dv_data = PInt i, dv_size = 0\<rparr>"

definition range_restriction :: disir_restriction where
  "range_restriction = dx_restriction_create\<lparr>re_introduced := Version 1 0, re_deprecated := Version 0 0,
     re_type := EXC_VALUE_RANGE, re_value_min := dbl_of_int 0, re_value_max := dbl_of_int 6\<rparr>"

definition config_heap :: store where
  "config_heap =
     \<lparr>ctxs = [0 \<mapsto> config_context CT_CONFIG (OConfig dx_config_create) (Some 0),
              1 \<mapsto> config_context CT_KEYVAL (OKeyval (dx_keyval_create\<lparr>kv_value := integer_value 0,
                                                          kv_restrictions_queue := [2]\<rparr>)) None,
              2 \<mapsto> config_context CT_RESTRICTION (ORestriction range_restriction) None,
              3 \<mapsto> config_context CT_KEYVAL (OKeyval (dx_keyval_create\<lparr>kv_value := integer_value 4,
                                                          kv_mold_equiv := Some 1\<rparr>)) (Some 0),
              4 \<mapsto> config_context CT_DOCUMENTATION (ODocumentation dx_documentation_create) None,
              5 \<mapsto> config_context CT_DEFAULT (ODefault (dx_default_create\<lparr>de_value := integer_value 0\<rparr>)) None],
      next_ptr = 6\<rparr>"

theorem exclusive_check_decides_witness:
  "\<exists>s'. dx_restriction_exclusive_value_check 3 7 dbl_zero None config_heap = Some (RESTRICTION_VIOLATED, s')"
proof -
  let ?g = dx_config_create
  let ?k = "dx_keyval_create\<lparr>kv_value := integer_value 4, kv_mold_equiv := Some 1\<rparr>"
  let ?m = "dx_keyval_create\<lparr>kv_value := integer_value 0, kv_restrictions_queue := [2]\<rparr>"
  have c: "ctxs config_heap 3 = Some (config_context CT_KEYVAL (OKeyval ?k) (Some 0))"
    "cx_root (config_context CT_KEYVAL (OKeyval ?k) (Some 0)) = Some 0" "get_config config_heap 0 = Some ?g"
    "dc_context_type config_heap (Some 0) = Some CT_CONFIG" "dc_value_type config_heap (Some 3) = Some VT_INTEGER"
    "VT_INTEGER \<in> {VT_INTEGER, VT_FLOAT, VT_ENUM}" "get_keyval config_heap 3 = Some ?k" "kv_mold_equiv ?k = Some 1"
    "get_keyval config_heap 1 = Some ?m"
    by (simp_all add: config_heap_def config_context_def get_config_def get_keyval_def dc_context_type_def
        dc_value_type_def dx_context_type_sanify_def  integer_value_def)
  have r: "list_all2 (\<lambda>e r. get_restriction config_heap e = Some r \<and> small_restriction r)
      (kv_restrictions_queue ?m) [range_restriction]"
    "\<forall>r \<in> set [range_restriction]. active (cf_version ?g) r \<longrightarrow> fits_value VT_INTEGER None r" "small_version (cf_version ?g)"
    by (simp_all add: config_heap_def config_context_def get_restriction_def small_restriction_def small_version_def
        range_restriction_def dx_config_create_def fits_value_def in_int64_def dbl_to_int64_def
        dbl_of_int_exact LONG_MIN_def LONG_MAX_def rat_trunc_def)
  have a: "active (cf_version ?g) range_restriction" "\<not> accepted_by VT_INTEGER 7 dbl_zero None range_restriction"
    by (simp_all add: active_def range_restriction_def dx_config_create_def accepted_by_def dbl_of_int_exact)
  from exclusive_check_decides [OF c r, of 7 dbl_zero] a
  show ?thesis by auto
qed

text \<open>
  A range restriction on an integer keyval is exact for integers below \<open>2 ^ 53\<close>, although
  the code compares doubles: the value is accepted exactly when it lies between the bounds.
\<close>

theorem integer_range_is_exact:
  assumes "\<bar>a\<bar> < 2 ^ 53" and "\<bar>b\<bar> < 2 ^ 53" and "\<bar>sint i\<bar> < 2 ^ 53"
    and "re_type r = EXC_VALUE_RANGE" and "re_value_min r = dbl_of_int a" and "re_value_max r = dbl_of_int b"
  shows "exclusive_accepts (Some (dbl_of_int (sint i))) str r = Some (a \<le> sint i \<and> sint i \<le> b)"
  using assms by (simp add: exclusive_accepts_def dbl_of_int_exact del: of_int_sint)

theorem integer_range_is_exact_witness:
  "exclusive_accepts (Some (dbl_of_int (sint (7 :: 64 word)))) None
     (dx_restriction_create\<lparr>re_type := EXC_VALUE_RANGE, re_value_min := dbl_of_int 0, re_value_max := dbl_of_int 6\<rparr>)
   = Some False"
  using integer_range_is_exact [of 0 6 "7 :: 64 word"] by simp

lemma bitlen_53: "bitlen 9007199254740993 = 54" "bitlen 9007199254740992 = 54" "bitlen 1 = 1"
  by (simp_all add: bitlen.simps)

lemma dbl_scale_53: "dbl_scale 9007199254740993 = -1" "dbl_scale 9007199254740992 = -1"
  using quotient_of_int [of 9007199254740993] quotient_of_int [of 9007199254740992] bitlen_53
  by (simp_all add: dbl_scale_def Let_def pow2_def quotient_of_number)

lemma floor_53: "\<lfloor>9007199254740993 / 2 :: rat\<rfloor> = 4503599627370496" by (rule floor_unique) simp_all

lemma dbl_of_int_53: "dbl_of_int 9007199254740993 = DFin 9007199254740992" "dbl_of_int 9007199254740992 = DFin 9007199254740992" 
  unfolding dbl_of_int_def dbl_round_def of_int_numeral Let_def dbl_scale_53 round_half_even_def pow2_def
  by (simp_all add: floor_53)

text \<open>
  Beyond \<open>2 ^ 53\<close> the comparison rounds: the integer \<open>2 ^ 53 + 1\<close> passes a range whose
  maximum is \<open>2 ^ 53\<close>, as no \<^verbatim>\<open>double\<close> lies between the two.
\<close>

theorem integer_range_rounds:
  "exclusive_accepts (Some (dbl_of_int (sint (9007199254740993 :: 64 word)))) None
     (dx_restriction_create\<lparr>re_type := EXC_VALUE_RANGE, re_value_min := dbl_of_int 0,
        re_value_max := dbl_of_int 9007199254740992\<rparr>) = Some True"
  by (simp add: exclusive_accepts_def dbl_of_int_53 dbl_of_int_exact del: of_int_sint)

section \<open>Setting and getting a value\<close>

lemma put_value_reads:
  assumes "put_value p v s = Some s'"
  shows "get_value s' p = Some v"
    "\<exists>c x. ctxs s p = Some c \<and> s' = s\<lparr>ctxs := (ctxs s)(p \<mapsto> c\<lparr>cx_obj := x\<rparr>)\<rparr>"
proof -
  obtain c x where c: "ctxs s p = Some c" "cx_obj c = Some x"
    using assms by (auto simp: put_value_def bind_eq_Some_conv)
  have "\<exists>y. s' = s\<lparr>ctxs := (ctxs s)(p \<mapsto> c\<lparr>cx_obj := Some y\<rparr>)\<rparr> \<and>
      (case y of OKeyval k \<Rightarrow> Some (kv_value k) | ODefault d \<Rightarrow> Some (de_value d)
       | ODocumentation d \<Rightarrow> Some (dd_value d) | _ \<Rightarrow> None) = Some v"
    using assms c by (cases x) (auto simp: put_value_def set_obj_Some)
  with c show "get_value s' p = Some v"
    "\<exists>c x. ctxs s p = Some c \<and> s' = s\<lparr>ctxs := (ctxs s)(p \<mapsto> c\<lparr>cx_obj := x\<rparr>)\<rparr>"
    by (auto simp: get_value_def)
qed

lemma store_value_reads:
  assumes "store_value p verdict (OK, Some v) s = Some (st, s')"
  shows "st = verdict \<and> get_value s' p = Some v"
  using assms put_value_reads(1) [of p v s s'] by (auto simp: store_value_def bind_eq_Some_conv)

lemma store_value_refused:
  assumes "store_value p verdict (e, r) s = Some (st, s')" and "e \<noteq> OK"
  shows "st = e"
  using assms by (auto simp: store_value_def bind_eq_Some_conv)

lemma exclusive_check_state:
  "dx_restriction_exclusive_value_check p i d str s = Some (st, s1) \<Longrightarrow>
     s1 = s \<or> (\<exists>m. dx_context_error_set p m s = Some s1)"
  unfolding dx_restriction_exclusive_value_check_def
  by (elim do_elims Pair_inject; ((hypsubst)+)?; blast)

lemma exclusive_check_context:
  "dx_restriction_exclusive_value_check p i d str s = Some (st, s1) \<Longrightarrow> ctxs s p = Some c \<Longrightarrow>
     \<exists>e. ctxs s1 p = Some (c\<lparr>cx_error := e\<rparr>)"
  by (drule exclusive_check_state) (auto simp: dx_context_error_set_def intro: exI [of _ "cx_error c"])

lemma restricted_go:
  "restricted p verdict i d str s = Some (False, st, s') \<Longrightarrow> st = RESTRICTION_VIOLATED"
  by (auto simp: restricted_def bind_eq_Some_conv split: if_splits)

text \<open>What reading gives once the checks of the getters pass.\<close>

lemma get_value_check_same: "get_value_input_check (Some p) s = Some (OK, s1) \<Longrightarrow> s1 = s"
  by (auto simp: get_value_input_check_def dx_context_sp_full_check_def bind_eq_Some_conv split: if_splits)

text \<open>
  C17. An integer, float or boolean that a setter accepts, with the status OK or, for a context
  it has made invalid, INVALID_CONTEXT, is the value the getter of the same type reads back
  whenever that getter may read the context at all.
\<close>

theorem set_then_get:
  assumes st: "st = OK \<or> st = INVALID_CONTEXT" and check: "get_value_input_check (Some p) s' = Some (OK, s')"
  shows "(dc_set_value_integer (Some p) i s = Some (st, s') \<longrightarrow>
      dc_get_value_integer (Some p) True s' = Some (OK, Some i, s')) \<and>
    (dc_set_value_float (Some p) d s = Some (st, s') \<longrightarrow>
      dc_get_value_float (Some p) True s' = Some (OK, Some d, s')) \<and>
    (dc_set_value_boolean (Some p) b s = Some (st, s') \<longrightarrow>
      dc_get_value_boolean (Some p) True s' = Some (OK, Some b, s'))"
proof (intro conjI impI)
  assume "dc_set_value_integer (Some p) i s = Some (st, s')"
  then obtain v verdict s1 where "store_value p verdict (dx_value_set_integer (Some v) i) s1 = Some (st, s')"
    using st by (auto simp: dc_set_value_integer_def bind_eq_Some_conv split: if_splits dest: restricted_go)
  then have "\<exists>w. get_value s' p = Some (w\<lparr>dv_data := PInt i\<rparr>) \<and> dv_type w = VT_INTEGER"
    using st by (auto simp: dx_value_set_integer_def split: if_splits dest: store_value_reads store_value_refused)
  with check show "dc_get_value_integer (Some p) True s' = Some (OK, Some i, s')"
    by (auto simp: dc_get_value_integer_def dx_value_get_integer_def getter_errors_def)
next
  assume "dc_set_value_float (Some p) d s = Some (st, s')"
  then obtain v verdict s1 where "store_value p verdict (dx_value_set_float (Some v) d) s1 = Some (st, s')"
    using st by (auto simp: dc_set_value_float_def bind_eq_Some_conv split: if_splits dest: restricted_go)
  then have "\<exists>w. get_value s' p = Some (w\<lparr>dv_data := PFloat d\<rparr>) \<and> dv_type w = VT_FLOAT"
    using st by (auto simp: dx_value_set_float_def split: if_splits dest: store_value_reads store_value_refused)
  with check show "dc_get_value_float (Some p) True s' = Some (OK, Some d, s')"
    by (auto simp: dc_get_value_float_def dx_value_get_float_def getter_errors_def)
next
  assume "dc_set_value_boolean (Some p) b s = Some (st, s')"
  then obtain v verdict s1 where "store_value p verdict (dx_value_set_boolean (Some v) b) s1 = Some (st, s')"
    using st by (auto simp: dc_set_value_boolean_def bind_eq_Some_conv split: if_splits)
  then have "\<exists>w. get_value s' p = Some (w\<lparr>dv_data := PBool b\<rparr>) \<and> dv_type w = VT_BOOLEAN"
    using st by (auto simp: dx_value_set_boolean_def split: if_splits dest: store_value_reads store_value_refused)
  with check show "dc_get_value_boolean (Some p) True s' = Some (OK, Some b, s')"
    by (auto simp: dc_get_value_boolean_def dx_value_get_boolean_def getter_errors_def)
qed

theorem set_then_get_witness:
  "\<exists>s'. dc_set_value_integer (Some 5) 9 config_heap = Some (OK, s') \<and>
     dc_get_value_integer (Some 5) True s' = Some (OK, Some 9, s')"
proof -
  obtain s' where s': "dc_set_value_integer (Some 5) 9 config_heap = Some (OK, s')"
    "get_value_input_check (Some 5) s' = Some (OK, s')"
    by (simp add: dc_set_value_integer_def set_value_input_check_def dx_context_sp_full_check_def config_heap_def
        config_context_def dx_context_type_sanify_def dx_context_type_check_def dc_context_type_def restricted_def
        dx_restriction_exclusive_value_check_def get_value_def store_value_def put_value_def set_obj_def
        dx_value_set_integer_def integer_value_def get_value_input_check_def dx_default_create_def)
  with set_then_get [OF _ s'(2), of OK 9 config_heap] show ?thesis by blast
qed

text \<open>
  C18. A finalized valid keyval of a config keeps its value and its type: an integer is refused
  with WRONG_VALUE_TYPE when the keyval is of another type, and with RESTRICTION_VIOLATED when
  no restriction accepts it, and either way the value read before is still there.
\<close>

theorem finalized_keyval_keeps_value:
  assumes c: "ctxs s p = Some c" "cx_type c = CT_KEYVAL" "\<not> destroyed c" "finalized c" "\<not> constructing c" "\<not> invalid c"
    and root: "dc_context_type s (cx_root c) = Some CT_CONFIG"
    and k: "cx_obj c = Some (OKeyval k)" "kv_mold_equiv k = Some q" "q \<noteq> p" "get_keyval s q = Some m"
      "dv_type (kv_value m) = dv_type (kv_value k)"
  shows "(dx_value_type_sanify (dv_type (kv_value k)) \<noteq> VT_INTEGER \<longrightarrow>
      (\<exists>s'. dc_set_value_integer (Some p) i s = Some (WRONG_VALUE_TYPE, s') \<and> get_value s' p = get_value s p)) \<and>
    (dx_value_type_sanify (dv_type (kv_value k)) = VT_INTEGER \<and>
       dx_restriction_exclusive_value_check p i dbl_zero None s = Some (RESTRICTION_VIOLATED, s1) \<longrightarrow>
      dc_set_value_integer (Some p) i s = Some (RESTRICTION_VIOLATED, s1) \<and> get_value s1 p = get_value s p)"
proof -
  have v: "get_value s p = Some (kv_value k)" using c(1) k(1) by (simp add: get_value_def)
  have put: "put_value p (kv_value k) s = Some s"
    using c k(1) by (simp add: put_value_def set_obj_def fun_upd_idem)
  have same: "set_value_dv_type p (dv_type (kv_value m)) s = Some s"
    using v put k(5) by (simp add: set_value_dv_type_def)
  have use_case: "set_value_input_check (Some p) VT_INTEGER s = keyval_use_case p VT_INTEGER s"
    using c root k same
    by (simp add: set_value_input_check_def dx_context_sp_full_check_def dx_context_type_sanify_def
        dx_context_type_check_def dc_context_type_def get_keyval_def)
  have vt: "dc_value_type s (Some p) = Some (dx_value_type_sanify (dv_type (kv_value k)))"
    using c k by (simp add: dc_value_type_def dc_context_type_def dx_context_type_sanify_def get_keyval_def)
  show ?thesis
  proof (intro conjI impI; (elim conjE)?)
    assume t: "dx_value_type_sanify (dv_type (kv_value k)) \<noteq> VT_INTEGER"
    let ?s' = "s\<lparr>ctxs := (ctxs s)(p \<mapsto> c\<lparr>cx_error := Some ''expected type %s''\<rparr>)\<rparr>"
    have "keyval_use_case p VT_INTEGER s = Some (WRONG_VALUE_TYPE, ?s')"
      using c k vt t by (simp add: keyval_use_case_def get_keyval_def dx_context_error_set_def)
    moreover have "get_value ?s' p = get_value s p" using c(1) by (simp add: get_value_def)
    ultimately show "\<exists>s'. dc_set_value_integer (Some p) i s = Some (WRONG_VALUE_TYPE, s') \<and> get_value s' p = get_value s p"
      by (simp add: dc_set_value_integer_def use_case)
  next
    assume t: "dx_value_type_sanify (dv_type (kv_value k)) = VT_INTEGER"
      and x: "dx_restriction_exclusive_value_check p i dbl_zero None s = Some (RESTRICTION_VIOLATED, s1)"
    obtain e where e: "ctxs s1 p = Some (c\<lparr>cx_error := e\<rparr>)" using exclusive_check_context [OF x c(1)] by blast
    have "keyval_use_case p VT_INTEGER s = Some (OK, s)"
      using c k vt t by (simp add: keyval_use_case_def get_keyval_def)
    with x e c(4) show "dc_set_value_integer (Some p) i s = Some (RESTRICTION_VIOLATED, s1)"
      by (simp add: dc_set_value_integer_def use_case restricted_def)
    show "get_value s1 p = get_value s p" using e c(1) by (simp add: get_value_def)
  qed
qed

theorem finalized_keyval_keeps_value_witness:
  "\<exists>s'. dc_set_value_integer (Some 3) 7 config_heap = Some (RESTRICTION_VIOLATED, s') \<and>
     get_value s' 3 = Some (integer_value 4)"
proof -
  let ?k = "dx_keyval_create\<lparr>kv_value := integer_value 4, kv_mold_equiv := Some 1\<rparr>"
  let ?m = "dx_keyval_create\<lparr>kv_value := integer_value 0, kv_restrictions_queue := [2]\<rparr>"
  let ?c = "config_context CT_KEYVAL (OKeyval ?k) (Some 0)"
  obtain s1 where x: "dx_restriction_exclusive_value_check 3 7 dbl_zero None config_heap = Some (RESTRICTION_VIOLATED, s1)"
    by (simp add: dx_restriction_exclusive_value_check_def config_heap_def config_context_def dc_context_type_def
        dx_context_type_sanify_def dc_value_type_def get_keyval_def integer_value_def 
        get_config_def get_restriction_def skip_exclusive_def exclusive_accepts_def range_restriction_def
        prints_allowed_def dbl_to_int64_def LONG_MIN_def LONG_MAX_def rat_trunc_def
        dc_version_compare_def dx_config_create_def dbl_of_int_exact dx_context_error_set_def)
  have c: "ctxs config_heap 3 = Some ?c" "cx_type ?c = CT_KEYVAL" "\<not> destroyed ?c" "finalized ?c"
    "\<not> constructing ?c" "\<not> invalid ?c" "dc_context_type config_heap (cx_root ?c) = Some CT_CONFIG"
    "cx_obj ?c = Some (OKeyval ?k)" "kv_mold_equiv ?k = Some 1" "(1 :: ptr) \<noteq> 3" "get_keyval config_heap 1 = Some ?m"
    "dv_type (kv_value ?m) = dv_type (kv_value ?k)"
    by (simp_all add: config_heap_def config_context_def dc_context_type_def dx_context_type_sanify_def
        get_keyval_def integer_value_def)
  have t: "dx_value_type_sanify (dv_type (kv_value ?k)) = VT_INTEGER"
    and v: "get_value config_heap 3 = Some (integer_value 4)"
    by (simp_all add: integer_value_def  get_value_def config_heap_def config_context_def)
  from finalized_keyval_keeps_value [OF c, of 7 s1] x t v show ?thesis by simp
qed

text \<open>
  Although it admits documentation in its own check, \<^verbatim>\<open>dc_get_value_string\<close> never
  reads the text of a documentation context: it asks \<^verbatim>\<open>dc_get_value_type\<close>, which knows
  keyvals and defaults only, and fails with WRONG_CONTEXT.
\<close>

theorem documentation_text_is_unreadable:
  assumes "ctxs s p = Some c" and "cx_type c = CT_DOCUMENTATION" and "\<not> destroyed c"
  shows "\<exists>s'. dc_get_value_string (Some p) True s = Some (WRONG_CONTEXT, None, s')"
  using assms
  by (simp add: dc_get_value_string_def dx_context_sp_full_check_def dx_context_type_sanify_def
      dx_context_type_check_def dc_get_value_type_def dc_context_type_def dx_context_error_set_def)

theorem documentation_text_is_unreadable_witness:
  "\<exists>s'. dc_get_value_string (Some 4) True config_heap = Some (WRONG_CONTEXT, None, s')"
  using documentation_text_is_unreadable [of config_heap 4] by (simp add: config_heap_def config_context_def)

end
