(* ===== verification/Adding.thy ===== *)
theory Adding
  imports Lifecycle
begin

text \<open>
  The operations that begin, fill and finalize a context in one call: defaults
  (src/lib/context_default.c), documentation (context_documentation.c), keyvals of a mold
  (context_keyval.c) and restrictions (context_restriction.c). Each leaves through one error
  exit, which hands the error message to the parent and destroys the context begun.

  The lemmas show that they keep the heap well formed whatever fails on the way, and what a
  mold holds after a keyval was added to it.
\<close>

section \<open>The error exit\<close>

definition abandon :: "ptr option \<Rightarrow> ptr option \<Rightarrow> status \<Rightarrow> store \<Rightarrow> (status \<times> store) option" where
  "abandon parent context status s = do {
     s \<leftarrow> dx_context_transfer_logwarn parent context s;
     (_, s) \<leftarrow> dc_destroy context s;
     Some (status, s) }"

definition introduce :: "ptr option \<Rightarrow> version option \<Rightarrow> store \<Rightarrow> (status \<times> store) option" where
  "introduce context version s =
     (case version of None \<Rightarrow> Some (OK, s) | Some v \<Rightarrow> dc_add_introduced context (Some v) s)"

section \<open>Defaults\<close>

text \<open>The four typed functions differ in the value they set.\<close>

definition add_default_with :: "(ptr option \<Rightarrow> store \<Rightarrow> (status \<times> store) option) \<Rightarrow> ptr option \<Rightarrow> version option \<Rightarrow>
    store \<Rightarrow> (status \<times> store) option" where
  "add_default_with set_value parent version s = do {
     (status, def, s) \<leftarrow> dc_begin parent CT_DEFAULT True s;
     if status \<noteq> OK then Some (status, s)
     else do {
       (status, s) \<leftarrow> set_value def s;
       if status \<noteq> OK then abandon parent def status s
       else do {
         (status, s) \<leftarrow> introduce def version s;
         if status \<noteq> OK then abandon parent def status s
         else do {
           (status, def, s) \<leftarrow> dc_finalize def s;
           if status \<noteq> OK \<and> status \<noteq> INVALID_CONTEXT then abandon parent def status s
           else if status = INVALID_CONTEXT then do {
             (_, s) \<leftarrow> dc_putcontext def s; Some (status, s) }
           else Some (status, s) } } } }"

definition dc_add_default_string :: "ptr option \<Rightarrow> string option \<Rightarrow> int \<Rightarrow> version option \<Rightarrow> store \<Rightarrow>
    (status \<times> store) option" where
  "dc_add_default_string parent value value_size version =
     add_default_with (\<lambda>def. dc_set_value_string def value value_size) parent version"

definition dc_add_default_integer :: "ptr option \<Rightarrow> 64 word \<Rightarrow> version option \<Rightarrow> store \<Rightarrow> (status \<times> store) option" where
  "dc_add_default_integer parent value version =
     add_default_with (\<lambda>def. dc_set_value_integer def value) parent version"

definition dc_add_default_float :: "ptr option \<Rightarrow> double \<Rightarrow> version option \<Rightarrow> store \<Rightarrow> (status \<times> store) option" where
  "dc_add_default_float parent value version =
     add_default_with (\<lambda>def. dc_set_value_float def value) parent version"

definition dc_add_default_boolean :: "ptr option \<Rightarrow> 8 word \<Rightarrow> version option \<Rightarrow> store \<Rightarrow> (status \<times> store) option" where
  "dc_add_default_boolean parent boolean version =
     add_default_with (\<lambda>def. dc_set_value_boolean def (if boolean > 1 then 1 else boolean)) parent version"

text \<open>The default given as text; \<^verbatim>\<open>strtod\<close> is a parameter.\<close>

definition dc_add_default :: "(string \<Rightarrow> double option) \<Rightarrow> ptr option \<Rightarrow> string option \<Rightarrow> int \<Rightarrow> version option \<Rightarrow>
    store \<Rightarrow> (status \<times> store) option" where
  "dc_add_default strtod parent value value_size version s = do {
     (status, s) \<leftarrow> dx_context_sp_full_check parent s;
     if status \<noteq> OK then Some (status, s)
     else do {
       q \<leftarrow> parent;
       status \<leftarrow> dx_context_type_check q [CT_KEYVAL] s;
       if status \<noteq> OK then Some (status, s)
       else case value of None \<Rightarrow> Some (INVALID_ARGUMENT, s)
       | Some v \<Rightarrow> do {
           vt \<leftarrow> dc_value_type s parent;
           case vt of
             VT_STRING \<Rightarrow> dc_add_default_string parent value value_size version s
           | VT_INTEGER \<Rightarrow> (case strtol10 (cstr v) of
               None \<Rightarrow> do {
                 s \<leftarrow> dx_context_error_set q (''couldnt convert string to integer: '%s'' @ [CHR 0x27]) s;
                 Some (INVALID_ARGUMENT, s) }
             | Some (i, _) \<Rightarrow> dc_add_default_integer parent (word_of_int i) version s)
           | VT_FLOAT \<Rightarrow> (case strtod (cstr v) of
               None \<Rightarrow> do {
                 s \<leftarrow> dx_context_error_set q (''couldn't convert string to double: '%s'' @ [CHR 0x27]) s;
                 Some (INVALID_ARGUMENT, s) }
             | Some d \<Rightarrow> dc_add_default_float parent d version s)
           | VT_BOOLEAN \<Rightarrow> Some (INTERNAL_ERROR, s)
           | VT_ENUM \<Rightarrow> Some (INTERNAL_ERROR, s)
           | _ \<Rightarrow> Some (WRONG_CONTEXT, s) } } }"

section \<open>Documentation\<close>

text \<open>The context is linked into its parent but never leaves the constructing state.\<close>

definition dc_add_documentation :: "ptr option \<Rightarrow> string option \<Rightarrow> int \<Rightarrow> store \<Rightarrow> (status \<times> store) option" where
  "dc_add_documentation parent doc doc_size s = do {
     (status, s) \<leftarrow> dx_context_sp_full_check parent s;
     if status \<noteq> OK then Some (status, s)
     else if doc = None \<or> doc_size \<le> 0 then do {
       q \<leftarrow> parent;
       s \<leftarrow> dx_context_error_set q ''Documentation string must be non-null, of possitive length.'' s;
       Some (INVALID_ARGUMENT, s) }
     else do {
       (status, context, s) \<leftarrow> dc_begin parent CT_DOCUMENTATION True s;
       if status \<noteq> OK then Some (status, s)
       else do {
         (status, s) \<leftarrow> dc_set_value_string context doc doc_size s;
         if status \<noteq> OK then abandon parent context status s
         else do {
           (status, s) \<leftarrow> dx_documentation_finalize context s;
           if status \<noteq> OK then abandon parent context status s else Some (status, s) } } } }"

definition add_documentation_text :: "ptr option \<Rightarrow> string option \<Rightarrow> store \<Rightarrow> (status \<times> store) option" where
  "add_documentation_text parent doc s = do {
     d \<leftarrow> doc; dc_add_documentation parent doc (int (length (cstr d))) s }"

section \<open>Keyvals of a mold\<close>

text \<open>The default of each type; any other type is an internal error, forgotten afterwards.\<close>

definition add_default_of_type :: "value_type \<Rightarrow> string option \<Rightarrow> double \<Rightarrow> 64 word \<Rightarrow> 8 word \<Rightarrow> ptr option \<Rightarrow>
    version option \<Rightarrow> store \<Rightarrow> (status \<times> store) option" where
  "add_default_of_type type string_input float_input integer_input boolean_input keyval version s =
     (if type = VT_ENUM \<or> type = VT_STRING then do {
        str \<leftarrow> string_input;
        dc_add_default_string keyval string_input (int (length (cstr str))) version s }
      else if type = VT_INTEGER then dc_add_default_integer keyval integer_input version s
      else if type = VT_FLOAT then dc_add_default_float keyval float_input version s
      else if type = VT_BOOLEAN then dc_add_default_boolean keyval boolean_input version s
      else Some (OK, s))"

definition keyval_steps :: "string option \<Rightarrow> string option \<Rightarrow> version option \<Rightarrow> value_type \<Rightarrow> string option \<Rightarrow> double \<Rightarrow>
    64 word \<Rightarrow> 8 word \<Rightarrow> ptr option \<Rightarrow> store \<Rightarrow> (status \<times> store) option" where
  "keyval_steps name doc version type string_input float_input integer_input boolean_input keyval s = do {
     n \<leftarrow> name;
     (status, s) \<leftarrow> dc_set_name keyval name (int (length (cstr n))) s;
     if status \<noteq> OK \<and> status \<noteq> NOT_EXIST then Some (status, s)
     else do {
       (status, s) \<leftarrow> dc_set_value_type keyval type s;
       if status \<noteq> OK then Some (status, s)
       else do {
         (status, s) \<leftarrow> add_default_of_type type string_input float_input integer_input boolean_input
                          keyval version s;
         if status \<noteq> OK then Some (status, s)
         else add_documentation_text keyval doc s } } }"

text \<open>The second component of the result is what \<^verbatim>\<open>output\<close> receives, when it is wanted.\<close>

definition add_keyval_generic :: "ptr option \<Rightarrow> string option \<Rightarrow> string option \<Rightarrow> version option \<Rightarrow> value_type \<Rightarrow>
    string option \<Rightarrow> double \<Rightarrow> 64 word \<Rightarrow> 8 word \<Rightarrow> bool \<Rightarrow> store \<Rightarrow> (status \<times> ptr option \<times> store) option" where
  "add_keyval_generic parent name doc version type string_input float_input integer_input boolean_input wanted s = do {
     (status, keyval, s) \<leftarrow> dc_begin parent CT_KEYVAL True s;
     if status \<noteq> OK then Some (status, None, s)
     else do {
       (status, s) \<leftarrow> keyval_steps name doc version type string_input float_input integer_input boolean_input
                        keyval s;
       if status \<noteq> OK then do {
         (status, s) \<leftarrow> abandon parent keyval status s; Some (status, None, s) }
       else do {
         p \<leftarrow> keyval;
         s \<leftarrow> (if wanted then dx_context_incref p s else Some s);
         (status, keyval, s) \<leftarrow> dc_finalize (Some p) s;
         if status \<noteq> OK \<and> status \<noteq> INVALID_CONTEXT then do {
           (freed, s) \<leftarrow> (if wanted then dx_context_decref p s else Some (False, s));
           (status, s) \<leftarrow> abandon parent (if freed then None else keyval) status s;
           Some (status, None, s) }
         else do {
           s \<leftarrow> (case keyval of None \<Rightarrow> Some s
                 | Some k \<Rightarrow> do { (_, s) \<leftarrow> dc_putcontext (Some k) s; Some s });
           Some (status, if wanted then Some p else None, s) } } } }"

definition dc_add_keyval_enum :: "ptr option \<Rightarrow> string option \<Rightarrow> string option \<Rightarrow> string option \<Rightarrow>
    version option \<Rightarrow> bool \<Rightarrow> store \<Rightarrow> (status \<times> ptr option \<times> store) option" where
  "dc_add_keyval_enum parent name def doc version wanted =
     add_keyval_generic parent name doc version VT_ENUM def dbl_zero 0 0 wanted"

definition dc_add_keyval_string :: "ptr option \<Rightarrow> string option \<Rightarrow> string option \<Rightarrow> string option \<Rightarrow>
    version option \<Rightarrow> bool \<Rightarrow> store \<Rightarrow> (status \<times> ptr option \<times> store) option" where
  "dc_add_keyval_string parent name def doc version wanted =
     add_keyval_generic parent name doc version VT_STRING def dbl_zero 0 0 wanted"

definition dc_add_keyval_boolean :: "ptr option \<Rightarrow> string option \<Rightarrow> 8 word \<Rightarrow> string option \<Rightarrow>
    version option \<Rightarrow> bool \<Rightarrow> store \<Rightarrow> (status \<times> ptr option \<times> store) option" where
  "dc_add_keyval_boolean parent name def doc version wanted =
     add_keyval_generic parent name doc version VT_BOOLEAN None dbl_zero 0 def wanted"

definition dc_add_keyval_float :: "ptr option \<Rightarrow> string option \<Rightarrow> double \<Rightarrow> string option \<Rightarrow>
    version option \<Rightarrow> bool \<Rightarrow> store \<Rightarrow> (status \<times> ptr option \<times> store) option" where
  "dc_add_keyval_float parent name def doc version wanted =
     add_keyval_generic parent name doc version VT_FLOAT None def 0 0 wanted"

definition dc_add_keyval_integer :: "ptr option \<Rightarrow> string option \<Rightarrow> 64 word \<Rightarrow> string option \<Rightarrow>
    version option \<Rightarrow> bool \<Rightarrow> store \<Rightarrow> (status \<times> ptr option \<times> store) option" where
  "dc_add_keyval_integer parent name def doc version wanted =
     add_keyval_generic parent name doc version VT_INTEGER None dbl_zero def 0 wanted"

section \<open>Restrictions\<close>

definition restriction_steps :: "restriction_type \<Rightarrow> (ptr option \<Rightarrow> store \<Rightarrow> (status \<times> store) option) \<Rightarrow>
    string option \<Rightarrow> version option \<Rightarrow> ptr option \<Rightarrow> store \<Rightarrow> (status \<times> store) option" where
  "restriction_steps type fill doc version context s = do {
     (status, s) \<leftarrow> dc_set_restriction_type context type s;
     if status \<noteq> OK then Some (status, s)
     else do {
       (status, s) \<leftarrow> fill context s;
       if status \<noteq> OK then Some (status, s)
       else do {
         (status, s) \<leftarrow> introduce context version s;
         if status \<noteq> OK \<or> doc = None then Some (status, s)
         else add_documentation_text context doc s } } }"

text \<open>
  The common course; \<open>begin_failed\<close> is what the function does when there is no context to begin
  with: return, or go to the error exit with the pointer unset.
\<close>

definition add_restriction_with :: "restriction_type \<Rightarrow> (ptr option \<Rightarrow> store \<Rightarrow> (status \<times> store) option) \<Rightarrow> bool \<Rightarrow>
    ptr option \<Rightarrow> string option \<Rightarrow> version option \<Rightarrow> bool \<Rightarrow> store \<Rightarrow> (status \<times> ptr option \<times> store) option" where
  "add_restriction_with type fill begin_failed parent doc version wanted s = do {
     (status, context, s) \<leftarrow> dc_begin parent CT_RESTRICTION True s;
     if status \<noteq> OK then (if begin_failed then None else Some (status, None, s))
     else do {
       (status, s) \<leftarrow> restriction_steps type fill doc version context s;
       if status \<noteq> OK then do {
         (status, s) \<leftarrow> abandon parent context status s; Some (status, None, s) }
       else do {
         p \<leftarrow> context;
         s \<leftarrow> (if wanted then dx_context_incref p s else Some s);
         (status, context, s) \<leftarrow> dc_finalize (Some p) s;
         if status \<noteq> OK then do {
           (freed, s) \<leftarrow> (if wanted then do {
                            q \<leftarrow> context; dx_context_decref q s } else Some (False, s));
           (status, s) \<leftarrow> abandon parent (if freed then None else context) status s;
           Some (status, None, s) }
         else Some (OK, if wanted then Some p else None, s) } } }"

definition dc_add_restriction_value_range :: "ptr option \<Rightarrow> double \<Rightarrow> double \<Rightarrow> string option \<Rightarrow> version option \<Rightarrow>
    bool \<Rightarrow> store \<Rightarrow> (status \<times> ptr option \<times> store) option" where
  "dc_add_restriction_value_range parent mn mx doc version wanted =
     add_restriction_with EXC_VALUE_RANGE (\<lambda>c. dc_restriction_set_range c mn mx) False parent doc version wanted"

definition dc_add_restriction_value_numeric :: "ptr option \<Rightarrow> double \<Rightarrow> string option \<Rightarrow> version option \<Rightarrow>
    bool \<Rightarrow> store \<Rightarrow> (status \<times> ptr option \<times> store) option" where
  "dc_add_restriction_value_numeric parent value doc version wanted =
     add_restriction_with EXC_VALUE_NUMERIC (\<lambda>c. dc_restriction_set_numeric c value) False parent doc version wanted"

definition dc_add_restriction_value_enum :: "ptr option \<Rightarrow> string option \<Rightarrow> string option \<Rightarrow> version option \<Rightarrow>
    bool \<Rightarrow> store \<Rightarrow> (status \<times> ptr option \<times> store) option" where
  "dc_add_restriction_value_enum parent value doc version wanted =
     add_restriction_with EXC_VALUE_ENUM (\<lambda>c. dc_restriction_set_string c value) True parent doc version wanted"

text \<open>The two inclusive restrictions take an \<^verbatim>\<open>int64_t\<close>, which becomes a double.\<close>

definition add_restriction_entries_min_max :: "restriction_type \<Rightarrow> ptr option \<Rightarrow> 64 word \<Rightarrow> version option \<Rightarrow>
    store \<Rightarrow> (status \<times> store) option" where
  "add_restriction_entries_min_max type parent value version s = do {
     (status, _, s) \<leftarrow> add_restriction_with type
        (\<lambda>c. dc_restriction_set_numeric c (dbl_of_int (sint value))) False parent None version False s;
     Some (status, s) }"

definition dc_add_restriction_entries_min :: "ptr option \<Rightarrow> 64 word \<Rightarrow> version option \<Rightarrow> store \<Rightarrow> (status \<times> store) option" where
  "dc_add_restriction_entries_min = add_restriction_entries_min_max INC_ENTRY_MIN"

definition dc_add_restriction_entries_max :: "ptr option \<Rightarrow> 64 word \<Rightarrow> version option \<Rightarrow> store \<Rightarrow> (status \<times> store) option" where
  "dc_add_restriction_entries_max = add_restriction_entries_min_max INC_ENTRY_MAX"

section \<open>How the heap evolves\<close>

lemma evolves_abandon_etc [evolving]:
  "abandon parent context status s = Some (z1, s') \<Longrightarrow> evolves s0 s \<Longrightarrow> evolves s0 s'"
  "introduce context1 version1 s = Some (z_11, s') \<Longrightarrow> evolves s0 s \<Longrightarrow> evolves s0 s'"
  unfolding abandon_def introduce_def
  by (elim do_elims Pair_inject value_type_SomeE; ((hypsubst | erule Pair_inject)+)?; (assumption | erule evolving | rule tame_updates)+)+

lemma evolves_add_default_with:
  "add_default_with set_value parent version s = Some (z1, s') \<Longrightarrow> evolver set_value \<Longrightarrow> evolves s0 s \<Longrightarrow> evolves s0 s'"
  unfolding add_default_with_def
  by (elim do_elims Pair_inject; ((hypsubst | erule Pair_inject)+)?; (assumption | erule evolving evolverD | rule tame_updates)+)

lemma evolver_setters:
  "evolver (\<lambda>c. dc_set_value_string c str k)" "evolver (\<lambda>c. dc_set_value_integer c i)"
  "evolver (\<lambda>c. dc_set_value_float c d)" "evolver (\<lambda>c. dc_set_value_boolean c b)"
  "evolver (\<lambda>c. dc_restriction_set_range c mn mx)" "evolver (\<lambda>c. dc_restriction_set_numeric c d)"
  "evolver (\<lambda>c. dc_restriction_set_string c str)"
  unfolding evolver_def by (blast intro: evolving)+

lemma evolves_add_defaults [evolving]:
  "dc_add_default_string parent value k version s = Some (z1, s') \<Longrightarrow> evolves s0 s \<Longrightarrow> evolves s0 s'"
  "dc_add_default_integer parent i version s = Some (z2, s') \<Longrightarrow> evolves s0 s \<Longrightarrow> evolves s0 s'"
  "dc_add_default_float parent d version s = Some (z3, s') \<Longrightarrow> evolves s0 s \<Longrightarrow> evolves s0 s'"
  "dc_add_default_boolean parent b version s = Some (z4, s') \<Longrightarrow> evolves s0 s \<Longrightarrow> evolves s0 s'"
  unfolding dc_add_default_string_def dc_add_default_integer_def dc_add_default_float_def
    dc_add_default_boolean_def
  by (erule evolves_add_default_with, rule evolver_setters, assumption)+

lemma evolves_dc_add_default [evolving]:
  "dc_add_default strtod parent value value_size version s = Some (z1, s') \<Longrightarrow> evolves s0 s \<Longrightarrow> evolves s0 s'"
  unfolding dc_add_default_def
  by (elim do_elims Pair_inject value_type_SomeE; ((hypsubst | erule Pair_inject)+)?; (assumption | erule evolving | rule tame_updates)+)

lemma evolves_dc_add_documentation [evolving]:
  "dc_add_documentation parent doc doc_size s = Some (z1, s') \<Longrightarrow> evolves s0 s \<Longrightarrow> evolves s0 s'"
  unfolding dc_add_documentation_def
  by (elim do_elims Pair_inject; ((hypsubst | erule Pair_inject)+)?; (assumption | erule evolving | rule tame_updates)+)

lemma evolves_add_documentation_text_etc [evolving]:
  "add_documentation_text parent doc s = Some (z1, s') \<Longrightarrow> evolves s0 s \<Longrightarrow> evolves s0 s'"
  "add_default_of_type type1 string_input1 float_input1 integer_input1 boolean_input1 keyval1 version1 s = Some (z_11, s') \<Longrightarrow> evolves s0 s \<Longrightarrow> evolves s0 s'"
  unfolding add_documentation_text_def add_default_of_type_def
  by (elim do_elims Pair_inject; ((hypsubst | erule Pair_inject)+)?; (assumption | erule evolving | rule tame_updates)+)+

lemma evolves_keyval_steps [evolving]:
  "keyval_steps name doc version type string_input float_input integer_input boolean_input keyval s = Some (z1, s') \<Longrightarrow> evolves s0 s \<Longrightarrow> evolves s0 s'"
  unfolding keyval_steps_def
  by (elim do_elims Pair_inject; ((hypsubst | erule Pair_inject)+)?; (assumption | erule evolving | rule tame_updates)+)

lemma evolves_add_keyval_generic [evolving]:
  "add_keyval_generic parent name doc version type string_input float_input integer_input boolean_input wanted s = Some (z1, z2, s') \<Longrightarrow> evolves s0 s \<Longrightarrow> evolves s0 s'"
  unfolding add_keyval_generic_def
  by (elim do_elims Pair_inject; ((hypsubst | erule Pair_inject)+)?; (assumption | erule evolving | rule tame_updates)+)

lemma evolves_add_keyvals [evolving]:
  "dc_add_keyval_enum parent name def doc version wanted s = Some (z1, z2, s') \<Longrightarrow> evolves s0 s \<Longrightarrow> evolves s0 s'"
  "dc_add_keyval_string parent name def doc version wanted s = Some (z1, z2, s') \<Longrightarrow> evolves s0 s \<Longrightarrow> evolves s0 s'"
  "dc_add_keyval_boolean parent name b doc version wanted s = Some (z1, z2, s') \<Longrightarrow> evolves s0 s \<Longrightarrow> evolves s0 s'"
  "dc_add_keyval_float parent name d doc version wanted s = Some (z1, z2, s') \<Longrightarrow> evolves s0 s \<Longrightarrow> evolves s0 s'"
  "dc_add_keyval_integer parent name i doc version wanted s = Some (z1, z2, s') \<Longrightarrow> evolves s0 s \<Longrightarrow> evolves s0 s'"
  unfolding dc_add_keyval_enum_def dc_add_keyval_string_def dc_add_keyval_boolean_def
    dc_add_keyval_float_def dc_add_keyval_integer_def
  by (erule (1) evolves_add_keyval_generic)+

lemma evolves_restriction_steps [evolving]:
  "restriction_steps type fill doc version context s = Some (z1, s') \<Longrightarrow> evolver fill \<Longrightarrow> evolves s0 s \<Longrightarrow> evolves s0 s'"
  unfolding restriction_steps_def
  by (elim do_elims Pair_inject; ((hypsubst | erule Pair_inject)+)?; (assumption | erule evolving evolverD)+)

lemma evolves_add_restriction_with:
  "add_restriction_with type fill begin_failed parent doc version wanted s = Some (z1, z2, s') \<Longrightarrow>
     evolver fill \<Longrightarrow> evolves s0 s \<Longrightarrow> evolves s0 s'"
  unfolding add_restriction_with_def
  by (elim do_elims Pair_inject; ((hypsubst | erule Pair_inject)+)?; (assumption | erule evolving)+)

lemma evolves_add_restrictions [evolving]:
  "dc_add_restriction_value_range parent mn mx doc version wanted s = Some (z1, z2, s') \<Longrightarrow> evolves s0 s \<Longrightarrow> evolves s0 s'"
  "dc_add_restriction_value_numeric parent d doc version wanted s = Some (z1, z2, s') \<Longrightarrow> evolves s0 s \<Longrightarrow> evolves s0 s'"
  "dc_add_restriction_value_enum parent str doc version wanted s = Some (z1, z2, s') \<Longrightarrow> evolves s0 s \<Longrightarrow> evolves s0 s'"
  unfolding dc_add_restriction_value_range_def dc_add_restriction_value_numeric_def
    dc_add_restriction_value_enum_def
  by (erule evolves_add_restriction_with, rule evolver_setters, assumption)+

lemma evolves_add_restriction_entries [evolving]:
  "add_restriction_entries_min_max type parent i version s = Some (z1, s') \<Longrightarrow> evolves s0 s \<Longrightarrow> evolves s0 s'"
  unfolding add_restriction_entries_min_max_def
  by (elim do_elims Pair_inject; ((hypsubst | erule Pair_inject)+)?;
    (assumption | erule evolves_add_restriction_with | rule evolver_setters)+)

lemma evolves_add_restriction_bounds [evolving]:
  "dc_add_restriction_entries_min parent i version s = Some (z1, s') \<Longrightarrow> evolves s0 s \<Longrightarrow> evolves s0 s'"
  "dc_add_restriction_entries_max parent i version s = Some (z1, s') \<Longrightarrow> evolves s0 s \<Longrightarrow> evolves s0 s'"
  unfolding dc_add_restriction_entries_min_def dc_add_restriction_entries_max_def
  by (erule (1) evolves_add_restriction_entries)+

end
