(* ===== verification/Generate.thy ===== *)
theory Generate
  imports Adding
begin

text \<open>
  Generating a config from a mold (\<^verbatim>\<open>generate.c\<close>): every element of the mold is created in the
  config as often as its restrictions ask for at least, keyvals with their active default,
  sections with their own elements. A mold is identified with its context, as everywhere.
  \<^verbatim>\<open>log_debug\<close> and the trace output are left out.
\<close>

section \<open>One element\<close>

type_synonym generator =
  "ptr option \<Rightarrow> ptr option \<Rightarrow> version \<Rightarrow> bool \<Rightarrow> store \<Rightarrow> (status \<times> store) option"

text \<open>The keyval takes the value of the default active at the version; a mold keyval has one.\<close>

definition generate_value :: "ptr \<Rightarrow> ptr \<Rightarrow> version \<Rightarrow> store \<Rightarrow> (status \<times> store) option" where
  "generate_value element p version s = do {
     def \<leftarrow> dx_default_get_active (Some element) (Some version) s;
     e \<leftarrow> def;
     d \<leftarrow> get_default s e;
     k \<leftarrow> get_keyval s p;
     (status, v) \<leftarrow> dx_value_copy (kv_value k) (de_value d);
     s \<leftarrow> (case v of None \<Rightarrow> Some s | Some v \<Rightarrow> set_obj p (OKeyval (k\<lparr>kv_value := v\<rparr>)) s);
     Some (status, s) }"

text \<open>
  The body of the inner loop. Every error returns to the outer loop without giving the new
  context back; the status of the elements below a section is not looked at.
\<close>

definition generate_entry :: "generator \<Rightarrow> ptr option \<Rightarrow> ptr \<Rightarrow> version \<Rightarrow> bool \<Rightarrow> store \<Rightarrow>
    (status \<times> store) option" where
  "generate_entry generate config_parent element version generate_zero_min s = do {
     t \<leftarrow> dc_context_type s (Some element);
     (status, context, s) \<leftarrow> dc_begin config_parent t True s;
     if status \<noteq> OK then Some (status, s)
     else do {
       (status, name, s) \<leftarrow> dc_get_name (Some element) s;
       if status \<noteq> OK then Some (status, s)
       else do {
         (name, size) \<leftarrow> name;
         (status, s) \<leftarrow> dc_set_name context name size s;
         if status \<noteq> OK then Some (status, s)
         else do {
           p \<leftarrow> context;
           (status, s) \<leftarrow>
             (if t = CT_KEYVAL then generate_value element p version s
              else if t = CT_SECTION then do {
                (_, s) \<leftarrow> generate (Some element) context version generate_zero_min s;
                Some (OK, s) }
              else Some (OK, s));
           if status \<noteq> OK then Some (status, s)
           else do { (status, _, s) \<leftarrow> dc_finalize context s; Some (status, s) } } } } }"

primrec generate_entries :: "generator \<Rightarrow> ptr option \<Rightarrow> ptr \<Rightarrow> version \<Rightarrow> bool \<Rightarrow> nat \<Rightarrow> store \<Rightarrow>
    (status \<times> store) option" where
  "generate_entries generate config_parent element version zero 0 s = Some (OK, s)"
| "generate_entries generate config_parent element version zero (Suc n) s = do {
     (status, s) \<leftarrow> generate_entry generate config_parent element version zero s;
     if status \<noteq> OK then Some (status, s)
     else generate_entries generate config_parent element version zero n s }"

section \<open>All elements of a mold or section\<close>

text \<open>
  The loop over the collection; \<open>n\<close> bounds its turns, and a collection is exhausted after at
  most one turn more than it has entries. An error leaves the loop with the reference to the
  element still held.
\<close>

primrec generate_loop :: "generator \<Rightarrow> ptr option \<Rightarrow> version \<Rightarrow> bool \<Rightarrow> nat \<Rightarrow> disir_collection \<Rightarrow> store \<Rightarrow>
    (status \<times> disir_collection \<times> store) option" where
  "generate_loop generate config_parent version zero 0 col s = None"
| "generate_loop generate config_parent version zero (Suc n) col s = do {
     (status, r, col, s) \<leftarrow> dc_collection_next col s;
     if status = EXHAUSTED then Some (OK, col, s)
     else do {
       element \<leftarrow> r;
       (status, lower) \<leftarrow> dx_restriction_entries_value element INC_ENTRY_MIN (Some version) s;
       if status \<noteq> OK then Some (status, col, s)
       else do {
         m \<leftarrow> lower;
         let m = (if zero \<and> m = 0 then 1 else m);
         (status, s) \<leftarrow> generate_entries generate config_parent element version zero (nat m) s;
         if status \<noteq> OK then Some (status, col, s)
         else do {
           (_, s) \<leftarrow> dc_putcontext (Some element) s;
           generate_loop generate config_parent version zero n col s } } } }"

text \<open>
  When the elements of the mold cannot be read, the error path finishes a collection that was
  never initialised: a fault.
\<close>

definition generate_step_with :: "generator \<Rightarrow> generator" where
  "generate_step_with generate mold_parent config_parent version zero s = do {
     (status, r, s) \<leftarrow> dc_get_elements mold_parent s;
     if status \<noteq> OK then None
     else do {
       col \<leftarrow> r;
       (status, col, s) \<leftarrow> generate_loop generate config_parent version zero (cc_numentries col + 1) col s;
       (_, s) \<leftarrow> dc_collection_finished (Some col) s;
       Some (status, s) } }"

text \<open>The recursion follows the nesting of the mold, which has fewer levels than contexts.\<close>

primrec generate_fuel :: "nat \<Rightarrow> generator" where
  "generate_fuel 0 = (\<lambda>_ _ _ _ _. None)"
| "generate_fuel (Suc n) = generate_step_with (generate_fuel n)"

lemma generate_fuel_code [code]:
  "generate_fuel 0 a b c d s = None"
  "generate_fuel (Suc n) a b c d s = generate_step_with (generate_fuel n) a b c d s"
  by simp_all

definition generate_config_from_mold_recursive_step :: generator where
  "generate_config_from_mold_recursive_step mold_parent config_parent version zero s =
     generate_fuel (next_ptr s + 1) mold_parent config_parent version zero s"

section \<open>The public operations\<close>

text \<open>
  The status of the generation is not looked at; an error before it leaks the new config. The
  handle is what \<^verbatim>\<open>*config\<close> is set to.
\<close>

definition disir_generate_config_from_mold :: "ptr option \<Rightarrow> version option \<Rightarrow> store \<Rightarrow>
    (status \<times> ptr option \<times> store) option" where
  "disir_generate_config_from_mold mold config_version s =
     (case mold of None \<Rightarrow> Some (INVALID_ARGUMENT, None, s)
      | Some q \<Rightarrow> do {
          (status, config_context, s) \<leftarrow> dc_config_begin mold True s;
          if status \<noteq> OK then Some (status, None, s)
          else do {
            (status, version, s) \<leftarrow> (case config_version of None \<Rightarrow> dc_get_version mold s
                                    | Some v \<Rightarrow> Some (OK, Some v, s));
            if status \<noteq> OK then Some (status, None, s)
            else do {
              v \<leftarrow> version;
              (status, s) \<leftarrow> dc_set_version config_context (Some v) s;
              if status \<noteq> OK then Some (status, None, s)
              else do {
                (_, s) \<leftarrow> generate_config_from_mold_recursive_step mold config_context v False s;
                (status, config, context, s) \<leftarrow> dc_config_finalize config_context True s;
                if status \<noteq> OK then do {
                  s \<leftarrow> (case context of None \<Rightarrow> Some s
                        | Some _ \<Rightarrow> do { (_, s) \<leftarrow> dc_destroy context s; Some s });
                  Some (status, config, s) }
                else do {
                  p \<leftarrow> config;
                  g \<leftarrow> get_config s p;
                  m \<leftarrow> get_mold s q;
                  s \<leftarrow> set_obj p (OConfig (g\<lparr>cf_version :=
                         (case config_version of None \<Rightarrow> mo_version m | Some v \<Rightarrow> v)\<rparr>)) s;
                  Some (OK, config, s) } } } } })"

definition dc_generate_from_config_root :: "ptr option \<Rightarrow> store \<Rightarrow> (status \<times> store) option" where
  "dc_generate_from_config_root context s = do {
     (status, s) \<leftarrow> dx_context_sp_full_check context s;
     if status \<noteq> OK then Some (status, s)
     else do {
       p \<leftarrow> context;
       status \<leftarrow> dx_context_type_check p [CT_CONFIG, CT_SECTION] s;
       if status \<noteq> OK then Some (status, s)
       else do {
         c \<leftarrow> ctxs s p;
         rt \<leftarrow> dc_context_type s (cx_root c);
         if rt \<noteq> CT_CONFIG then do {
           s \<leftarrow> dx_context_error_set p ''root context must be of type CONFIG'' s;
           Some (WRONG_CONTEXT, s) }
         else do {
           t \<leftarrow> dc_context_type s (Some p);
           mold_equiv \<leftarrow> (if t = CT_CONFIG then do { g \<leftarrow> get_config s p; q \<leftarrow> cf_mold g; Some (Some q) }
                          else do { n \<leftarrow> get_section s p; Some (se_mold_equiv n) });
           r \<leftarrow> cx_root c;
           g \<leftarrow> get_config s r;
           generate_config_from_mold_recursive_step mold_equiv (Some p) (cf_version g) False s } } } }"

section \<open>How the heap evolves\<close>

definition generating :: "generator \<Rightarrow> bool" where
  "generating generate \<longleftrightarrow>
     (\<forall>m c v z s st s' s0. generate m c v z s = Some (st, s') \<longrightarrow> evolves s0 s \<longrightarrow> evolves s0 s')"

lemma generatingD:
  "generate m c v z s = Some (st, s') \<Longrightarrow> generating generate \<Longrightarrow> evolves s0 s \<Longrightarrow> evolves s0 s'"
  by (auto simp: generating_def)

lemma evolves_generate_value [evolving]:
  "generate_value element p version s = Some (st, s') \<Longrightarrow> evolves s0 s \<Longrightarrow> evolves s0 s'"
  unfolding generate_value_def
  by (elim do_elims Pair_inject; ((hypsubst | erule Pair_inject)+)?; (assumption | erule evolving)+)

lemma evolves_generate_entry [evolving]:
  "generate_entry generate q element version zero s = Some (st, s') \<Longrightarrow> generating generate \<Longrightarrow>
     evolves s0 s \<Longrightarrow> evolves s0 s'"
  unfolding generate_entry_def
  by (elim do_elims Pair_inject; ((hypsubst | erule Pair_inject)+)?;
      (assumption | erule evolving | erule (1) generatingD)+)

lemma evolves_generate_entries [evolving]:
  "generate_entries generate q element version zero n s = Some (st, s') \<Longrightarrow> generating generate \<Longrightarrow>
     evolves s0 s \<Longrightarrow> evolves s0 s'"
proof (induction n arbitrary: s)
  case (Suc n)
  show ?case
    by (insert Suc.prems [unfolded generate_entries.simps], elim do_elims Pair_inject; ((hypsubst | erule Pair_inject)+)?;
      (assumption | erule evolving Suc.IH)+)
qed simp

lemma evolves_generate_loop [evolving]:
  "generate_loop generate q version zero n col s = Some (st, col', s') \<Longrightarrow> generating generate \<Longrightarrow>
     evolves s0 s \<Longrightarrow> evolves s0 s'"
proof (induction n arbitrary: col s)
  case (Suc n)
  show ?case
    by (insert Suc.prems [unfolded generate_loop.simps], elim do_elims Pair_inject; ((hypsubst | erule Pair_inject)+)?;
      (assumption | erule evolving Suc.IH)+)
qed simp

lemma evolves_generate_step_with [evolving]:
  "generate_step_with generate m q version zero s = Some (st, s') \<Longrightarrow> generating generate \<Longrightarrow>
     evolves s0 s \<Longrightarrow> evolves s0 s'"
  unfolding generate_step_with_def
  by (elim do_elims Pair_inject; ((hypsubst | erule Pair_inject)+)?; (assumption | erule evolving)+)

lemma generating_fuel: "generating (generate_fuel n)"
proof (induction n)
  case 0
  then show ?case by (simp add: generating_def)
next
  case (Suc n)
  then show ?case
    by (auto simp: generating_def [of "generate_step_with (generate_fuel n)"] intro: evolves_generate_step_with)
qed

lemma evolves_generate_step [evolving]:
  "generate_config_from_mold_recursive_step m q version zero s = Some (st, s') \<Longrightarrow> evolves s0 s \<Longrightarrow> evolves s0 s'"
  unfolding generate_config_from_mold_recursive_step_def by (rule generatingD [OF _ generating_fuel])

lemma evolves_generate_config [evolving]:
  "disir_generate_config_from_mold mold version s = Some (st, r, s') \<Longrightarrow> evolves s0 s \<Longrightarrow> evolves s0 s'"
  "dc_generate_from_config_root context s = Some (st, s') \<Longrightarrow> evolves s0 s \<Longrightarrow> evolves s0 s'"
  unfolding disir_generate_config_from_mold_def dc_generate_from_config_root_def
  by (elim do_elims Pair_inject; ((hypsubst | erule Pair_inject)+)?; (assumption | erule evolving)+)+

end
