(* ===== verification/Query.thy ===== *)
theory Query
  imports Generate
begin

text \<open>
  Queries by name (\<^verbatim>\<open>query.c\<close>): names such as \<^verbatim>\<open>first@3.second.third@1\<close> are taken apart key by
  key and resolved to a context, and the sections a query needs are created. The query is the
  string the format and its arguments give; the buffers are strings, and a write behind the end
  of one is a fault. The buffer \<^verbatim>\<open>resolved\<close> only serves the messages, which the model keeps by
  their format, but it is written, and it has to have the room.
\<close>

section \<open>One key of a name\<close>

definition split_at :: "char \<Rightarrow> string \<Rightarrow> string \<times> string option" where
  "split_at c s = (takeWhile (\<lambda>x. x \<noteq> c) s, case dropWhile (\<lambda>x. x \<noteq> c) s of [] \<Rightarrow> None | _ # r \<Rightarrow> Some r)"

text \<open>
  The result: the status, the name cut at the separators found (also on an error), the buffer of
  what was resolved, the rest of the name, and the index.
\<close>

definition dx_query_resolve_name :: "ptr option \<Rightarrow> string \<Rightarrow> string \<Rightarrow> store \<Rightarrow>
    (status \<times> string \<times> string \<times> string option \<times> int \<times> store) option" where
  "dx_query_resolve_name parent name resolved s =
     (case parent of None \<Rightarrow> Some (INTERNAL_ERROR, name, resolved, None, 0, s)
      | Some p \<Rightarrow> do {
          let (upper, below) = split_at CHR ''.'' name;
          if upper = [] \<and> below \<noteq> None then do {
            s \<leftarrow> dx_context_error_set p '''%s' missing key before key seperator.'' s;
            Some (INVALID_ARGUMENT, upper, resolved @ ''.'', None, 0, s) }
          else do {
            let resolved = (if resolved \<noteq> [] then resolved @ ''.'' else resolved);
            let (key, name_index) = split_at CHR ''@'' upper;
            if key = [] \<and> name_index \<noteq> None then do {
              s \<leftarrow> dx_context_error_set p '''%s' missing key before index indicator.'' s;
              Some (INVALID_ARGUMENT, key, resolved @ ''@'', None, 0, s) }
            else do {
              let resolved = resolved @ key;
              case name_index of None \<Rightarrow> Some (OK, key, resolved, below, 0, s)
              | Some i \<Rightarrow>
                  if i = [] then do {
                    s \<leftarrow> dx_context_error_set p '''%s' missing index after indicator.'' s;
                    Some (INVALID_ARGUMENT, key, resolved @ ''@'', None, 0, s) }
                  else do {
                    let resolved = resolved @ ''@'' @ i;
                    case strtol10 i of
                      None \<Rightarrow> do {
                        s \<leftarrow> dx_context_error_set p '''%s' is an invalid index indicator.'' s;
                        Some (INVALID_ARGUMENT, key, resolved, None, 0, s) }
                    | Some (v, rest) \<Rightarrow>
                        if rest \<noteq> [] then do {
                          s \<leftarrow> dx_context_error_set p
                                '''%s' contains additional trailing non-integer characters.'' s;
                          Some (INVALID_ARGUMENT, key, resolved, None, to_int32 v, s) }
                        else Some (OK, key, resolved, below, to_int32 v, s) } } } })"

lemma split_at_length: "split_at c s = (a, Some b) \<Longrightarrow> length b < length s"
proof -
  assume "split_at c s = (a, Some b)"
  then have "length (dropWhile (\<lambda>x. x \<noteq> c) s) = Suc (length b)"
    by (auto simp: split_at_def split: list.splits)
  with length_dropWhile_le [of "\<lambda>x. x \<noteq> c" s] show ?thesis by linarith
qed

lemma resolve_name_next:
  "dx_query_resolve_name parent name resolved s = Some (st, key, resolved', Some next, i, s') \<Longrightarrow> length next < length name"
  by (auto simp: dx_query_resolve_name_def bind_eq_Some_conv Let_def dest: split_at_length
      split: option.splits prod.splits if_splits)

section \<open>A name to a context\<close>

text \<open>The index is passed on as an \<^verbatim>\<open>unsigned int\<close>.\<close>

definition unsigned_index :: "int \<Rightarrow> nat" where
  "unsigned_index i = nat (i mod 2 ^ 32)"

function query_resolve_name_to_context :: "ptr option \<Rightarrow> string \<Rightarrow> string \<Rightarrow> store \<Rightarrow>
    (status \<times> ptr option \<times> string \<times> store) option" where
  "query_resolve_name_to_context parent name resolved s = do {
     (status, key, resolved, next, index, s) \<leftarrow> dx_query_resolve_name parent name resolved s;
     if status \<noteq> OK then Some (status, None, resolved, s)
     else do {
       (status, found, s) \<leftarrow> dc_find_element parent (Some key) (unsigned_index index) s;
       if status = NOT_EXIST then Some (status, None, resolved, s)
       else if status = OK then
         (case next of
            Some next \<Rightarrow> do {
              (status, r, resolved, s) \<leftarrow> query_resolve_name_to_context found next resolved s;
              s \<leftarrow> dx_context_transfer_logwarn parent found s;
              (_, s) \<leftarrow> dc_putcontext found s;
              Some (status, r, resolved, s) }
          | None \<Rightarrow> Some (status, found, resolved, s))
       else do {
         p \<leftarrow> parent;
         s \<leftarrow> dx_context_error_set p ''unknown error occurred in name resolution.'' s;
         Some (status, None, resolved, s) } } }"
  by pat_completeness auto
termination
  by (relation "measure (\<lambda>(parent, name, resolved, s). length name)") (auto dest: resolve_name_next)

declare query_resolve_name_to_context.simps [simp del]

text \<open>The buffers of the callers hold 2048 bytes with the terminating one.\<close>

definition BUFFER_SIZE :: nat where
  "BUFFER_SIZE = 2048"

definition dc_query_resolve_context_va :: "ptr option \<Rightarrow> string \<Rightarrow> store \<Rightarrow> (status \<times> ptr option \<times> store) option" where
  "dc_query_resolve_context_va parent name s = do {
     (status, s) \<leftarrow> dx_context_sp_full_check parent s;
     if status \<noteq> OK then Some (status, None, s)
     else do {
       p \<leftarrow> parent;
       status \<leftarrow> dx_context_type_check p [CT_MOLD, CT_CONFIG, CT_SECTION] s;
       if status \<noteq> OK then Some (status, None, s)
       else if BUFFER_SIZE \<le> length name then do {
         s \<leftarrow> dx_context_error_set p ''Insufficient buffer. Name request exceeded 2048 bytes.'' s;
         Some (INSUFFICIENT_RESOURCES, None, s) }
       else do {
         (status, r, _, s) \<leftarrow> query_resolve_name_to_context parent name [] s;
         Some (status, r, s) } } }"

definition dc_query_resolve_context :: "ptr option \<Rightarrow> string \<Rightarrow> store \<Rightarrow> (status \<times> ptr option \<times> store) option" where
  "dc_query_resolve_context parent name s = dc_query_resolve_context_va parent name s"

section \<open>The parent of a missing entry\<close>

text \<open>The string before and behind the last separator, as \<^verbatim>\<open>strrchr\<close> finds it.\<close>

definition split_last :: "char \<Rightarrow> string \<Rightarrow> (string \<times> string) option" where
  "split_last c s =
     (if c \<in> set s then let last = rev (takeWhile (\<lambda>x. x \<noteq> c) (rev s))
                     in Some (take (length s - length last - 1) s, last)
      else None)"

text \<open>
  A last key that cannot be parsed is let through: the status of the parser is overwritten. The
  result is the status, the section, which gains a reference, and the name for the new entry.
\<close>

definition dx_query_resolve_parent_context :: "ptr \<Rightarrow> string \<Rightarrow> store \<Rightarrow>
    (status \<times> ptr option \<times> string option \<times> store) option" where
  "dx_query_resolve_parent_context parent query s = do {
     let buffer = take (BUFFER_SIZE - 1) query;
     (status, section, entry, s) \<leftarrow>
       (case split_last CHR ''.'' buffer of
          None \<Rightarrow> do { s \<leftarrow> dx_context_incref parent s; Some (OK, Some parent, buffer, s) }
        | Some (upper, entry) \<Rightarrow> do {
            (status, section, _, s) \<leftarrow> query_resolve_name_to_context (Some parent) upper [] s;
            Some (status, section, entry, s) });
     if status \<noteq> OK then Some (status, None, None, s)
     else if section = None then Some (NOT_EXIST, None, None, s)
     else do {
       (status, entry, _, _, index, s) \<leftarrow> dx_query_resolve_name section entry [] s;
       (status, col, s) \<leftarrow>
         (if status \<noteq> OK then Some (OK, None, s)
          else do {
            (status, col, s) \<leftarrow> dc_find_elements section (Some entry) s;
            if status \<noteq> OK \<and> status \<noteq> NOT_EXIST then Some (status, col, s)
            else do {
              (n, col, s) \<leftarrow> dc_collection_size col s;
              Some (if int n \<noteq> index then NOT_EXIST else OK, col, s) } });
       s \<leftarrow> (if status = OK then Some s else do { (_, s) \<leftarrow> dc_putcontext section s; Some s });
       s \<leftarrow> (case col of None \<Rightarrow> Some s | Some _ \<Rightarrow> do { (_, s) \<leftarrow> dc_collection_finished col s; Some s });
       if status = OK then Some (OK, section, Some entry, s) else Some (status, None, None, s) } }"

section \<open>Creating the sections of a name\<close>

text \<open>
  One section that does not exist yet. Every error leaves the loop, so the status OK means to go
  on. The results are the status, the ancestor (the section created closest to the root, which
  stays under construction), the variable \<^verbatim>\<open>current_context\<close>, and the store.
\<close>

definition create_section :: "ptr \<Rightarrow> ptr option \<Rightarrow> string \<Rightarrow> int \<Rightarrow> ptr option \<Rightarrow> ptr option \<Rightarrow> store \<Rightarrow>
    (status \<times> ptr option \<times> ptr option \<times> store) option" where
  "create_section config parent key index ancestor current s = do {
     (status, col, s) \<leftarrow> dc_find_elements parent (Some key) s;
     (go, elements, s) \<leftarrow>
       (if status = OK then do {
          (n, col, s) \<leftarrow> dc_collection_size col s;
          (_, s) \<leftarrow> dc_collection_finished col s;
          Some (True, int n, s) }
        else Some (status = NOT_EXIST, 0, s));
     if \<not> go then Some (INTERNAL_ERROR, ancestor, current, s)
     else if index \<noteq> elements then do {
       s \<leftarrow> dx_context_error_set config
             ''accessing index %s is out of range of existing number of elements %d, can only access index that is one greater'' s;
       Some (NO_CAN_DO, ancestor, current, s) }
     else do {
       (_, parent_mold) \<leftarrow> dx_get_mold_equiv s parent;
       (status, mold, s) \<leftarrow> dc_find_element parent_mold (Some key) 0 s;
       if status \<noteq> OK then do {
         s \<leftarrow> dx_context_error_set config ''section %s does not exist'' s;
         Some (MOLD_MISSING, ancestor, current, s) }
       else do {
         m \<leftarrow> mold;
         (status, limit) \<leftarrow> dx_restriction_entries_value m INC_ENTRY_MAX None s;
         t \<leftarrow> dc_context_type s mold;
         if status \<noteq> OK then do { (_, s) \<leftarrow> dc_putcontext mold s; Some (status, ancestor, current, s) }
         else if t \<noteq> CT_SECTION then do {
           s \<leftarrow> dx_context_error_set config ''expected %s to be a section, is keyval'' s;
           (_, s) \<leftarrow> dc_putcontext mold s;
           Some (CONFLICT, ancestor, current, s) }
         else do {
           (_, s) \<leftarrow> dc_putcontext mold s;
           max_elements \<leftarrow> limit;
           if max_elements \<noteq> 0 \<and> max_elements \<le> index then do {
             s \<leftarrow> dx_context_error_set config ''accessing index %s exceeds maximum elements %d'' s;
             Some (RESTRICTION_VIOLATED, ancestor, current, s) }
           else do {
             (status, new, s) \<leftarrow> dc_begin parent CT_SECTION True s;
             if status \<noteq> OK then Some (INTERNAL_ERROR, ancestor, current, s)
             else do {
               let ancestor = (if ancestor = None then new else ancestor);
               (status, s) \<leftarrow> dc_set_name new (Some key) (int (length key)) s;
               if status \<noteq> OK then do {
                 s \<leftarrow> dx_context_transfer_logwarn (Some config) new s;
                 (_, s) \<leftarrow> dc_destroy new s;
                 Some (status, ancestor, None, s) }
               else do {
                 (status, s) \<leftarrow> dc_generate_from_config_root new s;
                 if status \<noteq> OK then do {
                   (_, s) \<leftarrow> dc_destroy new s;
                   Some (status, ancestor, None, s) }
                 else if ancestor = new then Some (OK, ancestor, new, s)
                 else do {
                   (status, s) \<leftarrow> dc_finalize_keep_reference new s;
                   if status \<noteq> OK then do {
                     (_, s) \<leftarrow> dc_destroy new s;
                     Some (INTERNAL_ERROR, ancestor, None, s) }
                   else Some (OK, ancestor, new, s) } } } } } } } }"

text \<open>Giving up a reference through a variable, which is set to NULL when that frees the context.\<close>

definition decref_variable :: "ptr option \<Rightarrow> store \<Rightarrow> (ptr option \<times> store) option" where
  "decref_variable v s =
     (case v of None \<Rightarrow> Some (None, s)
      | Some p \<Rightarrow> do { (freed, s) \<leftarrow> dx_context_decref p s; Some (if freed then None else v, s) })"

text \<open>
  The loop over the keys. \<^verbatim>\<open>dc_find_element\<close> writes \<^verbatim>\<open>current_context\<close> when it finds the
  element. The results: the status, the last key and its index, the parent the last key is
  looked up in, the ancestor, and \<^verbatim>\<open>current_context\<close>.
\<close>

function ensure_loop :: "ptr \<Rightarrow> string \<Rightarrow> string \<Rightarrow> ptr option \<Rightarrow> ptr option \<Rightarrow> ptr option \<Rightarrow> store \<Rightarrow>
    (status \<times> string \<times> int \<times> ptr option \<times> ptr option \<times> ptr option \<times> store) option" where
  "ensure_loop config name resolved parent ancestor current s = do {
     (status, key, resolved, next, index, s) \<leftarrow> dx_query_resolve_name (Some config) name resolved s;
     if status \<noteq> OK then Some (status, key, index, parent, ancestor, current, s)
     else case next of
       None \<Rightarrow> Some (OK, key, index, parent, ancestor, current, s)
     | Some next \<Rightarrow> do {
         (status, found, s) \<leftarrow> dc_find_element parent (Some key) (unsigned_index index) s;
         (status, ancestor, current, s) \<leftarrow>
           (if status = NOT_EXIST then create_section config parent key index ancestor current s
            else do {
              let current = (if status = OK then found else current);
              t \<leftarrow> dc_context_type s current;
              if t \<noteq> CT_SECTION then do {
                s \<leftarrow> dx_context_error_set config ''expected %s to be a section, is keyval'' s;
                (current, s) \<leftarrow> decref_variable current s;
                Some (CONFLICT, ancestor, current, s) }
              else Some (OK, ancestor, current, s) });
         if status \<noteq> OK then Some (status, key, index, parent, ancestor, current, s)
         else do {
           (current', s) \<leftarrow> (if current \<noteq> ancestor then decref_variable current s else Some (current, s));
           ensure_loop config next resolved current ancestor current' s } } }"
  by pat_completeness auto
termination
  by (relation "measure (\<lambda>(config, name, resolved, parent, ancestor, current, s). length name)")
    (auto dest: resolve_name_next)

declare ensure_loop.simps [simp del]

text \<open>
  The results are the status, the ancestor, the parent (with a reference), and the name and
  index of the last key. On an error the ancestor is destroyed unless it is the current context,
  which the code takes for destroyed already.
\<close>

definition dx_query_ensure_ancestors :: "ptr \<Rightarrow> string \<Rightarrow> bool \<Rightarrow> store \<Rightarrow>
    (status \<times> ptr option \<times> ptr option \<times> string \<times> int \<times> store) option" where
  "dx_query_ensure_ancestors config query has_parent s = do {
     (status, key, index, parent, ancestor, current, s) \<leftarrow>
        ensure_loop config (take (BUFFER_SIZE - 1) query) [] (Some config) None None s;
     if status \<noteq> OK then do {
       s \<leftarrow> (if ancestor \<noteq> None \<and> ancestor \<noteq> current then do { (_, s) \<leftarrow> dc_destroy ancestor s; Some s }
             else Some s);
       Some (status, None, None, [], 0, s) }
     else do {
       s \<leftarrow> (if has_parent then do { q \<leftarrow> parent; dx_context_incref q s } else Some s);
       Some (OK, ancestor, if has_parent then parent else None, key, index, s) } }"

section \<open>How the heap evolves\<close>

lemma evolves_resolve_name [evolving]:
  "dx_query_resolve_name parent name resolved s = Some (st, key, r, next, i, s') \<Longrightarrow> evolves s0 s \<Longrightarrow> evolves s0 s'"
  unfolding dx_query_resolve_name_def
  by (elim do_elims Pair_inject; ((hypsubst | erule Pair_inject)+)?; (assumption | erule evolving)+)

lemma shorter_next:
  "dx_query_resolve_name parent name resolved s = Some (st, key, resolved', Some next, i, s') \<Longrightarrow>
   length name < Suc n \<Longrightarrow> length next < n"
  using resolve_name_next by fastforce

lemma evolves_resolve_name_bounded:
  "query_resolve_name_to_context parent name resolved s = Some (st, found, r, s') \<Longrightarrow> length name < n \<Longrightarrow>
   evolves s0 s \<Longrightarrow> evolves s0 s'"
proof (induction n arbitrary: parent name resolved s st found r s')
  case (Suc n)
  show ?case
    by (insert Suc.prems [unfolded query_resolve_name_to_context.simps [of parent name]],
      elim do_elims Pair_inject; ((hypsubst | erule Pair_inject)+)?;
      (assumption | erule evolving Suc.IH | erule (1) shorter_next)+)
qed simp

lemma evolves_resolve_name_to_context [evolving]:
  "query_resolve_name_to_context parent name resolved s = Some (st, found, r, s') \<Longrightarrow> evolves s0 s \<Longrightarrow> evolves s0 s'"
  by (rule evolves_resolve_name_bounded [OF _ lessI])

lemma evolves_query_resolve_context_va [evolving]:
  "dc_query_resolve_context_va parent name s = Some (st, r, s') \<Longrightarrow> evolves s0 s \<Longrightarrow> evolves s0 s'"
  unfolding dc_query_resolve_context_va_def
  by (elim do_elims Pair_inject; ((hypsubst | erule Pair_inject)+)?; (assumption | erule evolving)+)

lemma evolves_query_resolve_context [evolving]:
  "dc_query_resolve_context parent name s = Some (st, r, s') \<Longrightarrow> evolves s0 s \<Longrightarrow> evolves s0 s'"
  unfolding dc_query_resolve_context_def by (rule evolves_query_resolve_context_va)

lemma evolves_resolve_parent_context [evolving]:
  "dx_query_resolve_parent_context parent query s = Some (st, r, n, s') \<Longrightarrow> evolves s0 s \<Longrightarrow> evolves s0 s'"
  unfolding dx_query_resolve_parent_context_def
  by (elim do_elims Pair_inject; ((hypsubst | erule Pair_inject)+)?; (assumption | erule evolving)+)

lemma evolves_create_section [evolving]:
  "create_section config parent key index ancestor current s = Some (st, a, c, s') \<Longrightarrow> evolves s0 s \<Longrightarrow> evolves s0 s'"
  unfolding create_section_def
  by (elim do_elims Pair_inject; ((hypsubst | erule Pair_inject)+)?; (assumption | erule evolving)+)

lemma evolves_decref_variable [evolving]:
  "decref_variable v s = Some (v', s') \<Longrightarrow> evolves s0 s \<Longrightarrow> evolves s0 s'"
  unfolding decref_variable_def
  by (elim do_elims Pair_inject; ((hypsubst | erule Pair_inject)+)?; (assumption | erule evolving)+)

lemma evolves_ensure_loop_bounded:
  "ensure_loop config name resolved parent ancestor current s = Some (st, key, i, q, a, c, s') \<Longrightarrow> length name < n \<Longrightarrow>
   evolves s0 s \<Longrightarrow> evolves s0 s'"
proof (induction n arbitrary: config name resolved parent ancestor current s)
  case (Suc n)
  show ?case
    by (insert Suc.prems [unfolded ensure_loop.simps [of config name]],
      elim do_elims Pair_inject; ((hypsubst | erule Pair_inject)+)?;
      (assumption | erule evolving Suc.IH | erule (1) shorter_next)+)
qed simp

lemma evolves_ensure_loop [evolving]:
  "ensure_loop config name resolved parent ancestor current s = Some (st, key, i, q, a, c, s') \<Longrightarrow>
   evolves s0 s \<Longrightarrow> evolves s0 s'"
  by (rule evolves_ensure_loop_bounded [OF _ lessI])

lemma evolves_ensure_ancestors [evolving]:
  "dx_query_ensure_ancestors config query has_parent s = Some (st, a, q, key, i, s') \<Longrightarrow> evolves s0 s \<Longrightarrow> evolves s0 s'"
  unfolding dx_query_ensure_ancestors_def
  by (elim do_elims Pair_inject; ((hypsubst | erule Pair_inject)+)?; (assumption | erule evolving)+)

end
