(* ===== verification/ConfigQuery.thy ===== *)
theory ConfigQuery
  imports Query
begin

text \<open>
  Reading and writing the values of a config by query (\<^verbatim>\<open>disir_config_query.c\<close>). A value to
  set that does not exist yet is created, with the sections above it, when the mold and its
  restrictions allow the entry. The query is the string its format and arguments give.
\<close>

section \<open>Values of any type\<close>

datatype query_value = QString "string option" | QBoolean "8 word" | QInteger "64 word" | QFloat double

text \<open>A type the switch has no case for leaves the status uninitialised.\<close>

definition set_value_generic :: "ptr option \<Rightarrow> value_type \<Rightarrow> string option \<Rightarrow> 8 word \<Rightarrow> 64 word \<Rightarrow> double \<Rightarrow> store \<Rightarrow>
    (status \<times> store) option" where
  "set_value_generic context type value_string value_boolean value_integer value_float s =
     (case type of
        VT_ENUM \<Rightarrow> do { v \<leftarrow> value_string; dc_set_value_enum context (Some v) (int (length v)) s }
      | VT_STRING \<Rightarrow> do { v \<leftarrow> value_string; dc_set_value_string context (Some v) (int (length v)) s }
      | VT_BOOLEAN \<Rightarrow> dc_set_value_boolean context value_boolean s
      | VT_INTEGER \<Rightarrow> dc_set_value_integer context value_integer s
      | VT_FLOAT \<Rightarrow> dc_set_value_float context value_float s
      | VT_UNKNOWN \<Rightarrow> Some (INTERNAL_ERROR, s)
      | _ \<Rightarrow> None)"

definition get_value_generic :: "ptr option \<Rightarrow> value_type \<Rightarrow> store \<Rightarrow> (status \<times> query_value option \<times> store) option" where
  "get_value_generic context type s =
     (case type of
        VT_ENUM \<Rightarrow> do { (status, v, s) \<leftarrow> dc_get_value_enum context True s; Some (status, map_option (\<lambda>x. QString (fst x)) v, s) }
      | VT_STRING \<Rightarrow> do { (status, v, s) \<leftarrow> dc_get_value_string context True s; Some (status, map_option (\<lambda>x. QString (fst x)) v, s) }
      | VT_BOOLEAN \<Rightarrow> do { (status, v, s) \<leftarrow> dc_get_value_boolean context True s; Some (status, map_option QBoolean v, s) }
      | VT_INTEGER \<Rightarrow> do { (status, v, s) \<leftarrow> dc_get_value_integer context True s; Some (status, map_option QInteger v, s) }
      | VT_FLOAT \<Rightarrow> do { (status, v, s) \<leftarrow> dc_get_value_float context True s; Some (status, map_option QFloat v, s) }
      | VT_UNKNOWN \<Rightarrow> Some (INTERNAL_ERROR, None, s)
      | _ \<Rightarrow> None)"

section \<open>Getting\<close>

text \<open>\<open>has_output\<close>: the pointer for a value of the type asked for is not NULL.\<close>

definition config_get_keyval_generic :: "ptr option \<Rightarrow> value_type \<Rightarrow> string option \<Rightarrow> bool \<Rightarrow> store \<Rightarrow>
    (status \<times> query_value option \<times> store) option" where
  "config_get_keyval_generic parent type query has_output s =
     (case query of None \<Rightarrow> Some (INVALID_ARGUMENT, None, s)
      | Some q \<Rightarrow>
          if parent = None then Some (INVALID_ARGUMENT, None, s)
          else if type = VT_UNKNOWN then Some (INTERNAL_ERROR, None, s)
          else if type \<in> {VT_ENUM, VT_STRING, VT_BOOLEAN, VT_INTEGER, VT_FLOAT} \<and> \<not> has_output
          then Some (INVALID_ARGUMENT, None, s)
          else do {
            (status, context, s) \<leftarrow> dc_query_resolve_context_va parent q s;
            if status \<noteq> OK then Some (status, None, s)
            else do {
              (status, v, s) \<leftarrow> get_value_generic context type s;
              (_, s) \<leftarrow> dc_putcontext context s;
              Some (status, v, s) } })"

section \<open>Setting\<close>

definition config_ensure_keyval_leaf :: "ptr \<Rightarrow> string \<Rightarrow> int \<Rightarrow> value_type \<Rightarrow> string option \<Rightarrow> 8 word \<Rightarrow> 64 word \<Rightarrow>
    double \<Rightarrow> store \<Rightarrow> (status \<times> store) option" where
  "config_ensure_keyval_leaf parent key index type value_string value_boolean value_integer value_float s = do {
     (_, parent_mold) \<leftarrow> dx_get_mold_equiv s (Some parent);
     (status, mold, s) \<leftarrow> dc_find_element parent_mold (Some key) 0 s;
     if status \<noteq> OK then do {
       s \<leftarrow> dx_context_error_set parent ''keyval %s does not exist'' s;
       Some (MOLD_MISSING, s) }
     else do {
       t \<leftarrow> dc_context_type s mold;
       m \<leftarrow> mold;
       (status, limit) \<leftarrow> dx_restriction_entries_value m INC_ENTRY_MAX None s;
       (_, s) \<leftarrow> dc_putcontext mold s;
       if status \<noteq> OK then Some (status, s)
       else do {
         max_elements \<leftarrow> limit;
         if max_elements \<noteq> 0 \<and> max_elements \<le> index then do {
           s \<leftarrow> dx_context_error_set parent ''accessing index %s@%d exceeds maximum allowed instances of %d'' s;
           Some (RESTRICTION_VIOLATED, s) }
         else do {
           (status, col, s) \<leftarrow> dc_find_elements (Some parent) (Some key) s;
           (elements, s) \<leftarrow>
             (if status = OK then do {
                (n, col, s) \<leftarrow> dc_collection_size col s;
                (_, s) \<leftarrow> dc_collection_finished col s;
                Some (int n, s) }
              else Some (0, s));
           if index \<noteq> elements then do {
             s \<leftarrow> dx_context_error_set parent ''accessing non-existent index %s@%d, expected index %d'' s;
             Some (CONFLICT, s) }
           else if t \<noteq> CT_KEYVAL then do {
             s \<leftarrow> dx_context_error_set parent ''expected %s to be a keyval, is section'' s;
             Some (CONFLICT, s) }
           else do {
             (status, context, s) \<leftarrow> dc_begin (Some parent) CT_KEYVAL True s;
             if status \<noteq> OK then Some (status, s)
             else do {
               (status, s) \<leftarrow> dc_set_name context (Some key) (int (length key)) s;
               if status \<noteq> OK then Some (status, s)
               else do {
                 vt \<leftarrow> dc_value_type s context;
                 if vt \<noteq> type then do {
                   s \<leftarrow> dx_context_error_set parent ''expected type %s, found %s'' s;
                   (_, s) \<leftarrow> dc_destroy context s;
                   Some (WRONG_VALUE_TYPE, s) }
                 else do {
                   (status, s) \<leftarrow> set_value_generic context type value_string value_boolean value_integer value_float s;
                   if status \<noteq> OK then do {
                     s \<leftarrow> dx_context_transfer_logwarn (Some parent) context s;
                     (_, s) \<leftarrow> dc_destroy context s;
                     Some (status, s) }
                   else do {
                     (status, context, s) \<leftarrow> dc_finalize context s;
                     if status \<noteq> OK then do {
                       s \<leftarrow> dx_context_transfer_logwarn (Some parent) context s;
                       (_, s) \<leftarrow> dc_destroy context s;
                       Some (status, s) }
                     else Some (OK, s) } } } } } } } } }"

text \<open>Setting the value of a context that was found, and giving the context back.\<close>

definition set_found :: "ptr option \<Rightarrow> ptr option \<Rightarrow> value_type \<Rightarrow> string option \<Rightarrow> 8 word \<Rightarrow> 64 word \<Rightarrow> double \<Rightarrow>
    store \<Rightarrow> (status \<times> store) option" where
  "set_found parent context type value_string value_boolean value_integer value_float s = do {
     (status, s) \<leftarrow> set_value_generic context type value_string value_boolean value_integer value_float s;
     s \<leftarrow> (if status \<noteq> OK then dx_context_transfer_logwarn parent context s else Some s);
     (_, s) \<leftarrow> dc_putcontext context s;
     Some (status, s) }"

definition config_set_keyval_generic :: "ptr option \<Rightarrow> value_type \<Rightarrow> string option \<Rightarrow> string option \<Rightarrow> 8 word \<Rightarrow>
    64 word \<Rightarrow> double \<Rightarrow> store \<Rightarrow> (status \<times> store) option" where
  "config_set_keyval_generic parent type query value_string value_boolean value_integer value_float s =
     (case (parent, query) of
        (Some p, Some q) \<Rightarrow>
          if value_string = None \<and> (type = VT_STRING \<or> type = VT_ENUM) then Some (INVALID_ARGUMENT, s)
          else do {
            (status, context, s) \<leftarrow> dc_query_resolve_context_va parent q s;
            if status = OK then set_found parent context type value_string value_boolean value_integer value_float s
            else if status \<noteq> NOT_EXIST then Some (status, s)
            else do {
              (status, ancestor, immediate_parent, key, index, s) \<leftarrow> dx_query_ensure_ancestors p q True s;
              if status \<noteq> OK then Some (status, s)
              else do {
                (status, context, s) \<leftarrow> dc_find_element immediate_parent (Some key) (unsigned_index index) s;
                (status, s) \<leftarrow>
                  (if status = OK
                   then set_found parent context type value_string value_boolean value_integer value_float s
                   else do {
                     ip \<leftarrow> immediate_parent;
                     (status, s) \<leftarrow> config_ensure_keyval_leaf ip key index type value_string value_boolean
                                     value_integer value_float s;
                     s \<leftarrow> (if status \<noteq> OK then dx_context_transfer_logwarn parent immediate_parent s else Some s);
                     Some (status, s) });
                (_, s) \<leftarrow> dc_putcontext immediate_parent s;
                if ancestor = None then Some (status, s)
                else if status = OK then do {
                  (status, ancestor, s) \<leftarrow> dc_finalize ancestor s;
                  if status \<noteq> OK then do {
                    s \<leftarrow> dx_context_transfer_logwarn parent ancestor s;
                    (_, s) \<leftarrow> dc_destroy ancestor s;
                    Some (status, s) }
                  else Some (status, s) }
                else do { (_, s) \<leftarrow> dc_destroy ancestor s; Some (status, s) } } } }
      | _ \<Rightarrow> Some (INVALID_ARGUMENT, s))"

section \<open>The public operations on a config\<close>

text \<open>
  Each takes a reference to the context of the config for the time of the call. A config always
  has a context; without one the status returned would be uninitialised.
\<close>

definition config_get_keyval :: "value_type \<Rightarrow> ptr option \<Rightarrow> bool \<Rightarrow> string option \<Rightarrow> store \<Rightarrow>
    (status \<times> query_value option \<times> store) option" where
  "config_get_keyval type config has_output query s =
     (if config = None then Some (INVALID_ARGUMENT, None, s)
      else do {
        (context, s) \<leftarrow> dc_config_getcontext config s;
        if context = None then None
        else do {
          (status, v, s) \<leftarrow> config_get_keyval_generic context type query has_output s;
          (_, s) \<leftarrow> dc_putcontext context s;
          Some (status, v, s) } })"

definition config_set_keyval :: "value_type \<Rightarrow> ptr option \<Rightarrow> string option \<Rightarrow> string option \<Rightarrow> 8 word \<Rightarrow> 64 word \<Rightarrow>
    double \<Rightarrow> store \<Rightarrow> (status \<times> store) option" where
  "config_set_keyval type config query value_string value_boolean value_integer value_float s =
     (if config = None then Some (INVALID_ARGUMENT, s)
      else do {
        (context, s) \<leftarrow> dc_config_getcontext config s;
        if context = None then None
        else do {
          (status, s) \<leftarrow> config_set_keyval_generic context type query value_string value_boolean value_integer value_float s;
          (_, s) \<leftarrow> dc_putcontext context s;
          Some (status, s) } })"

definition disir_config_get_keyval_boolean :: "ptr option \<Rightarrow> bool \<Rightarrow> string option \<Rightarrow> store \<Rightarrow>
    (status \<times> query_value option \<times> store) option" where
  "disir_config_get_keyval_boolean config has_output query s = config_get_keyval VT_BOOLEAN config has_output query s"

definition disir_config_set_keyval_boolean :: "ptr option \<Rightarrow> 8 word \<Rightarrow> string option \<Rightarrow> store \<Rightarrow> (status \<times> store) option" where
  "disir_config_set_keyval_boolean config value query s = config_set_keyval VT_BOOLEAN config query None value 0 dbl_zero s"

definition disir_config_get_keyval_integer :: "ptr option \<Rightarrow> bool \<Rightarrow> string option \<Rightarrow> store \<Rightarrow>
    (status \<times> query_value option \<times> store) option" where
  "disir_config_get_keyval_integer config has_output query s = config_get_keyval VT_INTEGER config has_output query s"

definition disir_config_set_keyval_integer :: "ptr option \<Rightarrow> 64 word \<Rightarrow> string option \<Rightarrow> store \<Rightarrow> (status \<times> store) option" where
  "disir_config_set_keyval_integer config value query s = config_set_keyval VT_INTEGER config query None 0 value dbl_zero s"

definition disir_config_get_keyval_float :: "ptr option \<Rightarrow> bool \<Rightarrow> string option \<Rightarrow> store \<Rightarrow>
    (status \<times> query_value option \<times> store) option" where
  "disir_config_get_keyval_float config has_output query s = config_get_keyval VT_FLOAT config has_output query s"

definition disir_config_set_keyval_float :: "ptr option \<Rightarrow> double \<Rightarrow> string option \<Rightarrow> store \<Rightarrow> (status \<times> store) option" where
  "disir_config_set_keyval_float config value query s = config_set_keyval VT_FLOAT config query None 0 0 value s"

definition disir_config_get_keyval_string :: "ptr option \<Rightarrow> bool \<Rightarrow> string option \<Rightarrow> store \<Rightarrow>
    (status \<times> query_value option \<times> store) option" where
  "disir_config_get_keyval_string config has_output query s = config_get_keyval VT_STRING config has_output query s"

definition disir_config_set_keyval_string :: "ptr option \<Rightarrow> string option \<Rightarrow> string option \<Rightarrow> store \<Rightarrow> (status \<times> store) option" where
  "disir_config_set_keyval_string config value query s = config_set_keyval VT_STRING config query value 0 0 dbl_zero s"

definition disir_config_get_keyval_enum :: "ptr option \<Rightarrow> bool \<Rightarrow> string option \<Rightarrow> store \<Rightarrow>
    (status \<times> query_value option \<times> store) option" where
  "disir_config_get_keyval_enum config has_output query s = config_get_keyval VT_ENUM config has_output query s"

definition disir_config_set_keyval_enum :: "ptr option \<Rightarrow> string option \<Rightarrow> string option \<Rightarrow> store \<Rightarrow> (status \<times> store) option" where
  "disir_config_set_keyval_enum config value query s = config_set_keyval VT_ENUM config query value 0 0 dbl_zero s"

section \<open>The public operations on a context\<close>

definition dc_config_get_keyval_boolean :: "ptr option \<Rightarrow> bool \<Rightarrow> string option \<Rightarrow> store \<Rightarrow>
    (status \<times> query_value option \<times> store) option" where
  "dc_config_get_keyval_boolean parent has_output query s = config_get_keyval_generic parent VT_BOOLEAN query has_output s"

definition dc_config_set_keyval_boolean :: "ptr option \<Rightarrow> 8 word \<Rightarrow> string option \<Rightarrow> store \<Rightarrow> (status \<times> store) option" where
  "dc_config_set_keyval_boolean parent value query s = config_set_keyval_generic parent VT_BOOLEAN query None value 0 dbl_zero s"

definition dc_config_get_keyval_integer :: "ptr option \<Rightarrow> bool \<Rightarrow> string option \<Rightarrow> store \<Rightarrow>
    (status \<times> query_value option \<times> store) option" where
  "dc_config_get_keyval_integer parent has_output query s = config_get_keyval_generic parent VT_INTEGER query has_output s"

definition dc_config_set_keyval_integer :: "ptr option \<Rightarrow> 64 word \<Rightarrow> string option \<Rightarrow> store \<Rightarrow> (status \<times> store) option" where
  "dc_config_set_keyval_integer parent value query s = config_set_keyval_generic parent VT_INTEGER query None 0 value dbl_zero s"

definition dc_config_get_keyval_float :: "ptr option \<Rightarrow> bool \<Rightarrow> string option \<Rightarrow> store \<Rightarrow>
    (status \<times> query_value option \<times> store) option" where
  "dc_config_get_keyval_float parent has_output query s = config_get_keyval_generic parent VT_FLOAT query has_output s"

definition dc_config_set_keyval_float :: "ptr option \<Rightarrow> double \<Rightarrow> string option \<Rightarrow> store \<Rightarrow> (status \<times> store) option" where
  "dc_config_set_keyval_float parent value query s = config_set_keyval_generic parent VT_FLOAT query None 0 0 value s"

definition dc_config_get_keyval_string :: "ptr option \<Rightarrow> bool \<Rightarrow> string option \<Rightarrow> store \<Rightarrow>
    (status \<times> query_value option \<times> store) option" where
  "dc_config_get_keyval_string parent has_output query s = config_get_keyval_generic parent VT_STRING query has_output s"

definition dc_config_set_keyval_string :: "ptr option \<Rightarrow> string option \<Rightarrow> string option \<Rightarrow> store \<Rightarrow> (status \<times> store) option" where
  "dc_config_set_keyval_string parent value query s = config_set_keyval_generic parent VT_STRING query value 0 0 dbl_zero s"

definition dc_config_get_keyval_enum :: "ptr option \<Rightarrow> bool \<Rightarrow> string option \<Rightarrow> store \<Rightarrow>
    (status \<times> query_value option \<times> store) option" where
  "dc_config_get_keyval_enum parent has_output query s = config_get_keyval_generic parent VT_ENUM query has_output s"

definition dc_config_set_keyval_enum :: "ptr option \<Rightarrow> string option \<Rightarrow> string option \<Rightarrow> store \<Rightarrow> (status \<times> store) option" where
  "dc_config_set_keyval_enum parent value query s = config_set_keyval_generic parent VT_ENUM query value 0 0 dbl_zero s"

section \<open>How the heap evolves\<close>

lemma evolves_set_value_generic [evolving]:
  "set_value_generic context type vs vb vi vf s = Some (st, s') \<Longrightarrow> evolves s0 s \<Longrightarrow> evolves s0 s'"
  unfolding set_value_generic_def
  by (elim do_elims value_type_SomeE Pair_inject; ((hypsubst | erule Pair_inject)+)?; (assumption | erule evolving)+)

lemma evolves_get_value_generic [evolving]:
  "get_value_generic context type s = Some (st, v, s') \<Longrightarrow> evolves s0 s \<Longrightarrow> evolves s0 s'"
  unfolding get_value_generic_def
  by (elim do_elims value_type_SomeE Pair_inject; ((hypsubst | erule Pair_inject)+)?; (assumption | erule evolving)+)

lemma evolves_get_keyval_generic [evolving]:
  "config_get_keyval_generic parent type query b s = Some (st, v, s') \<Longrightarrow> evolves s0 s \<Longrightarrow> evolves s0 s'"
  unfolding config_get_keyval_generic_def
  by (elim do_elims Pair_inject; ((hypsubst | erule Pair_inject)+)?; (assumption | erule evolving)+)

lemma evolves_ensure_keyval_leaf [evolving]:
  "config_ensure_keyval_leaf parent key index type vs vb vi vf s = Some (st, s') \<Longrightarrow> evolves s0 s \<Longrightarrow> evolves s0 s'"
  unfolding config_ensure_keyval_leaf_def
  by (elim do_elims Pair_inject; ((hypsubst | erule Pair_inject)+)?; (assumption | erule evolving)+)

lemma evolves_set_found [evolving]:
  "set_found parent context type vs vb vi vf s = Some (st, s') \<Longrightarrow> evolves s0 s \<Longrightarrow> evolves s0 s'"
  unfolding set_found_def
  by (elim do_elims Pair_inject; ((hypsubst | erule Pair_inject)+)?; (assumption | erule evolving)+)

lemma evolves_set_keyval_generic [evolving]:
  "config_set_keyval_generic parent type query vs vb vi vf s = Some (st, s') \<Longrightarrow> evolves s0 s \<Longrightarrow> evolves s0 s'"
  unfolding config_set_keyval_generic_def
  by (elim do_elims Pair_inject; ((hypsubst | erule Pair_inject)+)?; (assumption | erule evolving)+)

lemma evolves_config_keyval [evolving]:
  "config_get_keyval type config b query s = Some (st, v, s') \<Longrightarrow> evolves s0 s \<Longrightarrow> evolves s0 s'"
  "config_set_keyval type2 config2 query2 vs vb vi vf s = Some (st2, s') \<Longrightarrow> evolves s0 s \<Longrightarrow> evolves s0 s'"
  unfolding config_get_keyval_def config_set_keyval_def
  by (elim do_elims Pair_inject; ((hypsubst | erule Pair_inject)+)?; (assumption | erule evolving)+)+

lemmas config_keyval_defs =
  disir_config_get_keyval_boolean_def disir_config_set_keyval_boolean_def disir_config_get_keyval_integer_def disir_config_set_keyval_integer_def
  disir_config_get_keyval_float_def disir_config_set_keyval_float_def disir_config_get_keyval_string_def disir_config_set_keyval_string_def
  disir_config_get_keyval_enum_def disir_config_set_keyval_enum_def dc_config_get_keyval_boolean_def dc_config_set_keyval_boolean_def
  dc_config_get_keyval_integer_def dc_config_set_keyval_integer_def dc_config_get_keyval_float_def dc_config_set_keyval_float_def
  dc_config_get_keyval_string_def dc_config_set_keyval_string_def dc_config_get_keyval_enum_def dc_config_set_keyval_enum_def

end
