(* ===== verification/Update.thy ===== *)
theory Update
  imports Query
begin

text \<open>
  Updating a config to a later version of its mold (\<^verbatim>\<open>update.c\<close>): the keyvals of the config are
  visited one by one; one still at its old default takes the new default, one that differs from
  both is a conflict the caller resolves before the update goes on. \<^verbatim>\<open>up_keyval\<close> is the context
  of the keyval; the texts of a conflict are its stringified values. \<^verbatim>\<open>strtod\<close> is a parameter.
\<close>

record disir_update =
  up_target :: version
  up_config_old :: ptr
  up_config_target :: "ptr option"
  up_collection :: "disir_collection option"
  up_updated :: int
  up_keyval :: "ptr option"
  up_context_keyval :: "ptr option"
  up_config_value :: "string option"
  up_mold_value :: "string option"

section \<open>The keyvals of a config\<close>

type_synonym retriever = "ptr \<Rightarrow> disir_collection \<Rightarrow> store \<Rightarrow> (status \<times> disir_collection \<times> store) option"

text \<open>
  The loop ends with the first status other than OK, of the collection or of the retrieval below
  an element; the element whose retrieval failed is returned with its reference.
\<close>

primrec retrieve_loop :: "retriever \<Rightarrow> nat \<Rightarrow> disir_collection \<Rightarrow> disir_collection \<Rightarrow> store \<Rightarrow>
    (status \<times> ptr option \<times> disir_collection \<times> disir_collection \<times> store) option" where
  "retrieve_loop retrieve 0 coll keyvals s = None"
| "retrieve_loop retrieve (Suc n) coll keyvals s = do {
     (status, context, coll, s) \<leftarrow> dc_collection_next coll s;
     if status \<noteq> OK then Some (status, context, coll, keyvals, s)
     else do {
       p \<leftarrow> context;
       (status, keyvals, s) \<leftarrow> retrieve p keyvals s;
       if status \<noteq> OK then Some (status, context, coll, keyvals, s)
       else do {
         (_, s) \<leftarrow> dc_putcontext context s;
         retrieve_loop retrieve n coll keyvals s } } }"

definition retrieve_with :: "retriever \<Rightarrow> retriever" where
  "retrieve_with retrieve current keyvals s = do {
     c \<leftarrow> ctxs s current;
     if cx_type c = CT_KEYVAL then dc_collection_push_context keyvals (Some current) s
     else if cx_type c \<noteq> CT_CONFIG \<and> cx_type c \<noteq> CT_SECTION then Some (INVALID_ARGUMENT, keyvals, s)
     else do {
       elements \<leftarrow> get_elements s current;
       (status, coll, s) \<leftarrow> dx_element_storage_get_all elements s;
       if status \<noteq> OK then Some (status, keyvals, s)
       else do {
         coll \<leftarrow> coll;
         (status, context, coll, keyvals, s) \<leftarrow> retrieve_loop retrieve (cc_numentries coll + 1) coll keyvals s;
         (_, s) \<leftarrow> dc_collection_finished (Some coll) s;
         s \<leftarrow> (if context = None then Some s else do { (_, s) \<leftarrow> dc_putcontext context s; Some s });
         Some (status, keyvals, s) } } }"

primrec retrieve_fuel :: "nat \<Rightarrow> retriever" where
  "retrieve_fuel 0 = (\<lambda>_ _ _. None)"
| "retrieve_fuel (Suc n) = retrieve_with (retrieve_fuel n)"

lemma retrieve_fuel_code [code]:
  "retrieve_fuel 0 p keyvals s = None"
  "retrieve_fuel (Suc n) p keyvals s = retrieve_with (retrieve_fuel n) p keyvals s"
  by simp_all

definition retrieve_all_keyvals_recursively :: retriever where
  "retrieve_all_keyvals_recursively current keyvals s = retrieve_fuel (next_ptr s + 1) current keyvals s"

section \<open>The update of the next keyvals\<close>

text \<open>
  One keyval: whether it is in conflict, whether its value was updated, and its text and that of
  the new default when it is in conflict. Comparing with a default the keyval has not is a fault,
  and so is the text of a value without a type, which stays uninitialised.
\<close>

datatype verdict = Unchanged | Updated | Conflict string string

definition update_keyval :: "version \<Rightarrow> ptr \<Rightarrow> ptr \<Rightarrow> store \<Rightarrow> (verdict \<times> store) option" where
  "update_keyval target old p s = do {
     k \<leftarrow> get_keyval s p;
     target_def \<leftarrow> dx_default_get_active (kv_mold_equiv k) (Some target) s;
     e \<leftarrow> target_def;
     td \<leftarrow> get_default s e;
     g \<leftarrow> get_config s old;
     if dc_version_compare (de_introduced td) (cf_version g) \<le> 0 then Some (Unchanged, s)
     else do {
       res \<leftarrow> dx_value_compare (kv_value k) (de_value td);
       if res = 0 then Some (Unchanged, s)
       else do {
         config_def \<leftarrow> dx_default_get_active (kv_mold_equiv k) (Some (cf_version g)) s;
         e \<leftarrow> config_def;
         cd \<leftarrow> get_default s e;
         res \<leftarrow> dx_value_compare (kv_value k) (de_value cd);
         if res = 0 then do {
           (_, v) \<leftarrow> dx_value_copy (kv_value k) (de_value td);
           s \<leftarrow> (case v of None \<Rightarrow> Some s | Some v \<Rightarrow> set_obj p (OKeyval (k\<lparr>kv_value := v\<rparr>)) s);
           Some (Updated, s) }
         else do {
           (a, config_value, _) \<leftarrow> dx_value_stringify (kv_value k) 512;
           (b, mold_value, _) \<leftarrow> dx_value_stringify (de_value td) 512;
           if a \<noteq> OK \<or> b \<noteq> OK then None
           else Some (Conflict config_value mold_value, s) } } } }"

text \<open>
  The loop; \<open>config_keyval\<close> is the context of the round before, and \<open>n\<close> bounds the rounds.
  The reference to a keyval in conflict is kept in \<^verbatim>\<open>up_context_keyval\<close>.
\<close>

primrec continue_loop :: "nat \<Rightarrow> ptr option \<Rightarrow> disir_update \<Rightarrow> store \<Rightarrow> (status \<times> disir_update \<times> store) option" where
  "continue_loop 0 config_keyval u s = None"
| "continue_loop (Suc n) config_keyval u s = do {
     s \<leftarrow> (if config_keyval = None then Some s else do { (_, s) \<leftarrow> dc_putcontext config_keyval s; Some s });
     coll \<leftarrow> up_collection u;
     (status, config_keyval, coll, s) \<leftarrow> dc_collection_next coll s;
     let u = u\<lparr>up_context_keyval := None, up_collection := Some coll\<rparr>;
     if status \<noteq> OK then Some (status, u, s)
     else do {
       p \<leftarrow> config_keyval;
       (verdict, s) \<leftarrow> update_keyval (up_target u) (up_config_old u) p s;
       let u = u\<lparr>up_context_keyval := config_keyval\<rparr>;
       case verdict of
         Conflict config_value mold_value \<Rightarrow>
           Some (CONFLICT, u\<lparr>up_keyval := Some p, up_config_value := Some config_value,
                            up_mold_value := Some mold_value\<rparr>, s)
       | Updated \<Rightarrow> continue_loop n config_keyval (u\<lparr>up_updated := up_updated u + 1\<rparr>) s
       | Unchanged \<Rightarrow> continue_loop n config_keyval u s } }"

definition disir_update_continue :: "disir_update option \<Rightarrow> store \<Rightarrow>
    (status \<times> disir_update option \<times> store) option" where
  "disir_update_continue update s =
     (case update of None \<Rightarrow> Some (INVALID_ARGUMENT, None, s)
      | Some u \<Rightarrow>
          if up_keyval u \<noteq> None then Some (CONFLICT, Some u, s)
          else do {
            coll \<leftarrow> up_collection u;
            (status, u, s) \<leftarrow> continue_loop (cc_numentries coll + 1) None u s;
            if status \<noteq> EXHAUSTED then Some (status, Some u, s)
            else do {
              g \<leftarrow> get_config s (up_config_old u);
              s \<leftarrow> set_obj (up_config_old u) (OConfig (g\<lparr>cf_version := up_target u\<rparr>)) s;
              Some (OK, Some u, s) } })"

section \<open>The public operations\<close>

text \<open>
  \<^verbatim>\<open>disir_update_finished\<close>, which does not check its argument: the config handed out, or given
  back when the caller does not want it, then the collection and the keyval in conflict.
\<close>

definition disir_update_finished :: "disir_update option \<Rightarrow> bool \<Rightarrow> store \<Rightarrow> (status \<times> ptr option \<times> store) option" where
  "disir_update_finished update has_config s = do {
     u \<leftarrow> update;
     s \<leftarrow> (if has_config then Some s
           else do { (_, _, s) \<leftarrow> disir_config_finished (up_config_target u) s; Some s });
     (_, s) \<leftarrow> dc_collection_finished (up_collection u) s;
     s \<leftarrow> (if up_context_keyval u = None then Some s
           else do { (_, s) \<leftarrow> dc_putcontext (up_context_keyval u) s; Some s });
     Some (OK, if has_config then up_config_target u else None, s) }"

text \<open>A fresh update is zeroed; an error before the update is handed out finishes it.\<close>

definition update_create :: "version \<Rightarrow> ptr \<Rightarrow> disir_update" where
  "update_create target old =
     \<lparr>up_target = target, up_config_old = old, up_config_target = None, up_collection = None, up_updated = 0,
      up_keyval = None, up_context_keyval = None, up_config_value = None, up_mold_value = None\<rparr>"

definition disir_update_config :: "ptr option \<Rightarrow> version option \<Rightarrow> bool \<Rightarrow> store \<Rightarrow>
    (status \<times> disir_update option \<times> store) option" where
  "disir_update_config config target has_update s =
     (case config of None \<Rightarrow> Some (INVALID_ARGUMENT, None, s)
      | Some p \<Rightarrow>
          if \<not> has_update then Some (INVALID_ARGUMENT, None, s)
          else do {
            g \<leftarrow> get_config s p;
            q \<leftarrow> cf_mold g;
            m \<leftarrow> get_mold s q;
            let target = (case target of None \<Rightarrow> mo_version m | Some v \<Rightarrow> v);
            let res = dc_version_compare (cf_version g) target;
            if 0 < res then Some (CONFLICTING_SEMVER, None, s)
            else if res = 0 then Some (NO_CAN_DO, None, s)
            else do {
              let up = update_create target p;
              (status, config_at_target, s) \<leftarrow> disir_generate_config_from_mold (Some q) (Some target) s;
              if status \<noteq> OK then do {
                (_, _, s) \<leftarrow> disir_update_finished (Some up) False s;
                Some (status, None, s) }
              else do {
                let up = up\<lparr>up_config_target := config_at_target\<rparr>;
                (status, keyvals, s) \<leftarrow> retrieve_all_keyvals_recursively p dc_collection_create s;
                let up = up\<lparr>up_collection := Some keyvals\<rparr>;
                if status \<noteq> OK \<and> status \<noteq> EXHAUSTED then do {
                  (_, _, s) \<leftarrow> disir_update_finished (Some up) False s;
                  Some (status, None, s) }
                else disir_update_continue (Some up) s } } })"

text \<open>The name of the keyval in conflict, its value in the config and its new default.\<close>

definition disir_update_conflict :: "disir_update option \<Rightarrow> bool \<Rightarrow> store \<Rightarrow>
    (status \<times> (string option \<times> string option \<times> string option) option) option" where
  "disir_update_conflict update has_output s =
     (case update of None \<Rightarrow> Some (INVALID_ARGUMENT, None)
      | Some u \<Rightarrow>
          if \<not> has_output then Some (INVALID_ARGUMENT, None)
          else case up_keyval u of None \<Rightarrow> Some (NO_CAN_DO, None)
          | Some p \<Rightarrow> do {
              k \<leftarrow> get_keyval s p;
              b \<leftarrow> as_string (dv_data (kv_name k));
              Some (OK, Some (map_option (\<lambda>x. cstr (snd x)) b, up_config_value u, up_mold_value u)) })"

text \<open>
  The name serves as the format of a query without arguments; one that holds a conversion is
  undefined. On success the keyval in conflict is given back and the update can go on.
\<close>

definition disir_update_resolve :: "(string \<Rightarrow> double option) \<Rightarrow> disir_update option \<Rightarrow> string option \<Rightarrow> store \<Rightarrow>
    (status \<times> disir_update option \<times> store) option" where
  "disir_update_resolve strtod update resolve s =
     (case update of None \<Rightarrow> Some (INVALID_ARGUMENT, None, s)
      | Some u \<Rightarrow>
          (case up_keyval u of None \<Rightarrow> Some (NO_CAN_DO, Some u, s)
           | Some p \<Rightarrow> do {
               k \<leftarrow> get_keyval s p;
               b \<leftarrow> as_string (dv_data (kv_name k));
               name \<leftarrow> map_option (\<lambda>x. cstr (snd x)) b;
               if CHR ''%'' \<in> set name then None
               else do {
                 (status, context, s) \<leftarrow> dc_query_resolve_context (up_config_target u) name s;
                 if status \<noteq> OK then Some (status, Some u, s)
                 else do {
                   v \<leftarrow> resolve;
                   (status, s) \<leftarrow> dc_set_value strtod context (Some v) (int (length v)) s;
                   (u, s) \<leftarrow>
                     (if status \<noteq> OK then Some (u, s)
                      else do {
                        (_, s) \<leftarrow> dc_putcontext (up_context_keyval u) s;
                        Some (u\<lparr>up_updated := up_updated u + 1, up_keyval := None, up_context_keyval := None,
                               up_config_value := None, up_mold_value := None\<rparr>, s) });
                   (_, s) \<leftarrow> dc_putcontext context s;
                   Some (status, Some u, s) } } }))"

text \<open>
  The loop of \<^verbatim>\<open>dx_update_config_with_changes\<close>: every conflict is resolved to the value of the
  config or, where that violates a restriction and \<open>discard\<close> allows it, to the new default. It
  need not end: a resolution that fails with the new default leaves the conflict as it was.
\<close>

partial_function (option) resolve_loop :: "(string \<Rightarrow> double option) \<Rightarrow> bool \<Rightarrow> status \<Rightarrow> disir_update option \<Rightarrow> store \<Rightarrow>
    (bool \<times> status \<times> disir_update option \<times> store) option" where
  "resolve_loop strtod discard status update s =
     (if status \<noteq> CONFLICT then Some (True, status, update, s)
      else do {
        (status, texts) \<leftarrow> disir_update_conflict update True s;
        if status \<noteq> OK then Some (False, status, update, s)
        else do {
          (_, keyval, mold) \<leftarrow> texts;
          (status, update, s) \<leftarrow> disir_update_resolve strtod update keyval s;
          if status = RESTRICTION_VIOLATED \<and> discard then do {
            (_, update, s) \<leftarrow> disir_update_resolve strtod update mold s;
            (status, update, s) \<leftarrow> disir_update_continue update s;
            resolve_loop strtod discard status update s }
          else if status \<noteq> OK then Some (False, status, update, s)
          else do {
            (status, update, s) \<leftarrow> disir_update_continue update s;
            resolve_loop strtod discard status update s } } })"

declare resolve_loop.simps [code]

text \<open>The result: the status, what \<^verbatim>\<open>*config\<close> is afterwards, and the heap.\<close>

definition dx_update_config_with_changes :: "(string \<Rightarrow> double option) \<Rightarrow> ptr \<Rightarrow> bool \<Rightarrow> store \<Rightarrow>
    (status \<times> ptr option \<times> store) option" where
  "dx_update_config_with_changes strtod config discard s = do {
     g \<leftarrow> get_config s config;
     q \<leftarrow> cf_mold g;
     m \<leftarrow> get_mold s q;
     (status, update, s) \<leftarrow> disir_update_config (Some config) (Some (mo_version m)) True s;
     (done_all, status, update, s) \<leftarrow>
       (if status \<noteq> CONFLICT then Some (False, status, update, s)
        else resolve_loop strtod discard status update s);
     if done_all then do {
       (_, target, s) \<leftarrow> disir_update_finished update True s;
       (status, _, s) \<leftarrow> disir_config_finished (Some config) s;
       Some (status, target, s) }
     else do {
       s \<leftarrow> (if update = None then Some s
             else do { (_, _, s) \<leftarrow> disir_update_finished update False s; Some s });
       Some (status, Some config, s) } }"

section \<open>How the heap evolves\<close>

definition retrieving :: "retriever \<Rightarrow> bool" where
  "retrieving retrieve \<longleftrightarrow>
     (\<forall>p k s st k' s' s0. retrieve p k s = Some (st, k', s') \<longrightarrow> evolves s0 s \<longrightarrow> evolves s0 s')"

lemma retrievingD:
  "retrieve p k s = Some (st, k', s') \<Longrightarrow> retrieving retrieve \<Longrightarrow> evolves s0 s \<Longrightarrow> evolves s0 s'"
  by (auto simp: retrieving_def)

lemma evolves_retrieve_loop [evolving]:
  "retrieve_loop retrieve n coll keyvals s = Some (st, c, coll', keyvals', s') \<Longrightarrow> retrieving retrieve \<Longrightarrow>
   evolves s0 s \<Longrightarrow> evolves s0 s'"
proof (induction n arbitrary: coll keyvals s)
  case (Suc n)
  show ?case
    by (insert Suc.prems [unfolded retrieve_loop.simps], elim do_elims Pair_inject; ((hypsubst | erule Pair_inject)+)?;
      (assumption | erule evolving Suc.IH | erule (1) retrievingD)+)
qed simp

lemma evolves_retrieve_with [evolving]:
  "retrieve_with retrieve p k s = Some (st, k', s') \<Longrightarrow> retrieving retrieve \<Longrightarrow> evolves s0 s \<Longrightarrow> evolves s0 s'"
  unfolding retrieve_with_def
  by (elim do_elims Pair_inject; ((hypsubst | erule Pair_inject)+)?; (assumption | erule evolving)+)

lemma retrieving_fuel: "retrieving (retrieve_fuel n)"
proof (induction n)
  case 0
  then show ?case by (simp add: retrieving_def)
next
  case (Suc n)
  then show ?case by (auto simp: retrieving_def [of "retrieve_with (retrieve_fuel n)"] intro: evolves_retrieve_with)
qed

lemma evolves_retrieve_all [evolving]:
  "retrieve_all_keyvals_recursively p k s = Some (st, k', s') \<Longrightarrow> evolves s0 s \<Longrightarrow> evolves s0 s'"
  unfolding retrieve_all_keyvals_recursively_def by (rule retrievingD [OF _ retrieving_fuel])

lemma evolves_update_keyval [evolving]:
  "update_keyval target old p s = Some (v, s') \<Longrightarrow> evolves s0 s \<Longrightarrow> evolves s0 s'"
  unfolding update_keyval_def
  by (elim do_elims Pair_inject; ((hypsubst | erule Pair_inject)+)?; (assumption | erule evolving)+)

lemma verdict_SomeE:
  assumes "(case v of Unchanged \<Rightarrow> a | Updated \<Rightarrow> b | Conflict x y \<Rightarrow> f x y) = Some r"
    and "a = Some r \<Longrightarrow> P" "b = Some r \<Longrightarrow> P" "\<And>x y. f x y = Some r \<Longrightarrow> P"
  shows P
  using assms by (cases v) auto

lemma evolves_continue_loop [evolving]:
  "continue_loop n c u s = Some (st, u', s') \<Longrightarrow> evolves s0 s \<Longrightarrow> evolves s0 s'"
proof (induction n arbitrary: c u s)
  case (Suc n)
  show ?case
    by (insert Suc.prems [unfolded continue_loop.simps], elim do_elims verdict_SomeE Pair_inject;
      ((hypsubst | erule Pair_inject)+)?; (assumption | erule evolving Suc.IH)+)
qed simp

lemma evolves_update_continue [evolving]:
  "disir_update_continue u s = Some (st, u', s') \<Longrightarrow> evolves s0 s \<Longrightarrow> evolves s0 s'"
  unfolding disir_update_continue_def
  by (elim do_elims Pair_inject; ((hypsubst | erule Pair_inject)+)?; (assumption | erule evolving)+)

lemma evolves_update_finished [evolving]:
  "disir_update_finished u b s = Some (st, r, s') \<Longrightarrow> evolves s0 s \<Longrightarrow> evolves s0 s'"
  unfolding disir_update_finished_def
  by (elim do_elims Pair_inject; ((hypsubst | erule Pair_inject)+)?; (assumption | erule evolving)+)

lemma evolves_update_config [evolving]:
  "disir_update_config p target b s = Some (st, u, s') \<Longrightarrow> evolves s0 s \<Longrightarrow> evolves s0 s'"
  unfolding disir_update_config_def
  by (elim do_elims Pair_inject; ((hypsubst | erule Pair_inject)+)?; (assumption | erule evolving)+)

lemma evolves_update_resolve [evolving]:
  "disir_update_resolve strtod u r s = Some (st, u', s') \<Longrightarrow> evolves s0 s \<Longrightarrow> evolves s0 s'"
  unfolding disir_update_resolve_def
  by (elim do_elims Pair_inject; ((hypsubst | erule Pair_inject)+)?; (assumption | erule evolving)+)

end
