(* ===== verification/Compare.thy ===== *)
theory Compare
  imports Documents
begin

text \<open>
  Comparing two contexts (\<^verbatim>\<open>compare.c\<close>): the differences are collected in a report, which the
  model keeps as the list of the formats of its entries. The texts of the entries are only
  built as far as building them can fault: a value is printed into a buffer of 100 bytes.
\<close>

type_synonym report = "string list"

definition dx_diff_report_create :: report where
  "dx_diff_report_create = []"

definition dx_diff_report_add :: "report \<Rightarrow> string \<Rightarrow> report" where
  "dx_diff_report_add report fmt = report @ [fmt]"

section \<open>The queues\<close>

text \<open>
  The functions on queues always return OK; the result is the report. A value without a type is
  not printed, and the buffer that is read for it is uninitialised: a fault.
\<close>

fun compare_default_queues :: "store \<Rightarrow> ptr list \<Rightarrow> ptr list \<Rightarrow> report \<Rightarrow> report option" where
  "compare_default_queues s [] [] report = Some report"
| "compare_default_queues s (l # ls) [] report = Some (dx_diff_report_add report ''rhs is missing default entry'')"
| "compare_default_queues s [] (r # rs) report = Some (dx_diff_report_add report ''lhs is missing default entry'')"
| "compare_default_queues s (l # ls) (r # rs) report = do {
     x \<leftarrow> get_default s l;
     y \<leftarrow> get_default s r;
     if dc_version_compare (de_introduced x) (de_introduced y) \<noteq> 0
     then Some (dx_diff_report_add report ''Default differ in version (%s vs %s)'')
     else do {
       res \<leftarrow> dx_value_compare (de_value x) (de_value y);
       if res \<noteq> 0 then do {
         (a, _) \<leftarrow> dx_value_stringify (de_value x) 100;
         (b, _) \<leftarrow> dx_value_stringify (de_value y) 100;
         if a \<noteq> OK \<or> b \<noteq> OK then None
         else Some (dx_diff_report_add report ''Default value differ ('%s' vs '%s')'') }
       else compare_default_queues s ls rs report } }"

fun compare_documentation_queues :: "store \<Rightarrow> ptr list \<Rightarrow> ptr list \<Rightarrow> report \<Rightarrow> report option" where
  "compare_documentation_queues s [] [] report = Some report"
| "compare_documentation_queues s (l # ls) [] report =
     Some (dx_diff_report_add report ''rhs is missing documentation entry'')"
| "compare_documentation_queues s [] (r # rs) report =
     Some (dx_diff_report_add report ''lhs is missing documentation entry'')"
| "compare_documentation_queues s (l # ls) (r # rs) report = do {
     x \<leftarrow> get_documentation s l;
     y \<leftarrow> get_documentation s r;
     if dc_version_compare (dd_introduced x) (dd_introduced y) \<noteq> 0
     then Some (dx_diff_report_add report ''Documentation differ in version (%s vs %s)'')
     else do {
       res \<leftarrow> dx_value_compare (dd_value x) (dd_value y);
       if res \<noteq> 0 then do {
         (_, a) \<leftarrow> dx_value_get_string (Some (dd_value x)) True;
         (_, b) \<leftarrow> dx_value_get_string (Some (dd_value y)) True;
         if a = None \<or> b = None then None
         else Some (dx_diff_report_add report ''Documentation string differ ('%s' vs '%s')'') }
       else compare_documentation_queues s ls rs report } }"

text \<open>Only the first restrictions of the queues are compared.\<close>

definition compare_restriction_queue :: "store \<Rightarrow> ptr list \<Rightarrow> ptr list \<Rightarrow> report \<Rightarrow> report option" where
  "compare_restriction_queue s lhs rhs report =
     (case (lhs, rhs) of
        ([], []) \<Rightarrow> Some report
      | (_ # _, []) \<Rightarrow> Some (dx_diff_report_add report ''rhs is missing restriction entry'')
      | ([], _ # _) \<Rightarrow> Some (dx_diff_report_add report ''lhs is missing restriction entry'')
      | (l # _, r # _) \<Rightarrow> do {
          x \<leftarrow> get_restriction s l;
          y \<leftarrow> get_restriction s r;
          if dc_version_compare (re_introduced x) (re_introduced y) \<noteq> 0
          then Some (dx_diff_report_add report ''Restriction differ in introduced (%s vs %s)'')
          else if dc_version_compare (re_deprecated x) (re_deprecated y) \<noteq> 0
          then Some (dx_diff_report_add report ''Restriction differ in deprecated (%s vs %s)'')
          else if re_type x \<noteq> re_type y
          then Some (dx_diff_report_add report ''Restriction type differ (%s vs %s)'')
          else do {
            report \<leftarrow> compare_documentation_queues s (re_documentation_queue x) (re_documentation_queue y) report;
            let differ = (\<not> dbl_eq (re_value_numeric x) (re_value_numeric y) \<or> \<not> dbl_eq (re_value_min x) (re_value_min y) \<or>
                \<not> dbl_eq (re_value_max x) (re_value_max y) \<or>
                (case (re_value_string x, re_value_string y) of (Some a, Some b) \<Rightarrow> strcmp a b \<noteq> 0 | _ \<Rightarrow> False));
            Some (if differ then dx_diff_report_add report ''Restriction values differ... (printout NYI)'' else report) } })"

section \<open>The elements of one name\<close>

type_synonym differ = "ptr \<Rightarrow> ptr \<Rightarrow> report \<Rightarrow> store \<Rightarrow> (status \<times> report \<times> store) option"

definition put_variable :: "ptr option \<Rightarrow> store \<Rightarrow> store option" where
  "put_variable v s = (case v of None \<Rightarrow> Some s | Some p \<Rightarrow> do { (_, s) \<leftarrow> dc_putcontext v s; Some s })"

text \<open>The entries of both sides in step; the results include the entries still held.\<close>

primrec pair_loop :: "differ \<Rightarrow> ptr \<Rightarrow> nat \<Rightarrow> disir_collection \<Rightarrow> disir_collection \<Rightarrow> report \<Rightarrow> store \<Rightarrow>
    (status \<times> ptr option \<times> ptr option \<times> disir_collection \<times> disir_collection \<times> report \<times> store) option" where
  "pair_loop differ lhs 0 lc rc report s = None"
| "pair_loop differ lhs (Suc n) lc rc report s = do {
     (status, l, lc, s) \<leftarrow> dc_collection_next lc s;
     if status = EXHAUSTED then Some (OK, None, None, lc, rc, report, s)
     else if status \<noteq> OK then Some (status, l, None, lc, rc, report, s)
     else do {
       (status, r, rc, s) \<leftarrow> dc_collection_next rc s;
       if status = EXHAUSTED then do {
         (_, s) \<leftarrow> dx_context_name (Some lhs) s;
         (_, s) \<leftarrow> dc_putcontext l s;
         pair_loop differ lhs n lc rc (dx_diff_report_add report ''%s contains extra entry.'') s }
       else if status \<noteq> OK then Some (status, l, r, lc, rc, report, s)
       else do {
         p \<leftarrow> l;
         q \<leftarrow> r;
         (status, report, s) \<leftarrow> differ p q report s;
         if status \<noteq> OK then Some (status, l, r, lc, rc, report, s)
         else do {
           (_, s) \<leftarrow> dc_putcontext l s;
           (_, s) \<leftarrow> dc_putcontext r s;
           pair_loop differ lhs n lc rc report s } } } }"

text \<open>What is left of the right side.\<close>

primrec rest_loop :: "ptr \<Rightarrow> nat \<Rightarrow> disir_collection \<Rightarrow> report \<Rightarrow> store \<Rightarrow>
    (disir_collection \<times> report \<times> store) option" where
  "rest_loop lhs 0 rc report s = None"
| "rest_loop lhs (Suc n) rc report s = do {
     (status, r, rc, s) \<leftarrow> dc_collection_next rc s;
     if status = EXHAUSTED then Some (rc, report, s)
     else if status = OK then do {
       (_, s) \<leftarrow> dx_context_name (Some lhs) s;
       (_, s) \<leftarrow> dc_putcontext r s;
       rest_loop lhs n rc (dx_diff_report_add report ''%s missing entry.'') s }
     else do { (_, s) \<leftarrow> dc_putcontext r s; Some (rc, report, s) } }"

definition compare_in_name_with :: "differ \<Rightarrow> ptr \<Rightarrow> ptr \<Rightarrow> string \<Rightarrow> report \<Rightarrow> store \<Rightarrow>
    (status \<times> report \<times> store) option" where
  "compare_in_name_with differ lhs rhs name report s = do {
     (status, lcol, s) \<leftarrow> dc_find_elements (Some lhs) (Some name) s;
     if status \<noteq> OK then Some (status, report, s)
     else do {
       lc \<leftarrow> lcol;
       (status, rcol, s) \<leftarrow> dc_find_elements (Some rhs) (Some name) s;
       if status = NOT_EXIST then do {
         (_, s) \<leftarrow> dx_context_name (Some lhs) s;
         (_, s) \<leftarrow> dc_collection_finished (Some lc) s;
         Some (OK, dx_diff_report_add report ''%s not found in rhs.'', s) }
       else if status \<noteq> OK then do {
         (_, s) \<leftarrow> dc_collection_finished (Some lc) s;
         Some (status, report, s) }
       else do {
         rc \<leftarrow> rcol;
         (status, l, r, lc, rc, report, s) \<leftarrow> pair_loop differ lhs (cc_numentries lc + 1) lc rc report s;
         (rc, report, s) \<leftarrow> (if status \<noteq> OK then Some (rc, report, s)
                             else rest_loop lhs (cc_numentries rc + 1) rc report s);
         s \<leftarrow> put_variable l s;
         s \<leftarrow> put_variable r s;
         (_, s) \<leftarrow> dc_collection_finished (Some lc) s;
         (_, s) \<leftarrow> dc_collection_finished (Some rc) s;
         Some (status, report, s) } } }"

section \<open>All elements\<close>

type_synonym name_map = "(string, nat) multimap"

primrec left_loop :: "differ \<Rightarrow> ptr \<Rightarrow> ptr \<Rightarrow> nat \<Rightarrow> disir_collection \<Rightarrow> name_map \<Rightarrow> report \<Rightarrow> store \<Rightarrow>
    (disir_collection \<times> name_map \<times> report \<times> store) option" where
  "left_loop differ lhs rhs 0 lc names report s = None"
| "left_loop differ lhs rhs (Suc n) lc names report s = do {
     (status, element, lc, s) \<leftarrow> dc_collection_next lc s;
     if status \<noteq> OK then Some (lc, names, report, s)
     else do {
       (status, r, s) \<leftarrow> dc_get_name element s;
       if status \<noteq> OK then Some (lc, names, report, s)
       else do {
         (_, s) \<leftarrow> dc_putcontext element s;
         (n', _) \<leftarrow> r;
         name \<leftarrow> n';
         if multimap_contains_key strcmp djb2 names name
         then left_loop differ lhs rhs n lc names report s
         else do {
           (_, names) \<leftarrow> multimap_push_value strcmp djb2 names name 1;
           (status, report, s) \<leftarrow> compare_in_name_with differ lhs rhs name report s;
           if status \<noteq> OK then Some (lc, names, report, s)
           else left_loop differ lhs rhs n lc names report s } } } }"

primrec right_loop :: "nat \<Rightarrow> disir_collection \<Rightarrow> name_map \<Rightarrow> report \<Rightarrow> store \<Rightarrow>
    (status \<times> ptr option \<times> disir_collection \<times> report \<times> store) option" where
  "right_loop 0 rc names report s = None"
| "right_loop (Suc n) rc names report s = do {
     (status, element, rc, s) \<leftarrow> dc_collection_next rc s;
     if status = EXHAUSTED then Some (OK, None, rc, report, s)
     else if status \<noteq> OK then Some (status, element, rc, report, s)
     else do {
       (status, r, s) \<leftarrow> dc_get_name element s;
       if status \<noteq> OK then Some (status, element, rc, report, s)
       else do {
         (_, s) \<leftarrow> dc_putcontext element s;
         (n', _) \<leftarrow> r;
         name \<leftarrow> n';
         if multimap_contains_key strcmp djb2 names name then right_loop n rc names report s
         else right_loop n rc names
                (dx_diff_report_add report ''rhs contains entry '%s' not present in lhs.'') s } } }"

text \<open>
  The status of the first loop is lost, and an element whose name it could not get is not given
  back. When the elements of the right side cannot be read, the collection of the left side is
  not either.
\<close>

definition compare_all_elements_with :: "differ \<Rightarrow> ptr \<Rightarrow> ptr \<Rightarrow> report \<Rightarrow> store \<Rightarrow> (status \<times> report \<times> store) option" where
  "compare_all_elements_with differ lhs rhs report s = do {
     (status, lcol, s) \<leftarrow> dc_get_elements (Some lhs) s;
     if status \<noteq> OK then Some (status, report, s)
     else do {
       lc \<leftarrow> lcol;
       (lc, names, report, s) \<leftarrow> left_loop differ lhs rhs (cc_numentries lc + 1) lc multimap_create report s;
       (status, rcol, s) \<leftarrow> dc_get_elements (Some rhs) s;
       if status \<noteq> OK then Some (status, report, s)
       else do {
         rc \<leftarrow> rcol;
         (status, element, rc, report, s) \<leftarrow> right_loop (cc_numentries rc + 1) rc names report s;
         (_, s) \<leftarrow> dc_collection_finished (Some lc) s;
         (_, s) \<leftarrow> dc_collection_finished (Some rc) s;
         s \<leftarrow> put_variable element s;
         Some (status, report, s) } } }"

section \<open>Two contexts\<close>

definition name_both :: "ptr \<Rightarrow> ptr \<Rightarrow> store \<Rightarrow> store option" where
  "name_both lhs rhs s = do { (_, s) \<leftarrow> dx_context_name (Some lhs) s; (_, s) \<leftarrow> dx_context_name (Some rhs) s; Some s }"

definition compare_keyvals :: "ptr \<Rightarrow> ptr \<Rightarrow> context_type \<Rightarrow> report \<Rightarrow> store \<Rightarrow> (status \<times> report \<times> store) option" where
  "compare_keyvals lhs rhs root_type report s = do {
     x \<leftarrow> get_keyval s lhs;
     y \<leftarrow> get_keyval s rhs;
     res \<leftarrow> dx_value_compare (kv_value x) (kv_value y);
     (report, s) \<leftarrow>
       (if res \<noteq> 0 then do {
          _ \<leftarrow> dx_value_stringify (kv_value x) 100;
          _ \<leftarrow> dx_value_stringify (kv_value y) 100;
          s \<leftarrow> name_both lhs rhs s;
          Some (dx_diff_report_add report ''%s differs in value from %s. ('%s' vs '%s')'', s) }
        else Some (report, s));
     if root_type \<noteq> CT_MOLD then Some (OK, report, s)
     else do {
       report \<leftarrow> compare_documentation_queues s (kv_documentation_queue x) (kv_documentation_queue y) report;
       report \<leftarrow> compare_default_queues s (kv_default_queue x) (kv_default_queue y) report;
       report \<leftarrow> compare_restriction_queue s (kv_restrictions_queue x) (kv_restrictions_queue y) report;
       Some (OK, report, s) } }"

definition diff_compare_with :: "differ \<Rightarrow> differ" where
  "diff_compare_with differ lhs rhs report s = do {
     lc \<leftarrow> ctxs s lhs;
     rc \<leftarrow> ctxs s rhs;
     lr \<leftarrow> cx_root lc;
     rr \<leftarrow> cx_root rc;
     lrc \<leftarrow> ctxs s lr;
     rrc \<leftarrow> ctxs s rr;
     if cx_type lrc \<noteq> cx_type rrc then do {
       s \<leftarrow> name_both lhs rhs s;
       Some (OK, dx_diff_report_add report ''%s root type is %s, %s root is of different type %s.'', s) }
     else if cx_type lc \<noteq> cx_type rc then do {
       s \<leftarrow> name_both lhs rhs s;
       Some (OK, dx_diff_report_add report ''%s is of type %s, %s is of different type %s.'', s) }
     else do {
       lt \<leftarrow> dc_value_type s (Some lhs);
       rt \<leftarrow> dc_value_type s (Some rhs);
       if lt \<noteq> rt then do {
         s \<leftarrow> name_both lhs rhs s;
         Some (OK, dx_diff_report_add report ''%s is of value type %s, %s is of different value type %s.'', s) }
       else do {
       root_type \<leftarrow> dc_context_type s (Some lr);
       case cx_type lc of
         CT_KEYVAL \<Rightarrow> compare_keyvals lhs rhs root_type report s
       | CT_MOLD \<Rightarrow> do {
           x \<leftarrow> get_mold s lhs;
           y \<leftarrow> get_mold s rhs;
           report \<leftarrow> compare_documentation_queues s (mo_documentation_queue x) (mo_documentation_queue y) report;
           compare_all_elements_with differ lhs rhs report s }
       | CT_CONFIG \<Rightarrow> compare_all_elements_with differ lhs rhs report s
       | CT_SECTION \<Rightarrow> do {
           x \<leftarrow> get_section s lhs;
           y \<leftarrow> get_section s rhs;
           report \<leftarrow>
             (if root_type = CT_MOLD then do {
                report \<leftarrow> compare_documentation_queues s (se_documentation_queue x) (se_documentation_queue y) report;
                compare_restriction_queue s (se_restrictions_queue x) (se_restrictions_queue y) report }
              else Some report);
           compare_all_elements_with differ lhs rhs report s }
       | _ \<Rightarrow> Some (NOT_SUPPORTED, report, s) } } }"

text \<open>The recursion follows the nesting of the contexts, which has fewer levels than contexts.\<close>

primrec diff_fuel :: "nat \<Rightarrow> differ" where
  "diff_fuel 0 = (\<lambda>_ _ _ _. None)"
| "diff_fuel (Suc n) = diff_compare_with (diff_fuel n)"

lemma diff_fuel_code [code]:
  "diff_fuel 0 l r report s = None"
  "diff_fuel (Suc n) l r report s = diff_compare_with (diff_fuel n) l r report s"
  by simp_all

definition diff_compare_contexts_with_report :: differ where
  "diff_compare_contexts_with_report lhs rhs report s = diff_fuel (next_ptr s + 1) lhs rhs report s"

text \<open>The report is handed out when the caller wants it and there is a difference.\<close>

definition dc_compare :: "ptr option \<Rightarrow> ptr option \<Rightarrow> bool \<Rightarrow> store \<Rightarrow> (status \<times> report option \<times> store) option" where
  "dc_compare lhs rhs has_report s =
     (case (lhs, rhs) of
        (Some l, Some r) \<Rightarrow> do {
          (status, report, s) \<leftarrow> diff_compare_contexts_with_report l r dx_diff_report_create s;
          let status = (if status = OK \<and> report \<noteq> [] then CONFLICT else status);
          Some (status, if report \<noteq> [] \<and> has_report then Some report else None, s) }
      | _ \<Rightarrow> Some (INVALID_ARGUMENT, None, s))"

section \<open>How the heap evolves\<close>

definition differing :: "differ \<Rightarrow> bool" where
  "differing differ \<longleftrightarrow>
     (\<forall>l r p s st p' s' s0. differ l r p s = Some (st, p', s') \<longrightarrow> evolves s0 s \<longrightarrow> evolves s0 s')"

lemma differingD:
  "differ l r p s = Some (st, p', s') \<Longrightarrow> differing differ \<Longrightarrow> evolves s0 s \<Longrightarrow> evolves s0 s'"
  by (auto simp: differing_def)

lemma evolves_context_name [evolving]:
  "dx_context_name p s = Some (n, s') \<Longrightarrow> evolves s0 s \<Longrightarrow> evolves s0 s'"
  unfolding dx_context_name_def
  by (elim do_elims Pair_inject; ((hypsubst | erule Pair_inject)+)?; (assumption | erule evolving)+)

lemma evolves_put_variable [evolving]:
  "put_variable v s = Some s' \<Longrightarrow> evolves s0 s \<Longrightarrow> evolves s0 s'"
  unfolding put_variable_def
  by (elim do_elims Pair_inject; ((hypsubst | erule Pair_inject)+)?; (assumption | erule evolving)+)

lemma evolves_name_both [evolving]:
  "name_both l r s = Some s' \<Longrightarrow> evolves s0 s \<Longrightarrow> evolves s0 s'"
  unfolding name_both_def
  by (elim do_elims Pair_inject; ((hypsubst | erule Pair_inject)+)?; (assumption | erule evolving)+)

lemma evolves_pair_loop [evolving]:
  "pair_loop differ lhs n lc rc report s = Some (st, l, r, lc', rc', p', s') \<Longrightarrow> differing differ \<Longrightarrow>
   evolves s0 s \<Longrightarrow> evolves s0 s'"
proof (induction n arbitrary: lc rc report s)
  case (Suc n)
  show ?case
    by (insert Suc.prems [unfolded pair_loop.simps], elim do_elims Pair_inject; ((hypsubst | erule Pair_inject)+)?;
      (assumption | erule evolving Suc.IH differingD)+)
qed simp

lemma evolves_rest_loop [evolving]:
  "rest_loop lhs n rc report s = Some (rc', p', s') \<Longrightarrow> evolves s0 s \<Longrightarrow> evolves s0 s'"
proof (induction n arbitrary: rc report s)
  case (Suc n)
  show ?case
    by (insert Suc.prems [unfolded rest_loop.simps], elim do_elims Pair_inject; ((hypsubst | erule Pair_inject)+)?;
      (assumption | erule evolving Suc.IH differingD)+)
qed simp

lemma evolves_compare_in_name_with [evolving]:
  "compare_in_name_with differ l r name report s = Some (st, p', s') \<Longrightarrow> differing differ \<Longrightarrow> evolves s0 s \<Longrightarrow> evolves s0 s'"
  unfolding compare_in_name_with_def
  by (elim do_elims Pair_inject; ((hypsubst | erule Pair_inject)+)?; (assumption | erule evolving)+)

lemma evolves_left_loop [evolving]:
  "left_loop differ l r n lc names report s = Some (lc', names', p', s') \<Longrightarrow> differing differ \<Longrightarrow>
   evolves s0 s \<Longrightarrow> evolves s0 s'"
proof (induction n arbitrary: lc names report s)
  case (Suc n)
  show ?case
    by (insert Suc.prems [unfolded left_loop.simps], elim do_elims Pair_inject; ((hypsubst | erule Pair_inject)+)?;
      (assumption | erule evolving Suc.IH differingD)+)
qed simp

lemma evolves_right_loop [evolving]:
  "right_loop n rc names report s = Some (st, e, rc', p', s') \<Longrightarrow> evolves s0 s \<Longrightarrow> evolves s0 s'"
proof (induction n arbitrary: rc report s)
  case (Suc n)
  show ?case
    by (insert Suc.prems [unfolded right_loop.simps], elim do_elims Pair_inject; ((hypsubst | erule Pair_inject)+)?;
      (assumption | erule evolving Suc.IH differingD)+)
qed simp

lemma evolves_compare_all_elements_with [evolving]:
  "compare_all_elements_with differ l r report s = Some (st, p', s') \<Longrightarrow> differing differ \<Longrightarrow> evolves s0 s \<Longrightarrow> evolves s0 s'"
  unfolding compare_all_elements_with_def
  by (elim do_elims Pair_inject; ((hypsubst | erule Pair_inject)+)?; (assumption | erule evolving)+)

lemma evolves_compare_keyvals [evolving]:
  "compare_keyvals l r t report s = Some (st, p', s') \<Longrightarrow> evolves s0 s \<Longrightarrow> evolves s0 s'"
  unfolding compare_keyvals_def
  by (elim do_elims Pair_inject; ((hypsubst | erule Pair_inject)+)?; (assumption | erule evolving)+)

lemma evolves_diff_compare_with [evolving]:
  "diff_compare_with differ l r report s = Some (st, p', s') \<Longrightarrow> differing differ \<Longrightarrow> evolves s0 s \<Longrightarrow> evolves s0 s'"
  unfolding diff_compare_with_def
  by (elim do_elims type_SomeE Pair_inject; ((hypsubst | erule Pair_inject)+)?; (assumption | erule evolving)+)

lemma differing_fuel: "differing (diff_fuel n)"
proof (induction n)
  case 0
  then show ?case by (simp add: differing_def)
next
  case (Suc n)
  then show ?case by (auto simp: differing_def [of "diff_compare_with (diff_fuel n)"] intro: evolves_diff_compare_with)
qed

lemma evolves_diff_compare [evolving]:
  "diff_compare_contexts_with_report l r report s = Some (st, p', s') \<Longrightarrow> evolves s0 s \<Longrightarrow> evolves s0 s'"
  unfolding diff_compare_contexts_with_report_def by (rule differingD [OF _ differing_fuel])

lemma evolves_compare [evolving]:
  "dc_compare l r b s = Some (st, p', s') \<Longrightarrow> evolves s0 s \<Longrightarrow> evolves s0 s'"
  unfolding dc_compare_def
  by (elim do_elims Pair_inject; ((hypsubst | erule Pair_inject)+)?; (assumption | erule evolving)+)

end
