(* ===== verification/Api.thy ===== *)
theory Api
  imports ConfigQuery Update Compare
begin

text \<open>
  The interface of the library as a state machine: a call is one of the public operations that
  take and return contexts (src/include/disir/context.h and the headers below context/), the
  state is the heap, and a run is a list of calls. An output pointer of a call is always
  wanted; a call that faults ends the run. \<^verbatim>\<open>strtod\<close> is a parameter. The operations
  of an update, which keep a state of their own beside the heap, are not among the calls.

  The lemmas show that whatever a client calls, and in whatever order, the heap stays well
  formed: no context in use is without a reference, and a context only ever advances in its
  life: what is finalized, fatal or destroyed stays so.
\<close>

section \<open>The calls\<close>

datatype (plugins del: lifting transfer quickcheck_random quickcheck_narrowing quickcheck_exhaustive
    quickcheck_bounded_forall quickcheck_full_exhaustive) api_call =
    MoldBegin | ConfigBegin "ptr option" | Begin "ptr option" context_type
  | Finalize "ptr option" | FinalizeKeepReference "ptr option"
  | ConfigFinalize "ptr option" | MoldFinalize "ptr option"
  | Destroy "ptr option" | PutContext "ptr option" | ConfigFinished "ptr option" | MoldFinished "ptr option"
  | ConfigGetContext "ptr option" | MoldGetContext "ptr option" | ConfigGetMold "ptr option"
  | SetName "ptr option" "string option" int | GetName "ptr option"
  | SetValueType "ptr option" value_type | GetValueType "ptr option"
  | SetValue "ptr option" "string option" int | SetValueString "ptr option" "string option" int
  | SetValueInteger "ptr option" "64 word" | SetValueFloat "ptr option" double
  | SetValueBoolean "ptr option" "8 word" | SetValueEnum "ptr option" "string option" int
  | AddIntroduced "ptr option" "version option" | AddDeprecated "ptr option" "version option"
  | SetVersion "ptr option" "version option" | FatalError "ptr option" "string option"
  | ContextValid "ptr option" | KeyvalSetDefault "ptr option" "version option"
  | SetRestrictionType "ptr option" restriction_type
  | RestrictionSetString "ptr option" "string option"
  | RestrictionSetRange "ptr option" double double | RestrictionSetNumeric "ptr option" double
  | AddDefault "ptr option" "string option" int "version option"
  | AddDocumentation "ptr option" "string option" int
  | AddKeyvalString "ptr option" "string option" "string option" "string option" "version option"
  | AddKeyvalEnum "ptr option" "string option" "string option" "string option" "version option"
  | AddKeyvalInteger "ptr option" "string option" "64 word" "string option" "version option"
  | AddKeyvalFloat "ptr option" "string option" double "string option" "version option"
  | AddKeyvalBoolean "ptr option" "string option" "8 word" "string option" "version option"
  | AddRange "ptr option" double double "string option" "version option"
  | AddNumeric "ptr option" double "string option" "version option"
  | AddEnum "ptr option" "string option" "string option" "version option"
  | AddEntriesMin "ptr option" "64 word" "version option"
  | AddEntriesMax "ptr option" "64 word" "version option"
  | FindElement "ptr option" "string option" nat | ResolveRootName "ptr option"
  | QueryResolve "ptr option" string | Compare "ptr option" "ptr option"
  | GenerateConfig "ptr option" "version option" | GenerateBelow "ptr option"
  | GetKeyval value_type "ptr option" "string option"
  | SetKeyval value_type "ptr option" "string option" "string option" "8 word" "64 word" double
  | ConfigGetKeyval value_type "ptr option" "string option"
  | ConfigSetKeyval value_type "ptr option" "string option" "string option" "8 word" "64 word" double

text \<open>The status of a call, the context it hands out, and the heap after it.\<close>

definition no_handle :: "(status \<times> store) option \<Rightarrow> (status \<times> ptr option \<times> store) option" where
  "no_handle r = map_option (\<lambda>(status, s). (status, None, s)) r"

definition drop_result :: "(status \<times> 'a \<times> store) option \<Rightarrow> (status \<times> ptr option \<times> store) option" where
  "drop_result r = map_option (\<lambda>(status, _, s). (status, None, s)) r"

definition take_first :: "(status \<times> ptr option \<times> 'a \<times> store) option \<Rightarrow> (status \<times> ptr option \<times> store) option" where
  "take_first r = map_option (\<lambda>(status, p, _, s). (status, p, s)) r"

definition handle_only :: "(ptr option \<times> store) option \<Rightarrow> (status \<times> ptr option \<times> store) option" where
  "handle_only r = map_option (\<lambda>(p, s). (OK, p, s)) r"

primrec exec_call :: "(string \<Rightarrow> double option) \<Rightarrow> api_call \<Rightarrow> store \<Rightarrow> (status \<times> ptr option \<times> store) option" where
  "exec_call strtod MoldBegin s = dc_mold_begin True s"
| "exec_call strtod (ConfigBegin m) s = dc_config_begin m True s"
| "exec_call strtod (Begin p t) s = dc_begin p t True s"
| "exec_call strtod (Finalize p) s = dc_finalize p s"
| "exec_call strtod (FinalizeKeepReference p) s = no_handle (dc_finalize_keep_reference p s)"
| "exec_call strtod (ConfigFinalize p) s = take_first (dc_config_finalize p True s)"
| "exec_call strtod (MoldFinalize p) s = take_first (dc_mold_finalize p True s)"
| "exec_call strtod (Destroy p) s = no_handle (dc_destroy p s)"
| "exec_call strtod (PutContext p) s = no_handle (dc_putcontext p s)"
| "exec_call strtod (ConfigFinished p) s = disir_config_finished p s"
| "exec_call strtod (MoldFinished p) s = no_handle (disir_mold_finished p s)"
| "exec_call strtod (ConfigGetContext p) s = handle_only (dc_config_getcontext p s)"
| "exec_call strtod (MoldGetContext p) s = handle_only (dc_mold_getcontext p s)"
| "exec_call strtod (ConfigGetMold p) s = disir_config_get_mold p True s"
| "exec_call strtod (SetName p n k) s = no_handle (dc_set_name p n k s)"
| "exec_call strtod (GetName p) s = drop_result (dc_get_name p s)"
| "exec_call strtod (SetValueType p t) s = no_handle (dc_set_value_type p t s)"
| "exec_call strtod (GetValueType p) s = drop_result (dc_get_value_type p s)"
| "exec_call strtod (SetValue p v k) s = no_handle (dc_set_value strtod p v k s)"
| "exec_call strtod (SetValueString p v k) s = no_handle (dc_set_value_string p v k s)"
| "exec_call strtod (SetValueInteger p i) s = no_handle (dc_set_value_integer p i s)"
| "exec_call strtod (SetValueFloat p d) s = no_handle (dc_set_value_float p d s)"
| "exec_call strtod (SetValueBoolean p b) s = no_handle (dc_set_value_boolean p b s)"
| "exec_call strtod (SetValueEnum p v k) s = no_handle (dc_set_value_enum p v k s)"
| "exec_call strtod (AddIntroduced p v) s = no_handle (dc_add_introduced p v s)"
| "exec_call strtod (AddDeprecated p v) s = no_handle (dc_add_deprecated p v s)"
| "exec_call strtod (SetVersion p v) s = no_handle (dc_set_version p v s)"
| "exec_call strtod (FatalError p m) s = no_handle (dc_fatal_error p m s)"
| "exec_call strtod (ContextValid p) s = no_handle (dc_context_valid p s)"
| "exec_call strtod (KeyvalSetDefault p v) s = no_handle (dc_keyval_set_default p v s)"
| "exec_call strtod (SetRestrictionType p t) s = no_handle (dc_set_restriction_type p t s)"
| "exec_call strtod (RestrictionSetString p v) s = no_handle (dc_restriction_set_string p v s)"
| "exec_call strtod (RestrictionSetRange p a b) s = no_handle (dc_restriction_set_range p a b s)"
| "exec_call strtod (RestrictionSetNumeric p a) s = no_handle (dc_restriction_set_numeric p a s)"
| "exec_call strtod (AddDefault p v k w) s = no_handle (dc_add_default strtod p v k w s)"
| "exec_call strtod (AddDocumentation p v k) s = no_handle (dc_add_documentation p v k s)"
| "exec_call strtod (AddKeyvalString p n d t v) s = dc_add_keyval_string p n d t v True s"
| "exec_call strtod (AddKeyvalEnum p n d t v) s = dc_add_keyval_enum p n d t v True s"
| "exec_call strtod (AddKeyvalInteger p n d t v) s = dc_add_keyval_integer p n d t v True s"
| "exec_call strtod (AddKeyvalFloat p n d t v) s = dc_add_keyval_float p n d t v True s"
| "exec_call strtod (AddKeyvalBoolean p n d t v) s = dc_add_keyval_boolean p n d t v True s"
| "exec_call strtod (AddRange p a b t v) s = dc_add_restriction_value_range p a b t v True s"
| "exec_call strtod (AddNumeric p a t v) s = dc_add_restriction_value_numeric p a t v True s"
| "exec_call strtod (AddEnum p x t v) s = dc_add_restriction_value_enum p x t v True s"
| "exec_call strtod (AddEntriesMin p i v) s = no_handle (dc_add_restriction_entries_min p i v s)"
| "exec_call strtod (AddEntriesMax p i v) s = no_handle (dc_add_restriction_entries_max p i v s)"
| "exec_call strtod (FindElement p n i) s = dc_find_element p n i s"
| "exec_call strtod (ResolveRootName p) s = drop_result (dc_resolve_root_name p s)"
| "exec_call strtod (QueryResolve p n) s = dc_query_resolve_context p n s"
| "exec_call strtod (Compare p q) s = drop_result (dc_compare p q True s)"
| "exec_call strtod (GenerateConfig m v) s = disir_generate_config_from_mold m v s"
| "exec_call strtod (GenerateBelow p) s = no_handle (dc_generate_from_config_root p s)"
| "exec_call strtod (GetKeyval t p q) s = drop_result (config_get_keyval_generic p t q True s)"
| "exec_call strtod (SetKeyval t p q x b i d) s = no_handle (config_set_keyval_generic p t q x b i d s)"
| "exec_call strtod (ConfigGetKeyval t p q) s = drop_result (config_get_keyval t p True q s)"
| "exec_call strtod (ConfigSetKeyval t p q x b i d) s = no_handle (config_set_keyval t p q x b i d s)"

fun run :: "(string \<Rightarrow> double option) \<Rightarrow> api_call list \<Rightarrow> store \<Rightarrow> ((status \<times> ptr option) list \<times> store) option" where
  "run strtod [] s = Some ([], s)"
| "run strtod (c # cs) s = do {
     (status, r, s) \<leftarrow> exec_call strtod c s;
     (rs, s) \<leftarrow> run strtod cs s;
     Some ((status, r) # rs, s) }"

inductive api_step :: "(string \<Rightarrow> double option) \<Rightarrow> store \<Rightarrow> store \<Rightarrow> bool" for strtod where
  call: "exec_call strtod c s = Some (status, r, s') \<Longrightarrow> api_step strtod s s'"

inductive reachable :: "(string \<Rightarrow> double option) \<Rightarrow> store \<Rightarrow> bool" for strtod where
  start: "reachable strtod empty_store"
| step: "reachable strtod s \<Longrightarrow> api_step strtod s s' \<Longrightarrow> reachable strtod s'"

inductive_cases api_stepE [elim]: "api_step strtod s s'"

section \<open>What every call keeps\<close>

lemma evolves_wrappers:
  "no_handle r = Some (st, h, s') \<Longrightarrow> (\<And>st s'. r = Some (st, s') \<Longrightarrow> evolves s0 s') \<Longrightarrow> evolves s0 s'"
  "drop_result ra = Some (st, h, s') \<Longrightarrow> (\<And>st x s'. ra = Some (st, x, s') \<Longrightarrow> evolves s0 s') \<Longrightarrow> evolves s0 s'"
  "take_first rb = Some (st, h, s') \<Longrightarrow> (\<And>st p x s'. rb = Some (st, p, x, s') \<Longrightarrow> evolves s0 s') \<Longrightarrow> evolves s0 s'"
  "handle_only rc = Some (st, h, s') \<Longrightarrow> (\<And>p s'. rc = Some (p, s') \<Longrightarrow> evolves s0 s') \<Longrightarrow> evolves s0 s'"
  by (auto simp: no_handle_def drop_result_def take_first_def handle_only_def)

lemma exec_call_evolves:
  "exec_call strtod c s = Some (st, r, s') \<Longrightarrow> evolves s s'"
  by (cases c; simp only: exec_call.simps; (rule evolves_wrappers, assumption)?; erule evolving; (rule evolves_refl)?)

lemma run_evolves: "run strtod cs s = Some (rs, s') \<Longrightarrow> evolves s s'"
proof (induction cs arbitrary: s rs)
  case (Cons c cs)
  then obtain st r s1 rs' where "exec_call strtod c s = Some (st, r, s1)" "run strtod cs s1 = Some (rs', s')"
    by (auto simp: bind_eq_Some_conv)
  with Cons.IH show ?case by (blast intro: evolves_trans exec_call_evolves)
qed simp

lemma run_append:
  "run strtod (cs @ ds) s =
     do { (rs, s) \<leftarrow> run strtod cs s; (rs', s) \<leftarrow> run strtod ds s; Some (rs @ rs', s) }"
  by (induction cs arbitrary: s) (simp_all add: Option.bind_assoc split_def)

text \<open>The reachable heaps are those a run from the empty heap ends in.\<close>

lemma reachable_run: "reachable strtod s \<Longrightarrow> \<exists>cs rs. run strtod cs empty_store = Some (rs, s)"
proof (induction rule: reachable.induct)
  case start
  have "run strtod [] empty_store = Some ([], empty_store)" by simp
  then show ?case by blast
next
  case (step s s')
  then obtain cs rs c st r where "run strtod cs empty_store = Some (rs, s)"
    "exec_call strtod c s = Some (st, r, s')" by blast
  then have "run strtod (cs @ [c]) empty_store = Some (rs @ [(st, r)], s')" by (simp add: run_append)
  then show ?case by blast
qed

lemma run_reachable: "run strtod cs s = Some (rs, s') \<Longrightarrow> reachable strtod s \<Longrightarrow> reachable strtod s'"
proof (induction cs arbitrary: s rs)
  case (Cons c cs)
  then obtain st r s1 rs' where c: "exec_call strtod c s = Some (st, r, s1)" and cs: "run strtod cs s1 = Some (rs', s')"
    by (auto simp: bind_eq_Some_conv)
  from Cons.prems(2) c have "reachable strtod s1" by (blast intro: reachable.step api_step.call)
  with cs show ?case by (rule Cons.IH)
qed simp

lemma reachable_store_ok: "reachable strtod s \<Longrightarrow> store_ok s"
  by (induction rule: reachable.induct)
     (auto simp: store_ok_empty evolves_def dest!: exec_call_evolves)

end
