(* ===== verification/Lifetime.thy ===== *)
theory Lifetime
  imports Api
begin

text \<open>
  The states of a context from its creation to its destruction, over any sequence of calls: what
  holds of every heap a client can reach, what finalizing and validating a context leave behind,
  and that beginning a context and destroying it again undoes itself.
\<close>

section \<open>What a run does to a context\<close>

text \<open>
  C23. The state of a context moves one way only, whatever calls a client makes: a context that
  is in use before a run and has not been freed by the end of it is of the same type, is still
  finalized, fatal or destroyed when it was before, and is under construction only if it was
  before. (An address names one allocation, so that the context at the address is the same one.)
\<close>

theorem run_advances:
  assumes "run strtod cs s = Some (rs, s')" and "reachable strtod s"
    and "ctxs s p = Some c" and "ctxs s' p = Some c'"
  shows "cx_type c' = cx_type c \<and> (finalized c \<longrightarrow> finalized c') \<and>
    (fatal c \<longrightarrow> fatal c') \<and> (destroyed c \<longrightarrow> destroyed c') \<and> (constructing c' \<longrightarrow> constructing c)"
proof -
  have "p < next_ptr s" using store_okD [OF reachable_store_ok [OF assms(2)] assms(3)] by simp
  from evolvesD [OF run_evolves [OF assms(1)] this assms(4)] assms(3) show ?thesis by (auto simp: advances_def)
qed

theorem run_advances_witness:
  "\<exists>rs s rs' s' c c'. run (\<lambda>_. None) [MoldBegin, FatalError (Some 0) (Some ''bad'')] empty_store = Some (rs, s) \<and>
     run (\<lambda>_. None) [Begin (Some 0) CT_SECTION, Destroy (Some 1)] s = Some (rs', s') \<and>
     ctxs s 0 = Some c \<and> ctxs s' 0 = Some c' \<and> fatal c \<and> fatal c'"
proof -
  have "(case run (\<lambda>_. None) [MoldBegin, FatalError (Some 0) (Some ''bad'')] empty_store of None \<Rightarrow> False
     | Some (rs, s) \<Rightarrow> (case run (\<lambda>_. None) [Begin (Some 0) CT_SECTION, Destroy (Some 1)] s of None \<Rightarrow> False
       | Some (rs', s') \<Rightarrow> (case ctxs s 0 of None \<Rightarrow> False | Some c \<Rightarrow> fatal c) \<and> ctxs s' 0 \<noteq> None))"
    by code_simp
  then obtain rs s rs' s' c c' where r: "run (\<lambda>_. None) [MoldBegin, FatalError (Some 0) (Some ''bad'')] empty_store = Some (rs, s)"
    "run (\<lambda>_. None) [Begin (Some 0) CT_SECTION, Destroy (Some 1)] s = Some (rs', s')"
    "ctxs s 0 = Some c" "fatal c" "ctxs s' 0 = Some c'"
    by (auto simp del: run.simps split: option.splits prod.splits)
  have "reachable (\<lambda>_. None) s" using run_reachable [OF r(1) reachable.start] .
  from run_advances [OF r(2) this r(3,5)] r show ?thesis by blast
qed

section \<open>Validating and finalizing\<close>

lemma validate_context_unfold:
  "dx_validate_context p s = dx_validate_context_with (dx_validate_context_fuel (next_ptr s)) p s"
  by (simp add: dx_validate_context_def)

text \<open>
  A validation that reports an error which makes the context itself invalid also marks the
  context invalid, and reports that error itself only when the context is no longer under
  construction or its parent is already finalized; under construction it becomes
  INVALID_CONTEXT. A fatal context never validates.
\<close>

theorem validation_marks_invalid:
  assumes v: "dx_validate_context p s = Some (st, s')" and c: "ctxs s p = Some c" and c': "ctxs s' p = Some c'"
  shows "(invalidating st \<longrightarrow> invalid c' \<and> (\<not> constructing c' \<or>
       (\<exists>q qc. cx_parent c' = Some q \<and> ctxs s' q = Some qc \<and> finalized qc))) \<and>
    (fatal c \<longrightarrow> invalid c' \<and> st \<noteq> OK)"
proof (cases "fatal c")
  case True
  with v c c' show ?thesis
    by (auto simp: validate_context_unfold dx_validate_context_with_def mark_invalid_def upd_Some invalidating_def
        split: if_splits)
next
  case False
  then obtain s1 st1 s2 c2 pf where s2: "validate_context_validity_with (dx_validate_context_fuel (next_ptr s)) p s1 = Some (st1, s2)"
    and c2: "ctxs s2 p = Some c2"
    and pf: "(case cx_parent c2 of None \<Rightarrow> Some False | Some q \<Rightarrow> do { qc \<leftarrow> ctxs s2 q; Some (finalized qc) }) = Some pf"
    and rest: "(if pf \<and> st1 \<noteq> OK then
         (if st1 = INVALID_CONTEXT then None else do { s \<leftarrow> mark_invalid p s2; Some (st1, s) })
       else if invalidating st1 then do {
         s \<leftarrow> mark_invalid p s2;
         Some (if constructing c2 then INVALID_CONTEXT else st1, s) }
       else if st1 = ELEMENTS_INVALID \<and> constructing c2 then Some (INVALID_CONTEXT, s2)
       else Some (st1, s2)) = Some (st, s')"
    using v c unfolding validate_context_unfold dx_validate_context_with_def
    by (simp add: bind_eq_Some_conv) blast
  show ?thesis
  proof (cases "pf \<and> st1 \<noteq> OK")
    case True
    then obtain q qc where "cx_parent c2 = Some q" "ctxs s2 q = Some qc" "finalized qc"
      using pf by (auto simp: bind_eq_Some_conv split: option.splits)
    with True rest False c2 c' show ?thesis
      by (cases "q = p") (auto simp: mark_invalid_def upd_Some intro!: exI [of _ q] split: if_splits)
  next
    case notpf: False
    with rest False c2 c' show ?thesis
      by (auto simp: mark_invalid_def upd_Some invalidating_def split: if_splits)
  qed
qed

theorem validation_marks_invalid_witness:
  "\<exists>c s st s' c'. ctxs s 0 = Some c \<and> fatal c \<and> dx_validate_context 0 s = Some (st, s') \<and> ctxs s' 0 = Some c' \<and>
     invalid c' \<and> st \<noteq> OK"
proof -
  define c where "c = \<lparr>cx_type = CT_KEYVAL, constructing = True, finalized = False, invalid = False, fatal = True,
      destroyed = False, in_parent = False, cx_obj = None, cx_parent = None, cx_root = None, cx_refcount = 1, cx_error = None\<rparr>"
  define s where "s = \<lparr>ctxs = [0 \<mapsto> c], next_ptr = 1\<rparr>"
  have c: "ctxs s 0 = Some c" "fatal c" by (simp_all add: s_def c_def)
  obtain st s' c' where v: "dx_validate_context 0 s = Some (st, s')" "ctxs s' 0 = Some c'"
    by (simp add: validate_context_unfold dx_validate_context_with_def s_def c_def mark_invalid_def upd_def)
  from validation_marks_invalid [OF v(1) c(1) v(2)] c v show ?thesis by blast
qed




section \<open>Beginning and destroying\<close>

text \<open>The heap after a child of type \<open>t\<close> was begun below \<open>q\<close>.\<close>

definition with_child :: "context_type \<Rightarrow> disir_object \<Rightarrow> ptr \<Rightarrow> disir_context \<Rightarrow> store \<Rightarrow> store" where
  "with_child t x q c s =
     s\<lparr>ctxs := (ctxs s)(q \<mapsto> c\<lparr>cx_refcount := cx_refcount c + 1\<rparr>, next_ptr s \<mapsto>
         \<lparr>cx_type = t, constructing = True, finalized = False, invalid = False, fatal = False, destroyed = False,
          in_parent = False, cx_obj = Some x, cx_parent = Some q, cx_root = cx_root c, cx_refcount = 1, cx_error = None\<rparr>),
       next_ptr := next_ptr s + 1\<rparr>"

lemma begin_child_eq:
  assumes "ctxs s q = Some c" and "q \<noteq> next_ptr s" and "object_type x = t" and "dx_context_type_sanify t = t" "t \<noteq> CT_UNKNOWN"
  shows "\<exists>s1. begin_child t x q s = Some (OK, Some (next_ptr s), s1) \<and> ctxs s1 q = Some (c\<lparr>cx_refcount := cx_refcount c + 1\<rparr>) \<and>
    upd (next_ptr s) (\<lambda>y. y\<lparr>cx_root := cx_root c\<rparr>) s1 = Some (with_child t x q c s)"
  using assms
  by (auto simp: begin_child_def dx_context_create_def set_obj_def dx_context_attach_def dx_context_incref_def with_child_def
      fun_upd_twist)

lemma begin_element:
  assumes "store_ok s" and "ctxs s q = Some c" and "\<not> destroyed c" and "cx_type c \<in> {CT_CONFIG, CT_MOLD, CT_SECTION}"
  shows "dc_begin (Some q) CT_KEYVAL True s =
      Some (OK, Some (next_ptr s), with_child CT_KEYVAL (OKeyval dx_keyval_create) q c s)"
    and "dc_begin (Some q) CT_SECTION True s =
      Some (OK, Some (next_ptr s), with_child CT_SECTION (OSection dx_section_create) q c s)"
proof -
  have q: "q \<noteq> next_ptr s" using store_okD [OF assms(1,2)] by simp
  have check: "dx_context_sp_full_check (Some q) s = Some (OK, s)"
    using assms by (auto simp: dx_context_sp_full_check_def dx_context_type_sanify_def)
  have type: "dx_context_type_check q [CT_CONFIG, CT_MOLD, CT_SECTION] s = Some OK"
    using assms by (auto simp: dx_context_type_check_def dx_context_type_sanify_def)
  show "dc_begin (Some q) CT_KEYVAL True s =
      Some (OK, Some (next_ptr s), with_child CT_KEYVAL (OKeyval dx_keyval_create) q c s)"
    using begin_child_eq [OF assms(2) q, of "OKeyval dx_keyval_create" CT_KEYVAL] check type
    by (auto simp: dc_begin_def dx_keyval_begin_def dx_context_type_sanify_def dx_context_type_is_toplevel_def)
  show "dc_begin (Some q) CT_SECTION True s =
      Some (OK, Some (next_ptr s), with_child CT_SECTION (OSection dx_section_create) q c s)"
    using begin_child_eq [OF assms(2) q, of "OSection dx_section_create" CT_SECTION] check type
    by (auto simp: dc_begin_def dx_section_begin_def dx_context_type_sanify_def dx_context_type_is_toplevel_def)
qed

lemma destroy_child:
  assumes s: "store_ok s" "ctxs s q = Some c"
    and o: "destroy_object_with (dc_destroy_fuel (next_ptr s + 2)) (next_ptr s) (with_child t x q c s) = Some (OK, s2)"
    and s2: "ctxs s2 = (ctxs (with_child t x q c s))(next_ptr s \<mapsto> y)" "next_ptr s2 = next_ptr s + 1"
    and y: "cx_parent y = Some q" "cx_refcount y = 1"
    and t: "dx_context_type_sanify t \<noteq> CT_UNKNOWN"
  shows "dc_destroy (Some (next_ptr s)) (with_child t x q c s) = Some (OK, s\<lparr>next_ptr := next_ptr s + 1\<rparr>)"
proof -
  have q: "q \<noteq> next_ptr s" "cx_refcount c \<noteq> 0" and free: "ctxs s (next_ptr s) = None"
    using store_okD [OF s] s(1) by (auto simp: store_ok_def intro: ccontr)
  have c: "(ctxs s)(next_ptr s := None, q \<mapsto> c) = ctxs s" using free s(2) by auto
  have "s2\<lparr>ctxs := (ctxs s)(q \<mapsto> c)\<rparr> = s\<lparr>next_ptr := next_ptr s + 1\<rparr>"
    using s2(2) s(2) by (auto intro!: store.equality)
  then show ?thesis using o s2 y q t free s(2) c
    apply (simp add: dc_destroy_def with_child_def)
    apply (simp add: dc_destroy_with_def dx_context_dp_full_check_def dx_context_sp_full_check_def context_remove_from_parent_def
        dx_context_decref_def dx_context_destroy_def fun_upd_twist)
    done
qed

lemma with_child_self [simp]:
  "ctxs (with_child t x q c s) (next_ptr s) = Some \<lparr>cx_type = t, constructing = True, finalized = False, invalid = False,
      fatal = False, destroyed = False, in_parent = False, cx_obj = Some x, cx_parent = Some q, cx_root = cx_root c,
      cx_refcount = 1, cx_error = None\<rparr>"
  "next_ptr (with_child t x q c s) = Suc (next_ptr s)"
  by (simp_all add: with_child_def)

lemma destroy_new_keyval:
  "\<exists>s2 y. destroy_object_with d (next_ptr s) (with_child CT_KEYVAL (OKeyval dx_keyval_create) q c s) = Some (OK, s2) \<and>
     ctxs s2 = (ctxs (with_child CT_KEYVAL (OKeyval dx_keyval_create) q c s))(next_ptr s \<mapsto> y) \<and>
     next_ptr s2 = next_ptr s + 1 \<and> cx_parent y = Some q \<and> cx_refcount y = 1"
  by (simp add: destroy_object_with_def dc_context_type_def dx_context_type_sanify_def keyval_destroy_with_def get_keyval_def
      dx_keyval_create_def value_zero_def pop_destroy_all_def get_queue_def free_obj_def upd_def)
    (intro exI conjI, rule refl, simp_all)

lemma destroy_new_section:
  "\<exists>s2 y. destroy_object_with d (next_ptr s) (with_child CT_SECTION (OSection dx_section_create) q c s) = Some (OK, s2) \<and>
     ctxs s2 = (ctxs (with_child CT_SECTION (OSection dx_section_create) q c s))(next_ptr s \<mapsto> y) \<and>
     next_ptr s2 = next_ptr s + 1 \<and> cx_parent y = Some q \<and> cx_refcount y = 1"
  using es.get_all [OF es_rel_create]
  by (simp add: destroy_object_with_def dc_context_type_def dx_context_type_sanify_def section_destroy_with_def get_section_def
      dx_section_create_def value_zero_def pop_destroy_all_def get_queue_def free_obj_def upd_def destroy_children_def
      get_elements_def dx_element_storage_get_all_def collect_def push_contexts.simps dc_collection_create_def
      dx_collection_next_noncoalesce_def dc_collection_finished_def decref_all.simps element_storage_destroy_with_def
      set_elements_def set_obj_def fun_upd_twist)
    (intro exI conjI, rule refl, simp_all)

text \<open>
  C13. Beginning an element and destroying it at once is the identity: a keyval or a section
  begun below any parent that is not destroyed and holds elements is a new context under
  construction, and destroying it succeeds, gives back the reference it took of its parent, and
  leaves every context as it was; only the address stays used up.
\<close>

theorem begin_destroy_element:
  assumes s: "store_ok s" "ctxs s q = Some c" and c: "\<not> destroyed c" "cx_type c \<in> {CT_CONFIG, CT_MOLD, CT_SECTION}"
    and t: "t \<in> {CT_KEYVAL, CT_SECTION}"
  shows "\<exists>s1 k. dc_begin (Some q) t True s = Some (OK, Some (next_ptr s), s1) \<and> ctxs s1 (next_ptr s) = Some k \<and>
    constructing k \<and> cx_parent k = Some q \<and>
    dc_destroy (Some (next_ptr s)) s1 = Some (OK, s\<lparr>next_ptr := next_ptr s + 1\<rparr>)"
  using t
proof
  assume "t = CT_KEYVAL"
  with begin_element(1) [OF s c] show ?thesis
    using destroy_new_keyval destroy_child [OF s, where t = CT_KEYVAL and x = "OKeyval dx_keyval_create"]
    by (force simp: dx_context_type_sanify_def)
next
  assume "t \<in> {CT_SECTION}"
  with begin_element(2) [OF s c] show ?thesis
    using destroy_new_section destroy_child [OF s, where t = CT_SECTION and x = "OSection dx_section_create"]
    by (force simp: dx_context_type_sanify_def)
qed

theorem begin_destroy_element_witness:
  "\<exists>s s1. dc_mold_begin True empty_store = Some (OK, Some 0, s) \<and> dc_begin (Some 0) CT_SECTION True s = Some (OK, Some 1, s1) \<and>
     dc_destroy (Some 1) s1 = Some (OK, s\<lparr>next_ptr := 2\<rparr>)"
proof -
  obtain s c where s: "dc_mold_begin True empty_store = Some (OK, Some 0, s)" "next_ptr s = 1" "ctxs s 0 = Some c"
    "\<not> destroyed c" "cx_type c \<in> {CT_CONFIG, CT_MOLD, CT_SECTION}"
    by (auto simp: dc_mold_begin_def dx_context_create_def empty_store_def dx_context_type_sanify_def set_obj_def)
  have "evolves empty_store s" using s(1) by (rule evolving) simp
  moreover have "store_ok empty_store" by (simp add: store_ok_def empty_store_def)
  ultimately have "store_ok s" by (simp add: evolves_def)
  from begin_destroy_element [OF this s(3,4,5), of CT_SECTION] s show ?thesis by (auto simp: numeral_2_eq_2)
qed

end
