(* ===== verification/Runs.thy ===== *)
theory Runs
  imports Lifetime "HOL-Library.Code_Target_Nat"
begin

text \<open>
  Whole runs of the API, from the empty heap: the complete life of a mold and a config, and the
  sequences of calls, each allowed by the documentation, on which the library faults. Every run
  is evaluated by the kernel.
\<close>

section \<open>Observing a run\<close>

text \<open>The statuses a run returns, and the addresses still in use after it.\<close>

definition in_use :: "store \<Rightarrow> ptr list" where
  "in_use s = filter (\<lambda>p. ctxs s p \<noteq> None) [0..<next_ptr s]"

definition observe :: "(string \<Rightarrow> double option) \<Rightarrow> api_call list \<Rightarrow> (status list \<times> ptr list) option" where
  "observe strtod cs = map_option (\<lambda>(rs, s). (map fst rs, in_use s)) (run strtod cs empty_store)"


text \<open>A mold with an integer keyval below it that has no name yet.\<close>

definition integer_keyval :: "api_call list" where
  "integer_keyval = [MoldBegin, Begin (Some 0) CT_KEYVAL, SetValueType (Some 1) VT_INTEGER]"

text \<open>A mold with one section, and a config of that mold with the section, begun, finalized and given back.\<close>

definition life_cycle :: "api_call list" where
  "life_cycle =
     [MoldBegin, Begin (Some 0) CT_SECTION, SetName (Some 1) (Some ''m'') 1, Finalize (Some 1), MoldFinalize (Some 0),
      ConfigBegin (Some 0), Begin (Some 2) CT_SECTION, SetName (Some 3) (Some ''m'') 1, Finalize (Some 3),
      ConfigFinalize (Some 2), ConfigFinished (Some 2), MoldFinished (Some 0)]"

section \<open>The runs\<close>

text \<open>
  The complete life of a mold and a config of it: building and finalizing both, with a
  section in each, and giving both back succeeds at every call, and at the end no context is
  left in use.
\<close>

theorem life_cycle_leaves_nothing:
  "observe strtod life_cycle = Some (replicate 12 OK, [])"
  by code_simp

text \<open>
  Destroying the parent of a documentation entry first, which the API allows, makes the
  later destruction of the entry fault: \<^verbatim>\<open>dx_documentation_destroy\<close> looks into the object of
  the parent, which is freed, without checking whether the parent was destroyed.
\<close>

theorem documentation_destroyed_late:
  "observe strtod [MoldBegin, Begin (Some 0) CT_DOCUMENTATION, Destroy (Some 0)] = Some ([OK, OK, OK], [0, 1]) \<and>
   observe strtod [MoldBegin, Begin (Some 0) CT_DOCUMENTATION, Destroy (Some 0), Destroy (Some 1)] = None"
  by code_simp

text \<open>
  The check of \<^verbatim>\<open>dx_default_destroy\<close> for a destroyed parent is inverted: a default whose
  keyval was destroyed before it faults when it is destroyed, and a default destroyed before its
  keyval stays in the queue of the keyval, so that the destruction of the keyval faults.
\<close>

theorem default_destroyed:
  "observe strtod (integer_keyval @ [Begin (Some 1) CT_DEFAULT, Destroy (Some 1), Destroy (Some 2)]) = None \<and>
   observe strtod (integer_keyval @ [Begin (Some 1) CT_DEFAULT, FinalizeKeepReference (Some 2), Destroy (Some 2)])
     = Some (replicate 6 OK, [0, 1, 2]) \<and>
   observe strtod (integer_keyval @ [Begin (Some 1) CT_DEFAULT, FinalizeKeepReference (Some 2), Destroy (Some 2),
     Destroy (Some 1)]) = None"
  by code_simp

text \<open>
  Adding a restriction to a context that can have none is answered by a status when it
  bounds the number of entries, but faults when it is an enumeration value:
  \<^verbatim>\<open>dc_add_restriction_value_enum\<close> destroys a context it never initialised.
\<close>

theorem add_enum_reads_uninitialised:
  "observe strtod [MoldBegin, AddEntriesMin (Some 0) 1 None] = Some ([OK, WRONG_CONTEXT], [0]) \<and>
   observe strtod [MoldBegin, AddEnum (Some 0) (Some ''on'') None None] = None"
  by code_simp

end
