(* ===== verification/Traversal.thy ===== *)
theory Traversal
  imports Lookup
begin

text \<open>
  What a client sees of the elements of a context: the loop every caller writes over a
  collection (next, use, give the reference back, until exhausted, then finish), on the
  operations of collection.c, element_storage.c and context.c, and what coalescing does to it.
\<close>

section \<open>The loop over a collection\<close>

text \<open>
  The contexts a loop of at most \<open>n\<close> rounds visits, each handed back at the end of its round.
\<close>

primrec visit :: "nat \<Rightarrow> disir_collection \<Rightarrow> store \<Rightarrow> (ptr list \<times> disir_collection \<times> store) option" where
  "visit 0 col s = Some ([], col, s)"
| "visit (Suc n) col s = do {
     (status, r, col, s) \<leftarrow> dc_collection_next col s;
     case r of None \<Rightarrow> Some ([], col, s)
     | Some p \<Rightarrow> do {
         (_, s) \<leftarrow> dc_putcontext (Some p) s;
         (ps, col, s) \<leftarrow> visit n col s;
         Some (p # ps, col, s) } }"

lemma sp_check_live:
  "ctxs s p = Some c \<Longrightarrow> \<not> destroyed c \<Longrightarrow>
   \<exists>st s1. dx_context_sp_full_check (Some p) s = Some (st, s1) \<and> (st = OK \<or> st = CONTEXT_IN_WRONG_STATE)"
  by (auto simp: dx_context_sp_full_check_def dx_context_error_set_def)

text \<open>A context that is live and typed, with a reference to spare.\<close>

definition spare :: "store \<Rightarrow> ptr \<Rightarrow> bool" where
  "spare s p \<longleftrightarrow> (\<exists>c. ctxs s p = Some c \<and> \<not> destroyed c \<and> 0 < cx_refcount c \<and>
     dx_context_type_sanify (cx_type c) \<noteq> CT_UNKNOWN)"

lemma spare_live: "spare s p \<Longrightarrow> live s p"
  by (auto simp: spare_def live_def)

lemma spare_context [simp]: "spare s p \<Longrightarrow> dx_context_sp_full_check (Some p) s = Some (OK, s)"
  by (auto simp: spare_def dx_context_sp_full_check_def)

lemma take_and_put:
  assumes "spare s p"
  shows "\<exists>s1. dx_context_incref p s = Some s1 \<and> dc_putcontext (Some p) s1 = Some (OK, s)"
proof -
  obtain c where c: "ctxs s p = Some c" "\<not> destroyed c" "0 < cx_refcount c"
    "dx_context_type_sanify (cx_type c) \<noteq> CT_UNKNOWN" using assms by (auto simp: spare_def)
  let ?s1 = "s\<lparr>ctxs := (ctxs s)(p \<mapsto> c\<lparr>cx_refcount := cx_refcount c + 1\<rparr>)\<rparr>"
  have "dx_context_incref p s = Some ?s1" using c by (simp add: dx_context_incref_def)
  moreover have "dc_putcontext (Some p) ?s1 = Some (OK, s)"
    using c by (simp add: dc_putcontext_def putcontext_with_def dx_context_dp_full_check_def
        dx_context_sp_full_check_def dx_context_decref_def fun_upd_idem)
  ultimately show ?thesis by blast
qed

lemma visit_spare:
  assumes "holds col ps" and "\<And>q. q \<in> set ps \<Longrightarrow> spare s q" and "length ps - cc_iterator_index col < n"
  shows "\<exists>i. visit n col s = Some (drop (cc_iterator_index col) ps, col\<lparr>cc_iterator_index := i\<rparr>, s)"
  using assms
proof (induction n arbitrary: col)
  case (Suc n)
  let ?i = "cc_iterator_index col"
  have live: "\<And>q. q \<in> set ps \<Longrightarrow> live s q" using Suc.prems(2) spare_live by blast
  show ?case
  proof (cases "?i < length ps")
    case True
    let ?col' = "col\<lparr>cc_iterator_index := ?i + 1\<rparr>"
    obtain s1 where n: "dc_collection_next col s = Some (OK, Some (ps ! ?i), ?col', s1)"
      and i: "dx_context_incref (ps ! ?i) s = Some s1"
      using next_live [OF Suc.prems(1), of s] live True by auto
    have p: "dc_putcontext (Some (ps ! ?i)) s1 = Some (OK, s)"
      using take_and_put [OF Suc.prems(2) [OF nth_mem [OF True]]] i by auto
    have "holds ?col' ps" using Suc.prems(1) by (simp add: holds_def)
    moreover have "length ps - cc_iterator_index ?col' < n" using Suc.prems(3) True by simp
    ultimately obtain i where
      "visit n ?col' s = Some (drop (?i + 1) ps, col\<lparr>cc_iterator_index := i\<rparr>, s)"
      using Suc.IH [OF _ Suc.prems(2), of ?col'] by auto
    with n p True show ?thesis by (auto simp: Cons_nth_drop_Suc)
  next
    case False
    then have "dc_collection_next col s = Some (EXHAUSTED, None, col, s)"
      using next_live [OF Suc.prems(1), of s] live by auto
    with False show ?thesis by (intro exI [of _ ?i]) simp
  qed
qed simp

section \<open>Properties\<close>

text \<open>
  C12. The loop over the elements of a config, mold or section: retrieving them, visiting each
  once and finishing the collection gives every element, in insertion order, and leaves the heap
  exactly as it was, every reference count included.
\<close>

theorem elements_visited_once:
  assumes s: "store_ok s" and p: "parent_ok s p xs" and "\<And>q. q \<in> snd ` set xs \<Longrightarrow> spare s q"
  shows "\<exists>col s1 col'. dc_get_elements (Some p) s = Some (OK, Some col, s1) \<and>
    visit (length xs + 1) col s1 = Some (map snd xs, col', s1) \<and>
    dc_collection_finished (Some col') s1 = Some (OK, s)"
proof -
  let ?s1 = "add_refs (refs_of (map snd xs)) s"
  obtain col where col: "dc_get_elements (Some p) s = Some (OK, Some col, ?s1)"
    "holds col (map snd xs)" "cc_iterator_index col = 0"
    using get_elements_spec [OF p] by blast
  have sp: "spare ?s1 q" if "q \<in> set (map snd xs)" for q
    using assms(3) [of q] that refs_of_nonneg [of "map snd xs" q] by (fastforce simp: spare_def)
  obtain i where "visit (length xs + 1) col ?s1 = Some (map snd xs, col\<lparr>cc_iterator_index := i\<rparr>, ?s1)"
    using visit_spare [OF col(2) sp, of "length xs + 1"] col(3) by auto
  moreover have "dc_collection_finished (Some (col\<lparr>cc_iterator_index := i\<rparr>)) ?s1 = Some (OK, s)"
    using finished_restores [OF s, of "col\<lparr>cc_iterator_index := i\<rparr>" "map snd xs"] col(2) assms(3) spare_live
    by (auto simp: holds_def)
  ultimately show ?thesis using col(1) by blast
qed


text \<open>A mold with one keyval, and a section that was destroyed while it was referred to.\<close>

definition sample_context :: "context_type \<Rightarrow> disir_object \<Rightarrow> disir_context" where
  "sample_context t x =
     \<lparr>cx_type = t, constructing = True, finalized = False, invalid = False, fatal = False, destroyed = False,
      in_parent = False, cx_obj = Some x, cx_parent = None, cx_root = Some 0, cx_refcount = 1, cx_error = None\<rparr>"

definition sample_keyval :: disir_keyval where
  "sample_keyval =
     \<lparr>kv_mold_equiv = None, kv_deprecated = Version 0 0, kv_default_queue = [], kv_documentation_queue = [],
      kv_name = value_zero, kv_value = value_zero, kv_restrictions_queue = []\<rparr>"

definition sample_store :: "element_storage \<Rightarrow> store" where
  "sample_store st =
     \<lparr>ctxs = [0 \<mapsto> sample_context CT_MOLD (OMold \<lparr>mo_reference_count = 1, mo_version = Version 1 0,
                      mo_elements = Some st, mo_documentation_queue = []\<rparr>),
              1 \<mapsto> sample_context CT_KEYVAL (OKeyval sample_keyval),
              2 \<mapsto> (sample_context CT_KEYVAL (OKeyval sample_keyval))
                    \<lparr>destroyed := True, cx_obj := None, cx_refcount := 3\<rparr>],
      next_ptr = 3\<rparr>"

lemma sample_store_ok: "store_ok (sample_store st)"
  by (auto simp: store_ok_def sample_store_def sample_context_def object_ok_def split: if_splits)

lemma sample_facts:
  "spare (sample_store st) 1" "dead (sample_store st) 2" "live (sample_store st) 1" "\<not> live (sample_store st) 2"
  "es_rel st xs \<Longrightarrow> snd ` set xs \<subseteq> {1} \<Longrightarrow> parent_ok (sample_store st) 0 xs"
  by (auto simp: spare_def dead_def live_def sample_store_def sample_context_def dx_context_type_sanify_def
      parent_ok_def elements_rel_def get_elements_def get_mold_def dc_context_type_def)

theorem elements_visited_once_witness:
  "\<exists>st col s1 col'. storage_add storage_create (Some ''key'') (Some 1) = Some (OK, st) \<and>
    dc_get_elements (Some 0) (sample_store st) = Some (OK, Some col, s1) \<and>
    visit 2 col s1 = Some ([1], col', s1) \<and>
    dc_collection_finished (Some col') s1 = Some (OK, sample_store st)"
proof -
  obtain st where st: "storage_add storage_create (Some ''key'') (Some 1) = Some (OK, st)" "es_rel st [(''key'', 1)]"
    using es_rel_add [OF es_rel_create, of 1 "''key''"] by auto
  then have p: "parent_ok (sample_store st) 0 [(''key'', 1)]" by (intro sample_facts) auto
  have n: "length [(''key'', 1 :: ptr)] + 1 = 2" "map snd [(''key'', 1 :: ptr)] = [1]" by simp_all
  have "spare (sample_store st) q" if "q \<in> snd ` set [(''key'', 1)]" for q using that sample_facts(1) by simp
  from elements_visited_once [OF sample_store_ok p this, unfolded n] st(1) show ?thesis by blast
qed

lemma decref_all_others: "decref_all (map Some ps) s = Some s' \<Longrightarrow> q \<notin> set ps \<Longrightarrow> ctxs s' q = ctxs s q"
proof (induction ps arbitrary: s)
  case (Cons p ps)
  then obtain b s1 where d: "dx_context_decref p s = Some (b, s1)" and r: "decref_all (map Some ps) s1 = Some s'"
    by (auto simp: bind_eq_Some_conv)
  have "ctxs s1 q = ctxs s q" using d Cons.prems(2)
    by (auto simp: dx_context_decref_def dx_context_destroy_def bind_eq_Some_conv upd_Some split: if_splits)
  with Cons.IH [OF r] Cons.prems(2) show ?case by simp
qed simp

text \<open>
  C27. Coalescing a collection whose entries are distinct keeps exactly the contexts that are
  not destroyed, in order, gives up one reference to each destroyed one, touches no other
  context, and never moves the iterator forward.
\<close>

theorem coalesce_keeps_live:
  assumes "holds col ps" and "distinct ps" and "\<And>p. p \<in> set ps \<Longrightarrow> live s p \<or> dead s p"
  shows "\<exists>col' s'. dx_collection_coalesce col s = Some (OK, col', s') \<and> holds col' (filter (live s) ps) \<and>
    decref_all (map Some (filter (dead s) ps)) s = Some s' \<and>
    (\<forall>q. \<not> dead s q \<longrightarrow> ctxs s' q = ctxs s q) \<and> cc_iterator_index col' \<le> cc_iterator_index col"
proof -
  obtain col' s' where *: "dx_collection_coalesce col s = Some (OK, col', s')" "holds col' (filter (live s) ps)"
    "decref_all (map Some (filter (dead s) ps)) s = Some s'" "cc_iterator_index col' \<le> cc_iterator_index col"
    using coalesce_spec [OF assms] by blast
  then have "ctxs s' q = ctxs s q" if "\<not> dead s q" for q using that by (intro decref_all_others [OF *(3)]) simp
  with * show ?thesis by blast
qed

theorem coalesce_keeps_live_witness:
  "\<exists>col' s'. dx_collection_coalesce
      \<lparr>cc_collection = [Some 2, Some 1], cc_capacity = 2, cc_numentries = 2, cc_iterator_index = 0\<rparr>
      (sample_store storage_create) = Some (OK, col', s') \<and> holds col' [1] \<and>
    ctxs s' 1 = ctxs (sample_store storage_create) 1"
proof -
  let ?s = "sample_store storage_create"
  have "holds \<lparr>cc_collection = [Some 2, Some 1], cc_capacity = 2, cc_numentries = 2, cc_iterator_index = 0\<rparr> [2, 1]"
    by (simp add: holds_def)
  from coalesce_keeps_live [OF this, of ?s] sample_facts(2-4) [of storage_create] live_not_dead [of ?s 1]
  show ?thesis by fastforce
qed

text \<open>
  C36. What the iteration hands out after contexts of the collection were destroyed: coalescing
  moves the iterator back only for the entries it moves across it, not for those that vanish
  before it. With the iterator at \<open>i\<close> and \<open>n\<close> live contexts left in the whole collection, the
  first \<open>i - n\<close> of the live contexts not yet visited are never handed out: the next one is the one
  behind them, and if there are no more the collection is exhausted.
\<close>

theorem next_after_destroyed:
  assumes col: "holds col ps" "distinct ps" and ps: "\<And>p. p \<in> set ps \<Longrightarrow> live s p \<or> dead s p"
    and it: "cc_iterator_index col \<le> length ps"
    and skipped: "skipped = cc_iterator_index col - length (filter (live s) ps)"
    and unvisited: "unvisited = filter (live s) (drop (cc_iterator_index col) ps)"
  shows "\<exists>st r col' s'. dc_collection_next col s = Some (st, r, col', s') \<and>
    (if skipped < length unvisited then st = OK \<and> r = Some (unvisited ! skipped) else st = EXHAUSTED \<and> r = None)"
proof -
  let ?i = "cc_iterator_index col" and ?lv = "filter (live s) ps"
  obtain col' s' where c: "dx_collection_coalesce col s = Some (OK, col', s')" "holds col' ?lv"
    "\<forall>q. \<not> dead s q \<longrightarrow> ctxs s' q = ctxs s q"
    using coalesce_keeps_live [OF col ps] by blast
  let ?v = "filter (live s) (take ?i ps)"
  have lv: "?lv = ?v @ unvisited" unfolding unvisited by (metis append_take_drop_id filter_append)
  have i': "cc_iterator_index col' = length ?v + skipped" using coalesce_iterator [OF col ps it c(1)] skipped by simp
  show ?thesis
  proof (cases "skipped < length unvisited")
    case True
    then have less: "cc_iterator_index col' < length ?lv" unfolding lv i' by simp
    have r: "?lv ! cc_iterator_index col' = unvisited ! skipped" unfolding lv i' by (simp add: nth_append)
    have "unvisited ! skipped \<in> set unvisited" using True by (rule nth_mem)
    then have "live s (unvisited ! skipped)" unfolding unvisited by simp
    then have "live s' (unvisited ! skipped)" using c(3) live_not_dead by (auto simp: live_def)
    then obtain s2 where "dx_context_incref (unvisited ! skipped) s' = Some s2"
      by (auto simp: live_def dx_context_incref_def)
    then show ?thesis using True less holds_nth [OF c(2) less] c(1,2) r
      by (simp add: dc_collection_next_def holds_def)
  next
    case False
    then have "length ?lv \<le> cc_iterator_index col'" unfolding lv i' by simp
    then show ?thesis using False c(1,2) by (simp add: dc_collection_next_def holds_def)
  qed
qed

text \<open>
  Two visited contexts that were destroyed and one that is left to visit: the iteration ends
  without it.
\<close>

theorem next_after_destroyed_witness:
  "\<exists>s col' s'. live s 1 \<and> dc_collection_next
     \<lparr>cc_collection = [Some 3, Some 2, Some 1], cc_capacity = 3, cc_numentries = 3, cc_iterator_index = 2\<rparr> s =
     Some (EXHAUSTED, None, col', s')"
proof -
  let ?s = "(sample_store storage_create)\<lparr>ctxs := (ctxs (sample_store storage_create))
      (3 \<mapsto> the (ctxs (sample_store storage_create) 2))\<rparr>"
  let ?col = "\<lparr>cc_collection = [Some 3, Some 2, Some 1], cc_capacity = 3, cc_numentries = 3, cc_iterator_index = 2\<rparr>"
  have h: "holds ?col [3, 2, 1]" "distinct [3, 2, 1 :: ptr]" "cc_iterator_index ?col \<le> length [3, 2, 1 :: ptr]"
    by (simp_all add: holds_def)
  have l: "live ?s 1" "dead ?s 2" "dead ?s 3" "\<not> live ?s 2" "\<not> live ?s 3"
    by (simp_all add: live_def dead_def sample_store_def sample_context_def)
  have ld: "live ?s p \<or> dead ?s p" if "p \<in> set [3, 2, 1]" for p using that l by auto
  from next_after_destroyed [OF h(1,2) ld h(3) refl refl] l show ?thesis by (intro exI [of _ ?s]) simp
qed


section \<open>Searching by name\<close>

lemma find_elements_named:
  assumes "parent_ok s p xs" and "entries_of n xs \<noteq> []" and "\<And>q. q \<in> snd ` set xs \<Longrightarrow> spare s q"
  shows "\<exists>col s1. dc_find_elements (Some p) (Some n) s = Some (OK, Some col, s1) \<and> holds col (entries_of n xs) \<and>
    cc_iterator_index col = 0 \<and> s1 = add_refs (refs_of (entries_of n xs)) s \<and> (\<forall>q \<in> set (entries_of n xs). spare s1 q)"
proof -
  have "spare (add_refs (refs_of (entries_of n xs)) s) q" if "q \<in> set (entries_of n xs)" for q
    using assms(3) [OF snd_entries_of [OF that]] refs_of_nonneg [of "entries_of n xs" q] by (fastforce simp: spare_def)
  with find_elements_spec [OF assms(1), of n] assms(2) show ?thesis by auto
qed

lemma coalesce_spare:
  "holds col ps \<Longrightarrow> (\<And>q. q \<in> set ps \<Longrightarrow> spare s q) \<Longrightarrow> dc_collection_size (Some col) s = Some (length ps, Some col, s)"
  using coalesce_live [of col ps s] spare_live by (auto simp: dc_collection_size_def holds_def)

lemma skip_to_spec:
  assumes "holds col ps" and "\<And>q. q \<in> set ps \<Longrightarrow> spare s q" and "cc_iterator_index col + k < length ps"
  shows "\<exists>col' s1. skip_to k col s = Some (OK, Some (ps ! (cc_iterator_index col + k)), col', s1) \<and> holds col' ps \<and>
    dx_context_incref (ps ! (cc_iterator_index col + k)) s = Some s1"
  using assms
proof (induction k arbitrary: col)
  case 0
  have "\<And>q. q \<in> set ps \<Longrightarrow> live s q" using 0(2) spare_live by blast
  with 0 next_live [OF 0(1), of s] show ?case by (auto simp: holds_def)
next
  case (Suc k)
  let ?i = "cc_iterator_index col"
  let ?col' = "col\<lparr>cc_iterator_index := ?i + 1\<rparr>"
  have i: "?i < length ps" using Suc.prems(3) by simp
  have live: "\<And>q. q \<in> set ps \<Longrightarrow> live s q" using Suc.prems(2) spare_live by blast
  obtain s1 where n: "dc_collection_next col s = Some (OK, Some (ps ! ?i), ?col', s1)"
    and inc: "dx_context_incref (ps ! ?i) s = Some s1"
    using next_live [OF Suc.prems(1) live] i by auto
  have p: "dc_putcontext (Some (ps ! ?i)) s1 = Some (OK, s)"
    using take_and_put [OF Suc.prems(2) [OF nth_mem [OF i]]] inc by auto
  have "holds ?col' ps" using Suc.prems(1) by (simp add: holds_def)
  moreover have "cc_iterator_index ?col' + k < length ps" using Suc.prems(3) by simp
  ultimately show ?case using Suc.IH [OF _ Suc.prems(2), of ?col'] n p by auto
qed

lemma find_element_spec:
  assumes s: "store_ok s" and p: "parent_ok s p xs" and sp: "\<And>q. q \<in> snd ` set xs \<Longrightarrow> spare s q"
    and len: "length (entries_of n xs) < 2 ^ 32"
  shows "if i < length (entries_of n xs)
    then \<exists>s'. dc_find_element (Some p) (Some n) i s = Some (OK, Some (entries_of n xs ! i), s') \<and>
           dx_context_incref (entries_of n xs ! i) s = Some s'
    else dc_find_element (Some p) (Some n) i s = Some (NOT_EXIST, None, s)"
proof (cases "entries_of n xs = []")
  case True
  with find_elements_spec [OF p, of n] show ?thesis by (simp add: dc_find_element_def)
next
  case False
  let ?es = "entries_of n xs"
  let ?s1 = "add_refs (refs_of ?es) s"
  obtain col where col: "dc_find_elements (Some p) (Some n) s = Some (OK, Some col, ?s1)"
    "holds col ?es" "cc_iterator_index col = 0" "\<And>q. q \<in> set ?es \<Longrightarrow> spare ?s1 q"
    using find_elements_named [OF p False sp] by blast
  have lv: "live s q" if "q \<in> set ?es" for q using sp [OF snd_entries_of [OF that]] spare_live by blast
  have wrap: "(length ?es + 2 ^ 32 - 1) mod 2 ^ 32 = length ?es - 1"
  proof -
    have "length ?es + 2 ^ 32 - 1 = (length ?es - 1) + 2 ^ 32" using False by (cases ?es) simp_all
    then have "(length ?es + 2 ^ 32 - 1) mod 2 ^ 32 = ((length ?es - 1) + 2 ^ 32) mod 2 ^ 32" by (rule arg_cong)
    also have "\<dots> = (length ?es - 1) mod 2 ^ 32" by (rule mod_add_self2)
    also have "\<dots> = length ?es - 1" using len by (intro mod_less) linarith
    finally show ?thesis .
  qed
  have size: "dc_collection_size (Some col) ?s1 = Some (length ?es, Some col, ?s1)"
    by (rule coalesce_spare [OF col(2,4)])
  show ?thesis
  proof (cases "i < length ?es")
    case True
    obtain col' s2 where sk: "skip_to i col ?s1 = Some (OK, Some (?es ! i), col', s2)" "holds col' ?es"
      "dx_context_incref (?es ! i) ?s1 = Some s2"
      using skip_to_spec [OF col(2,4), of i] True col(3) by auto
    obtain c where c: "ctxs s (?es ! i) = Some c" using lv [OF nth_mem [OF True]] by (auto simp: live_def)
    let ?s' = "add_refs (\<lambda>q. if q = ?es ! i then 1 else 0) s"
    have inc: "dx_context_incref (?es ! i) s = Some ?s'" using c by (rule incref_add_refs)
    have "s2 = add_refs (refs_of ?es) ?s'"
      using sk(3) incref_add_refs [of ?s1 "?es ! i"] c by (simp add: add.commute)
    moreover have "store_ok ?s'" using store_ok_incref [OF s inc] .
    moreover have "live ?s' q" if "q \<in> set ?es" for q using lv [OF that] by simp
    ultimately have "dc_collection_finished (Some col') s2 = Some (OK, ?s')"
      using finished_restores [OF _ sk(2)] by blast
    moreover have "\<not> length ?es - 1 < i" using True by linarith
    ultimately show ?thesis using True False col(1) size wrap sk(1) inc by (simp add: dc_find_element_def)
  next
    case False
    have "dc_collection_finished (Some col) ?s1 = Some (OK, s)" by (rule finished_restores [OF s col(2) lv])
    with False \<open>?es \<noteq> []\<close> col(1) size wrap show ?thesis by (cases ?es) (simp_all add: dc_find_element_def)
  qed
qed

text \<open>
  C22. Finding an element by name and index gives the context inserted at that place among the
  elements of the name, with one more reference and nothing else changed, and NOT_EXIST for an
  index beyond them or a name that is not there. (The code compares the index with the size
  less one, unsigned; a name that is there has at least one element.)
\<close>

theorem find_element_at_index:
  assumes s: "store_ok s" and p: "parent_ok s p xs" and sp: "\<And>q. q \<in> snd ` set xs \<Longrightarrow> spare s q"
    and len: "length (entries_of n xs) < 2 ^ 32"
  shows "if i < length (entries_of n xs)
    then \<exists>s'. dc_find_element (Some p) (Some n) i s = Some (OK, Some (entries_of n xs ! i), s') \<and>
           dx_context_incref (entries_of n xs ! i) s = Some s'
    else dc_find_element (Some p) (Some n) i s = Some (NOT_EXIST, None, s)"
  by (rule find_element_spec [OF assms])

theorem find_element_at_index_witness:
  "\<exists>st s'. storage_add storage_create (Some ''key'') (Some 1) = Some (OK, st) \<and>
     dc_find_element (Some 0) (Some ''key'') 0 (sample_store st) = Some (OK, Some 1, s') \<and>
     dc_find_element (Some 0) (Some ''key'') 1 (sample_store st) = Some (NOT_EXIST, None, sample_store st)"
proof -
  obtain st where st: "storage_add storage_create (Some ''key'') (Some 1) = Some (OK, st)" "es_rel st [(''key'', 1)]"
    using es_rel_add [OF es_rel_create, of 1 "''key''"] by auto
  have p: "parent_ok (sample_store st) 0 [(''key'', 1)]" using st(2) by (intro sample_facts) auto
  have sp: "spare (sample_store st) q" if "q \<in> snd ` set [(''key'', 1)]" for q using that sample_facts(1) by simp
  have "entries_of ''key'' [(''key'', 1 :: ptr)] = [1]" by simp
  with find_element_at_index [OF sample_store_ok p sp, of "''key''" 0]
    find_element_at_index [OF sample_store_ok p sp, of "''key''" 1] st(1)
  show ?thesis by auto
qed

text \<open>
  The search of \<^verbatim>\<open>dc_resolve_root_name\<close> among the elements of the name: it returns only
  when the context is one of them.
\<close>

lemma index_in_found:
  assumes "index_in p i col s = Some r" and "holds col ps" and "\<And>q. q \<in> set ps \<Longrightarrow> spare s q"
  shows "p \<in> set ps"
proof -
  let ?P = "\<lambda>p i col s r. holds col ps \<longrightarrow> (\<forall>q \<in> set ps. spare s q) \<longrightarrow> p \<in> set ps"
  have "?P p i col s r"
  proof (rule index_in.raw_induct [where P = ?P, OF _ assms(1)], goal_cases)
    case (1 f p i col s r)
    show ?case
    proof (intro impI)
      assume h: "holds col ps" and sp: "\<forall>q \<in> set ps. spare s q"
      then have live: "\<And>q. q \<in> set ps \<Longrightarrow> live s q" using spare_live by blast
      show "p \<in> set ps"
      proof (cases "cc_iterator_index col < length ps")
        case True
        let ?q = "ps ! cc_iterator_index col" and ?col' = "col\<lparr>cc_iterator_index := cc_iterator_index col + 1\<rparr>"
        obtain s1 where n: "dc_collection_next col s = Some (OK, Some ?q, ?col', s1)" "dx_context_incref ?q s = Some s1"
          using next_live [OF h live] True by auto
        then have put: "dc_putcontext (Some ?q) s1 = Some (OK, s)"
          using take_and_put [of s ?q] sp nth_mem [OF True] by auto
        have "holds ?col' ps" using h by (simp add: holds_def)
        with 1 n(1) put sp True show ?thesis by (cases "?q = p") auto
      next
        case False
        then have n: "dc_collection_next col s = Some (EXHAUSTED, None, col, s)" using next_live [OF h live] by auto
        have "dc_putcontext None s = Some (INVALID_ARGUMENT, s)"
          by (simp add: dc_putcontext_def putcontext_with_def dx_context_dp_full_check_def dx_context_sp_full_check_def)
        with 1 n h sp show ?thesis by auto
      qed
    qed
  qed
  with assms(2,3) show ?thesis by blast
qed

text \<open>
  The loop of the search, cut after \<open>n\<close> rounds: its result when it has left by then, else the
  state the next round starts in. \<open>index_in\<close> is what the rounds lead to.
\<close>

primrec search_rounds :: "nat \<Rightarrow> ptr \<Rightarrow> int \<Rightarrow> disir_collection \<Rightarrow> store \<Rightarrow>
    (status \<times> int \<times> disir_collection \<times> store + int \<times> disir_collection \<times> store) option" where
  "search_rounds 0 p i col s = Some (Inr (i, col, s))"
| "search_rounds (Suc n) p i col s = do {
     (status, r, col, s) \<leftarrow> dc_collection_next col s;
     if status \<noteq> OK \<and> status \<noteq> EXHAUSTED then Some (Inl (status, -1, col, s))
     else do {
       (_, s) \<leftarrow> dc_putcontext r s;
       if r = Some p then Some (Inl (OK, i + 1, col, s))
       else search_rounds n p (i + 1) col s } }"

lemma index_in_rounds:
  "index_in p i col s = do {
     x \<leftarrow> search_rounds n p i col s;
     case x of Inl found \<Rightarrow> Some found | Inr (i, col, s) \<Rightarrow> index_in p i col s }"
proof (induction n arbitrary: i col s)
  case (Suc n)
  show ?case
  proof (cases "dc_collection_next col s")
    case None
    then show ?thesis by (subst index_in.simps) simp
  next
    case (Some x)
    then obtain st r col' s' where n: "dc_collection_next col s = Some (st, r, col', s')" by (cases x) auto
    then show ?thesis
      by (subst index_in.simps, cases "dc_putcontext r s'") (auto simp: Suc.IH [symmetric])
  qed
qed simp

lemma search_goes_on:
  assumes "holds col ps" and "\<And>q. q \<in> set ps \<Longrightarrow> spare s q" and "x \<notin> set ps"
  shows "\<exists>col'. search_rounds n x i col s = Some (Inr (i + int n, col', s)) \<and> holds col' ps"
  using assms(1)
proof (induction n arbitrary: i col)
  case (Suc n)
  have live: "\<And>q. q \<in> set ps \<Longrightarrow> live s q" using assms(2) spare_live by blast
  show ?case
  proof (cases "cc_iterator_index col < length ps")
    case True
    let ?q = "ps ! cc_iterator_index col" and ?col' = "col\<lparr>cc_iterator_index := cc_iterator_index col + 1\<rparr>"
    obtain s1 where n: "dc_collection_next col s = Some (OK, Some ?q, ?col', s1)" "dx_context_incref ?q s = Some s1"
      using next_live [OF Suc.prems live] True by auto
    then have put: "dc_putcontext (Some ?q) s1 = Some (OK, s)"
      using take_and_put [of s ?q] assms(2) nth_mem [OF True] by auto
    have "?q \<noteq> x" using assms(3) nth_mem [OF True] by metis
    moreover have "holds ?col' ps" using Suc.prems by (simp add: holds_def)
    ultimately show ?thesis using n(1) put Suc.IH [of ?col' "i + 1"] by (auto simp: algebra_simps)
  next
    case False
    then have n: "dc_collection_next col s = Some (EXHAUSTED, None, col, s)" using next_live [OF Suc.prems live] by auto
    have "dc_putcontext None s = Some (INVALID_ARGUMENT, s)"
      by (simp add: dc_putcontext_def putcontext_with_def dx_context_dp_full_check_def dx_context_sp_full_check_def)
    with n Suc.IH [OF Suc.prems, of "i + 1"] show ?thesis by (auto simp: algebra_simps)
  qed
qed simp

text \<open>
  C37. The full name of a context that is not (or not yet) among the elements of its parent,
  while the parent has other elements of its name, is never found: \<^verbatim>\<open>dc_resolve_root_name\<close> does
  not return. It does not fault either: after any number of rounds of the search, the heap is what
  it was before and the next round begins. (Only the counter of the loop grows, an \<^verbatim>\<open>int\<close> the
  code lets overflow.)
\<close>

theorem resolve_root_name_diverges:
  assumes x: "ctxs s x = Some c" "cx_type c = CT_KEYVAL" "\<not> destroyed c" "cx_parent c = Some p"
    and name: "dc_get_name (Some x) s = Some (OK, Some (Some n, k), s)"
    and p: "parent_ok s p xs" "\<And>q. q \<in> snd ` set xs \<Longrightarrow> spare s q"
    and others: "entries_of n xs \<noteq> []" "x \<notin> set (entries_of n xs)"
  shows "dc_resolve_root_name (Some x) s = None \<and>
    (\<exists>col s1. dc_find_elements (Some p) (Some n) s = Some (OK, Some col, s1) \<and>
      (\<forall>rounds. \<exists>col'. search_rounds rounds x (-1) col s1 = Some (Inr (int rounds - 1, col', s1))))"
proof -
  obtain col s1 where col: "dc_find_elements (Some p) (Some n) s = Some (OK, Some col, s1)"
    "holds col (entries_of n xs)" "\<And>q. q \<in> set (entries_of n xs) \<Longrightarrow> spare s1 q"
    using find_elements_named [OF p(1) others(1) p(2)] by blast
  have "index_in x (-1) col s1 = None"
    using index_in_found [OF _ col(2), of x "-1" s1] col(3) others(2) by (cases "index_in x (-1) col s1") auto
  with x name col(1) have "climb x [] s = None" by (subst climb.simps) simp
  with x have "dc_resolve_root_name (Some x) s = None"
    by (simp add: dc_resolve_root_name_def dx_context_sp_full_check_def dx_context_type_sanify_def
        dx_context_type_check_def)
  moreover have "\<exists>col'. search_rounds rounds x (-1) col s1 = Some (Inr (int rounds - 1, col', s1))" for rounds
    using search_goes_on [OF col(2,3) others(2), of rounds "-1"] by auto
  ultimately show ?thesis using col(1) by blast
qed

theorem resolve_root_name_diverges_witness:
  "\<exists>st s. storage_add storage_create (Some ''key'') (Some 1) = Some (OK, st) \<and> ctxs s 1 = ctxs (sample_store st) 1 \<and>
     dc_resolve_root_name (Some 3) s = None"
proof -
  obtain st where st: "storage_add storage_create (Some ''key'') (Some 1) = Some (OK, st)" "es_rel st [(''key'', 1)]"
    using es_rel_add [OF es_rel_create, of 1 "''key''"] by auto
  let ?v = "\<lparr>dv_type = VT_STRING, dv_data = PStr 4 ''key'', dv_size = 3\<rparr>"
  let ?c = "(sample_context CT_KEYVAL (OKeyval (sample_keyval\<lparr>kv_name := ?v\<rparr>)))\<lparr>cx_parent := Some 0\<rparr>"
  let ?s = "(sample_store st)\<lparr>ctxs := (ctxs (sample_store st))(3 \<mapsto> ?c), next_ptr := 4\<rparr>"
  have p: "parent_ok ?s 0 [(''key'', 1)]" "spare ?s 1"
    using st(2) by (auto simp: parent_ok_def elements_rel_def live_def sample_store_def sample_context_def
        get_elements_def get_mold_def dc_context_type_def dx_context_type_sanify_def spare_def)
  have x: "ctxs ?s 3 = Some ?c" "cx_type ?c = CT_KEYVAL" "\<not> destroyed ?c" "cx_parent ?c = Some 0"
    "dc_get_name (Some 3) ?s = Some (OK, Some (Some ''key'', 3), ?s)"
    by (simp_all add: sample_context_def dc_get_name_def dx_context_sp_full_check_def dx_context_type_sanify_def
        dx_context_type_check_def get_name_value_def dc_context_type_def get_keyval_def name_cstr_def cstr_def nul_def)
  have "spare ?s q" if "q \<in> snd ` set [(''key'', 1)]" for q using that p(2) by simp
  from resolve_root_name_diverges [OF x p(1) this] st(1) show ?thesis by (intro exI [of _ st] exI [of _ ?s]) simp
qed

end
