(* ===== verification/Resolution.thy ===== *)
theory Resolution
  imports Query Traversal "HOL-Library.Sublist"
begin

text \<open>
  What a query by name resolves to: the parser reads back the names it documents, never writes
  more than the query is long, and following a path of keys and indexes through the sections
  ends at the element the path leads to, with a reference to that element only.
\<close>

section \<open>Names\<close>

type_synonym path = "(string \<times> nat option) list"

text \<open>A key with its index; without one the index is 0.\<close>

fun show_key :: "string \<times> nat option \<Rightarrow> string" where
  "show_key (k, None) = k"
| "show_key (k, Some i) = k @ ''@'' @ show_nat i"

fun show_path :: "path \<Rightarrow> string" where
  "show_path [] = []"
| "show_path [x] = show_key x"
| "show_path (x # xs) = show_key x @ ''.'' @ show_path xs"

definition position :: "nat option \<Rightarrow> nat" where
  "position i = (case i of None \<Rightarrow> 0 | Some i \<Rightarrow> i)"

definition plain_key :: "string \<times> nat option \<Rightarrow> bool" where
  "plain_key x \<longleftrightarrow> fst x \<noteq> [] \<and> CHR ''.'' \<notin> set (fst x) \<and> CHR ''@'' \<notin> set (fst x) \<and> position (snd x) < 2 ^ 31"

lemma split_at_absent: "c \<notin> set s \<Longrightarrow> split_at c s = (s, None)"
proof -
  assume c: "c \<notin> set s"
  then have "takeWhile (\<lambda>x. x \<noteq> c) s = s" "dropWhile (\<lambda>x. x \<noteq> c) s = []"
    by (auto simp: takeWhile_eq_all_conv dropWhile_eq_Nil_conv)
  then show ?thesis by (simp only: split_at_def list.case)
qed

lemma split_at_first: "c \<notin> set s \<Longrightarrow> split_at c (s @ c # r) = (s, Some r)"
  by (induction s) (auto simp: split_at_def)

lemma split_at_join: "split_at c s = (a, b) \<Longrightarrow> s = a @ (case b of None \<Rightarrow> [] | Some r \<Rightarrow> c # r)"
proof -
  assume s: "split_at c s = (a, b)"
  have "s = takeWhile (\<lambda>x. x \<noteq> c) s @ dropWhile (\<lambda>x. x \<noteq> c) s" by simp
  moreover have "dropWhile (\<lambda>x. x \<noteq> c) s = (case b of None \<Rightarrow> [] | Some r \<Rightarrow> c # r)"
    using s by (auto simp: split_at_def dropWhile_eq_Cons_conv split: list.splits)
  ultimately show ?thesis using s by (simp add: split_at_def)
qed

lemma show_nat_separators [simp]: "CHR ''.'' \<notin> set (show_nat n)" "CHR ''@'' \<notin> set (show_nat n)"
  using show_nat_digits [of "CHR ''.''" n] show_nat_digits [of "CHR ''@''" n] by (auto simp: is_digit_def)

lemma to_int32_small: "n < 2 ^ 31 \<Longrightarrow> to_int32 (int n) = int n"
  unfolding to_int32_def by (intro signed_take_bit_int_eq_self [THEN trans [OF sint_sbintrunc']]) simp_all

lemma resolve_shown_name:
  assumes "plain_key x"
  shows "\<exists>resolved'. dx_query_resolve_name (Some p) (show_path (x # xs)) resolved s =
    Some (OK, fst x, resolved', if xs = [] then None else Some (show_path xs), int (position (snd x)), s)"
proof -
  obtain k i where x: "x = (k, i)" by force
  have key: "k \<noteq> []" "CHR ''.'' \<notin> set k" "CHR ''@'' \<notin> set k" "position i < 2 ^ 31"
    using assms by (auto simp: plain_key_def x)
  have shown: "CHR ''.'' \<notin> set (show_key x)" "show_key x \<noteq> []" using key by (cases i; auto simp: x)+
  have above: "split_at CHR ''.'' (show_path (x # xs)) = (show_key x, if xs = [] then None else Some (show_path xs))"
    using split_at_absent [OF shown(1)] split_at_first [OF shown(1)] by (cases xs) auto
  show ?thesis
  proof (cases i)
    case None
    then show ?thesis using above shown(2) key split_at_absent [OF key(3)]
      by (simp add: dx_query_resolve_name_def x position_def Let_def)
  next
    case (Some j)
    have "strtol10 (show_nat j) = Some (int j, [])"
      using strtol10_show_nat [of "[]" j] key(4) by (simp add: Some position_def LONG_MAX_def)
    with Some show ?thesis using above shown(2) key split_at_first [OF key(3), of "show_nat j"]
      by (simp add: dx_query_resolve_name_def x position_def Let_def to_int32_small)
  qed
qed

section \<open>The whole name\<close>

text \<open>The parser run over a whole name, as the resolution runs it.\<close>

function parse_name :: "ptr option \<Rightarrow> string \<Rightarrow> string \<Rightarrow> store \<Rightarrow>
    (status \<times> (string \<times> int) list \<times> string \<times> store) option" where
  "parse_name parent name resolved s = do {
     (status, key, resolved, next, index, s) \<leftarrow> dx_query_resolve_name parent name resolved s;
     if status \<noteq> OK then Some (status, [], resolved, s)
     else case next of None \<Rightarrow> Some (OK, [(key, index)], resolved, s)
     | Some next \<Rightarrow> do {
         (status, path, resolved, s) \<leftarrow> parse_name parent next resolved s;
         Some (status, (key, index) # path, resolved, s) } }"
  by pat_completeness auto
termination
  by (relation "measure (\<lambda>(parent, name, resolved, s). length name)") (auto dest: resolve_name_next)

declare parse_name.simps [simp del]

text \<open>What one step writes behind what was resolved before.\<close>

definition joint :: "string \<Rightarrow> string" where
  "joint resolved = (if resolved = [] then [] else ''.'')"

lemma resolve_name_writes:
  assumes "dx_query_resolve_name (Some p) name resolved s = Some (st, key, resolved', next, i, s')"
  shows "if st = OK then s' = s \<and> resolved' @ (case next of None \<Rightarrow> [] | Some n \<Rightarrow> ''.'' @ n) = resolved @ joint resolved @ name \<and>
      (next \<noteq> None \<longrightarrow> resolved' \<noteq> [])
    else \<exists>rest. resolved' @ rest = resolved @ joint resolved @ name"
  using assms
  by (auto simp: dx_query_resolve_name_def bind_eq_Some_conv Let_def joint_def dest!: split_at_join
      split: option.splits prod.splits if_splits)

lemma parse_name_writes:
  "parse_name (Some p) name resolved s = Some (st, path, resolved', s') \<Longrightarrow>
   \<exists>rest. resolved' @ rest = resolved @ joint resolved @ name \<and> (st = OK \<longrightarrow> rest = [] \<and> s' = s \<and> path \<noteq> [])"
proof (induction "Some p" name resolved s arbitrary: path st rule: parse_name.induct)
  case (1 name resolved s)
  obtain st1 key resolved1 nxt i s1 where r:
    "dx_query_resolve_name (Some p) name resolved s = Some (st1, key, resolved1, nxt, i, s1)"
    using "1.prems" by (auto simp: parse_name.simps [of _ name] bind_eq_Some_conv)
  note w = resolve_name_writes [OF r]
  show ?case
  proof (cases "st1 = OK")
    case False
    with "1.prems" r w show ?thesis by (auto simp: parse_name.simps [of _ name])
  next
    case ok: True
    show ?thesis
    proof (cases nxt)
      case None
      with "1.prems" r w ok show ?thesis by (auto simp: parse_name.simps [of _ name])
    next
      case (Some n)
      with "1.prems" r ok obtain path1 where t: "parse_name (Some p) n resolved1 s1 = Some (st, path1, resolved', s')"
        and path: "path = (key, i) # path1"
        by (auto simp: parse_name.simps [of _ name] bind_eq_Some_conv)
      from "1.hyps" [OF r refl refl refl refl refl _ Some t] ok obtain rest where
        "resolved' @ rest = resolved1 @ joint resolved1 @ n" "st = OK \<longrightarrow> rest = [] \<and> s' = s1 \<and> path1 \<noteq> []" by auto
      with w ok Some path show ?thesis by (auto simp: joint_def)
    qed
  qed
qed

text \<open>
  C28. The buffer a query is resolved in never holds anything but the beginning of the query, so
  it has the room the code counts on; after a successful parse it holds the query itself, as
  documented, and parsing has changed nothing.
\<close>

theorem resolved_is_prefix:
  assumes "parse_name (Some p) name [] s = Some (st, path, resolved, s')"
  shows "prefix resolved name \<and> (st = OK \<longrightarrow> resolved = name \<and> s' = s \<and> path \<noteq> [])"
  using parse_name_writes [OF assms] by (auto simp: joint_def prefix_def)

theorem resolved_is_prefix_witness:
  "\<exists>path. parse_name (Some 0) ''a@2.b'' [] empty_store = Some (OK, path, ''a@2.b'', empty_store) \<and>
     prefix ''a@2.b'' ''a@2.b'' \<and> path \<noteq> []"
proof -
  let ?path = "[(''a'', Some 2), (''b'', None)] :: path"
  have "show_path ?path = ''a@2.b''" by code_simp
  then obtain r1 where
    r1: "dx_query_resolve_name (Some 0) ''a@2.b'' [] empty_store = Some (OK, ''a'', r1, Some ''b'', 2, empty_store)"
    using resolve_shown_name [of "(''a'', Some 2)" 0 "[(''b'', None)]" "[]" empty_store]
    by (auto simp: plain_key_def position_def)
  obtain r2 where "dx_query_resolve_name (Some 0) ''b'' r1 empty_store = Some (OK, ''b'', r2, None, 0, empty_store)"
    using resolve_shown_name [of "(''b'', None)" 0 "[]" r1 empty_store] by (auto simp: plain_key_def position_def)
  with r1 have t: "parse_name (Some 0) ''a@2.b'' [] empty_store = Some (OK, [(''a'', 2), (''b'', 0)], r2, empty_store)"
    by (simp add: parse_name.simps)
  from resolved_is_prefix [OF t] t show ?thesis by auto
qed

section \<open>Following a path\<close>

text \<open>
  \<open>leads_to s p path r\<close>: from the context \<open>p\<close>, the keys and indexes of the path lead through
  live sections, none of which has an error message pending, to the element \<open>r\<close>.
\<close>

definition elements_spare :: "store \<Rightarrow> ptr \<Rightarrow> (string \<times> ptr) list \<Rightarrow> bool" where
  "elements_spare s p xs \<longleftrightarrow> parent_ok s p xs \<and> (\<forall>q \<in> snd ` set xs. spare s q) \<and> length xs < 2 ^ 32"

inductive leads_to :: "store \<Rightarrow> ptr \<Rightarrow> path \<Rightarrow> ptr \<Rightarrow> bool" for s where
  last: "elements_spare s p xs \<Longrightarrow> position i < length (entries_of k xs) \<Longrightarrow> plain_key (k, i) \<Longrightarrow>
    leads_to s p [(k, i)] (entries_of k xs ! position i)"
| down: "elements_spare s p xs \<Longrightarrow> position i < length (entries_of k xs) \<Longrightarrow> plain_key (k, i) \<Longrightarrow>
    q = entries_of k xs ! position i \<Longrightarrow> ctxs s q = Some c \<Longrightarrow> cx_error c = None \<Longrightarrow> leads_to s q path r \<Longrightarrow> path \<noteq> [] \<Longrightarrow>
    leads_to s p ((k, i) # path) r"

lemma get_elements_add_refs [simp]: "get_elements (add_refs d s) p = get_elements s p"
  by (cases "ctxs s p") (simp_all add: get_elements_def)

lemma spare_add_refs: "(\<And>q. 0 \<le> d q) \<Longrightarrow> spare s p \<Longrightarrow> spare (add_refs d s) p"
  by (fastforce simp: spare_def intro: add_pos_nonneg)

lemma store_ok_add_refs: "(\<And>q. 0 \<le> d q) \<Longrightarrow> store_ok s \<Longrightarrow> store_ok (add_refs d s)"
  by (fastforce simp: store_ok_def object_ok_def intro: add_pos_nonneg)

lemma elements_spare_add_refs: "(\<And>q. 0 \<le> d q) \<Longrightarrow> elements_spare s p xs \<Longrightarrow> elements_spare (add_refs d s) p xs"
  by (auto simp: elements_spare_def parent_ok_def elements_rel_def intro: spare_add_refs)

lemma length_entries_of: "length (entries_of k xs) \<le> length xs"
  by (simp add: entries_of_def)

text \<open>One more reference to a context.\<close>

definition one_ref :: "ptr \<Rightarrow> ptr \<Rightarrow> int" where
  "one_ref p = (\<lambda>q. if q = p then 1 else 0)"

lemma unsigned_position: "n < 2 ^ 31 \<Longrightarrow> unsigned_index (int n) = n"
  by (simp add: unsigned_index_def)

lemma element_spare: "elements_spare s p xs \<Longrightarrow> n < length (entries_of k xs) \<Longrightarrow> spare s (entries_of k xs ! n)"
  using snd_entries_of [OF nth_mem] by (fastforce simp: elements_spare_def)

lemma leads_from_parent: "leads_to s p path r \<Longrightarrow> \<exists>xs. parent_ok s p xs"
  by (erule leads_to.cases) (auto simp: elements_spare_def)

lemma leads_to_spare: "leads_to s p path r \<Longrightarrow> spare s r"
  by (induction rule: leads_to.induct) (auto intro: element_spare)

lemma find_on_path:
  assumes s: "store_ok s" and d: "\<And>q. 0 \<le> d q" and p: "elements_spare s p xs"
    and i: "position i < length (entries_of k xs)" "plain_key (k, i)"
  shows "dc_find_element (Some p) (Some k) (unsigned_index (int (position i))) (add_refs d s) =
    Some (OK, Some (entries_of k xs ! position i), add_refs (\<lambda>q. d q + one_ref (entries_of k xs ! position i) q) s)"
proof -
  let ?s = "add_refs d s" and ?q = "entries_of k xs ! position i"
  have es: "elements_spare ?s p xs" using elements_spare_add_refs [where d = d, OF d p] .
  then have sp: "\<And>q. q \<in> snd ` set xs \<Longrightarrow> spare ?s q" and pk: "parent_ok ?s p xs" and len: "length (entries_of k xs) < 2 ^ 32"
    using length_entries_of [of k xs] by (auto simp: elements_spare_def)
  obtain s' where f: "dc_find_element (Some p) (Some k) (position i) ?s = Some (OK, Some ?q, s')" "dx_context_incref ?q ?s = Some s'"
    using find_element_spec [OF store_ok_add_refs [where d = d, OF d s] pk sp len, of "position i"] i(1) by auto
  have "live s ?q" using spare_live [OF sp [OF snd_entries_of [OF nth_mem [OF i(1)]]]] by simp
  then have "s' = add_refs (\<lambda>q. d q + one_ref ?q q) s"
    using f(2) live_incref_add [of ?s ?q] by (simp add: one_ref_def add.commute)
  with f(1) i(2) show ?thesis by (simp add: unsigned_position plain_key_def)
qed

lemma put_back:
  assumes "store_ok s" and d: "\<And>q. 0 \<le> d q" and q: "spare s q"
  shows "dc_putcontext (Some q) (add_refs (\<lambda>x. d x + one_ref q x) s) = Some (OK, add_refs d s)"
proof -
  obtain s1 where s1: "dx_context_incref q (add_refs d s) = Some s1" "dc_putcontext (Some q) s1 = Some (OK, add_refs d s)"
    using take_and_put [OF spare_add_refs [where d = d, OF d q]] by blast
  have "live (add_refs d s) q" using spare_live [OF q] by simp
  then have "s1 = add_refs (\<lambda>x. d x + one_ref q x) s"
    using s1(1) live_incref_add [of "add_refs d s" q] by (simp add: one_ref_def add.commute)
  with s1(2) show ?thesis by simp
qed

lemma one_ref_nonneg: "0 \<le> one_ref p q"
  by (simp add: one_ref_def)

text \<open>The collections over a heap in which references are out.\<close>

lemma refs_of_append: "refs_of (xs @ ys) = (\<lambda>q. refs_of xs q + refs_of ys q)"
  by (simp add: refs_of_def fun_eq_iff)

lemma add_refs_cong: "(\<And>q. d q = e q) \<Longrightarrow> add_refs d s = add_refs e s"
  by (metis ext)

lemma collect_elements:
  assumes "elements_spare s p xs"
  shows "\<exists>storage coll. get_elements (add_refs d s) p = Some storage \<and>
    dx_element_storage_get_all storage (add_refs d s) =
      Some (OK, Some coll, add_refs (\<lambda>x. d x + refs_of (map snd xs) x) s) \<and>
    holds coll (map snd xs) \<and> cc_iterator_index coll = 0 \<and> (\<forall>q \<in> set (map snd xs). live s q)"
proof -
  obtain st where st: "get_elements s p = Some (Some st)" "es_rel st xs"
    using assms by (auto simp: elements_spare_def parent_ok_def elements_rel_def)
  have live: "live s q" if "q \<in> set (map snd xs)" for q
    using assms that by (auto simp: elements_spare_def intro: spare_live)
  then have "live (add_refs d s) q" if "q \<in> set (map snd xs)" for q using that by simp
  from collect_live [of "map snd xs", OF this] st live show ?thesis
    by (auto simp: dx_element_storage_get_all_def es.get_all [OF st(2)] add.commute)
qed

lemma next_add_refs:
  assumes "holds coll ps" and live: "\<And>q. q \<in> set ps \<Longrightarrow> live s q"
  shows "dc_collection_next coll (add_refs d s) =
    (if cc_iterator_index coll < length ps
     then Some (OK, Some (ps ! cc_iterator_index coll), coll\<lparr>cc_iterator_index := cc_iterator_index coll + 1\<rparr>,
            add_refs (\<lambda>x. d x + one_ref (ps ! cc_iterator_index coll) x) s)
     else Some (EXHAUSTED, None, coll, add_refs d s))"
proof -
  have l: "live (add_refs d s) q" if "q \<in> set ps" for q using live [OF that] by simp
  show ?thesis using next_live [OF assms(1) l] live_incref_add [OF l [OF nth_mem]]
    by (auto simp: one_ref_def add.commute)
qed

lemma finished_add_refs:
  assumes "store_ok s" and "\<And>x. 0 \<le> d x" and "holds coll ps" and "\<And>q. q \<in> set ps \<Longrightarrow> live s q"
  shows "dc_collection_finished (Some coll) (add_refs (\<lambda>x. d x + refs_of ps x) s) = Some (OK, add_refs d s)"
  using finished_restores [OF store_ok_add_refs [where d = d, OF assms(2,1)] assms(3)] assms(4) by simp

lemma follow_path:
  assumes s: "store_ok s"
  shows "leads_to s p path r \<Longrightarrow> (\<And>q. 0 \<le> d q) \<Longrightarrow>
    \<exists>resolved'. query_resolve_name_to_context (Some p) (show_path path) resolved (add_refs d s) =
      Some (OK, Some r, resolved', add_refs (\<lambda>q. d q + one_ref r q) s)"
proof (induction arbitrary: d resolved rule: leads_to.induct)
  case (last p xs i k)
  obtain resolved' where "dx_query_resolve_name (Some p) (show_path [(k, i)]) resolved (add_refs d s) =
      Some (OK, k, resolved', None, int (position i), add_refs d s)"
    using resolve_shown_name [OF last(3), of p "[]" resolved "add_refs d s"] by auto
  then show ?case using find_on_path [where d = d, OF s last(4,1,2,3)]
    by (subst query_resolve_name_to_context.simps) simp
next
  case (down p xs i k q c path r)
  let ?d = "\<lambda>x. d x + one_ref q x"
  obtain resolved' where name: "dx_query_resolve_name (Some p) (show_path ((k, i) # path)) resolved (add_refs d s) =
      Some (OK, k, resolved', Some (show_path path), int (position i), add_refs d s)"
    using resolve_shown_name [OF down(3), of p path resolved "add_refs d s"] down(8) by auto
  have find: "dc_find_element (Some p) (Some k) (unsigned_index (int (position i))) (add_refs d s) =
      Some (OK, Some q, add_refs ?d s)"
    using find_on_path [where d = d, OF s down(10,1,2,3)] down(4) by simp
  have d': "0 \<le> ?d x" for x using down(10) [of x] one_ref_nonneg [of q x] by linarith
  obtain resolved'' where rest: "query_resolve_name_to_context (Some q) (show_path path) resolved' (add_refs ?d s) =
      Some (OK, Some r, resolved'', add_refs (\<lambda>x. ?d x + one_ref r x) s)"
    using down(9) [where d = ?d and resolved = resolved', OF d'] by blast
  have "spare s q" using element_spare [OF down(1,2)] down(4) by simp
  then have put: "dc_putcontext (Some q) (add_refs (\<lambda>x. (d x + one_ref r x) + one_ref q x) s) =
      Some (OK, add_refs (\<lambda>x. d x + one_ref r x) s)"
    using down(10) one_ref_nonneg by (intro put_back [where d = "\<lambda>x. d x + one_ref r x", OF s]) (auto intro: add_nonneg_nonneg)
  have "(\<lambda>x. ?d x + one_ref r x) = (\<lambda>x. (d x + one_ref r x) + one_ref q x)" by (auto simp: add_ac)
  then show ?case using name find rest put down(5,6)
    by (subst query_resolve_name_to_context.simps) (simp add: dx_context_transfer_logwarn_def)
qed

text \<open>
  C11. A query that names a path of keys and indexes resolves to the element the path leads to,
  through any depth of sections: the element has one more reference and nothing else of the heap
  has changed, the references taken on the way included.
\<close>

theorem query_follows_path:
  assumes s: "store_ok s" and path: "leads_to s p path r" and len: "length (show_path path) < 2048"
  shows "\<exists>s'. dc_query_resolve_context (Some p) (show_path path) s = Some (OK, Some r, s') \<and>
    dx_context_incref r s = Some s'"
proof -
  have live: "live s r" using leads_to_spare [OF path] by (rule spare_live)
  obtain resolved' where "query_resolve_name_to_context (Some p) (show_path path) [] s =
      Some (OK, Some r, resolved', add_refs (one_ref r) s)"
    using follow_path [OF s path, of "\<lambda>_. 0" "[]"] by auto
  moreover obtain xs where pk: "parent_ok s p xs" using leads_from_parent [OF path] by blast
  moreover have "dx_context_type_check p [CT_MOLD, CT_CONFIG, CT_SECTION] s = Some OK"
    using pk by (auto simp: parent_ok_def dx_context_type_check_def dx_context_type_sanify_def)
  ultimately show ?thesis using len parent_ok_checks(1) [OF pk] live_incref_add [OF live]
    by (simp add: dc_query_resolve_context_def dc_query_resolve_context_va_def BUFFER_SIZE_def one_ref_def)
qed

theorem query_follows_path_witness:
  "\<exists>st s'. storage_add storage_create (Some ''key'') (Some 1) = Some (OK, st) \<and>
     dc_query_resolve_context (Some 0) ''key@0'' (sample_store st) = Some (OK, Some 1, s') \<and>
     dx_context_incref 1 (sample_store st) = Some s'"
proof -
  obtain st where st: "storage_add storage_create (Some ''key'') (Some 1) = Some (OK, st)" "es_rel st [(''key'', 1)]"
    using es_rel_add [OF es_rel_create, of 1 "''key''"] by auto
  have "elements_spare (sample_store st) 0 [(''key'', 1)]"
    using sample_facts(1) sample_facts(5) [OF st(2)] by (auto simp: elements_spare_def)
  then have "leads_to (sample_store st) 0 [(''key'', Some 0)] 1"
    using leads_to.last [of "sample_store st" 0 "[(''key'', 1)]" "Some 0" "''key''"]
    by (simp add: position_def plain_key_def)
  moreover have "show_path [(''key'', Some 0)] = ''key@0''" by code_simp
  ultimately show ?thesis using query_follows_path [OF sample_store_ok, of st 0 "[(''key'', Some 0)]" 1] st(1) by auto
qed

text \<open>
  What the parser lets through against its documentation: an index beyond the range of
  \<^verbatim>\<open>int\<close> is cut to 32 bits, so that \<^verbatim>\<open>key@4294967296\<close> is the first entry, and a separator
  at the end of a name is accepted, with an empty key behind it.
\<close>

theorem query_parser_accepts:
  "parse_name (Some p) ''key@4294967296'' [] s = Some (OK, [(''key'', 0)], ''key@4294967296'', s) \<and>
   parse_name (Some p) ''key.'' [] s = Some (OK, [(''key'', 0), ([], 0)], ''key.'', s)"
  by (simp add: parse_name.simps dx_query_resolve_name_def split_at_def strtol10_def is_space_def is_digit_def to_int32_def
      LONG_MIN_def LONG_MAX_def)

end
