(* ===== verification/Access.thy ===== *)
theory Access
  imports ConfigQuery Constraints Resolution
begin

text \<open>
  Reading and writing a keyval of a config by query: what is written along a path is what is read
  along it, at any depth of sections, and nothing else of the heap changes.
\<close>

section \<open>Changing the value of one keyval\<close>

text \<open>
  \<open>revalued s r s'\<close>: at most the value of the keyval \<open>r\<close>, its error message and its mark of being
  invalid are different in \<open>s'\<close>.
\<close>

definition revalued :: "store \<Rightarrow> ptr \<Rightarrow> store \<Rightarrow> bool" where
  "revalued s r s' \<longleftrightarrow> next_ptr s' = next_ptr s \<and> (\<forall>q. q \<noteq> r \<longrightarrow> ctxs s' q = ctxs s q) \<and>
     (\<exists>c k v e b. ctxs s r = Some c \<and> cx_obj c = Some (OKeyval k) \<and>
        ctxs s' r = Some (c\<lparr>cx_obj := Some (OKeyval (k\<lparr>kv_value := v\<rparr>)), cx_error := e, invalid := b\<rparr>))"

lemma get_keyval_Some: "get_keyval s r = Some k \<longleftrightarrow> (\<exists>c. ctxs s r = Some c \<and> cx_obj c = Some (OKeyval k))"
  by (auto simp: get_keyval_def bind_eq_Some_conv split: option.splits disir_object.splits)

lemma revaluedI:
  assumes "ctxs s r = Some c" "cx_obj c = Some (OKeyval k)"
    and "s' = s\<lparr>ctxs := (ctxs s)(r \<mapsto> c\<lparr>cx_obj := Some (OKeyval (k\<lparr>kv_value := v\<rparr>)), cx_error := e, invalid := b\<rparr>)\<rparr>"
  shows "revalued s r s'"
  using assms unfolding revalued_def by auto

lemma revalued_refl: "get_keyval s r = Some k \<Longrightarrow> revalued s r s"
proof -
  assume "get_keyval s r = Some k"
  then obtain c where c: "ctxs s r = Some c" "cx_obj c = Some (OKeyval k)" by (auto simp: get_keyval_Some)
  show ?thesis by (rule revaluedI [OF c, where v = "kv_value k" and e = "cx_error c" and b = "invalid c"])
      (use c in \<open>simp add: fun_upd_idem\<close>)
qed

lemma revalued_trans: "revalued s r s1 \<Longrightarrow> revalued s1 r s2 \<Longrightarrow> revalued s r s2"
  by (fastforce simp: revalued_def)

lemma revalued_keyval: "revalued s r s' \<Longrightarrow> \<exists>k. get_keyval s' r = Some k"
  by (auto simp: revalued_def get_keyval_Some)

lemma revalued_put_value:
  assumes "put_value r v s = Some s'" and "get_keyval s r = Some k"
  shows "revalued s r s'"
proof -
  obtain c where c: "ctxs s r = Some c" "cx_obj c = Some (OKeyval k)" using assms(2) by (auto simp: get_keyval_Some)
  with assms(1) have "s' = s\<lparr>ctxs := (ctxs s)(r \<mapsto> c\<lparr>cx_obj := Some (OKeyval (k\<lparr>kv_value := v\<rparr>))\<rparr>)\<rparr>"
    by (auto simp: put_value_def set_obj_Some)
  with c show ?thesis by (intro revaluedI [OF c, where v = v and e = "cx_error c" and b = "invalid c"]) simp
qed

lemma revalued_upd:
  assumes "upd r f s = Some s'" and "get_keyval s r = Some k"
    and "\<And>c. \<exists>e b. f c = c\<lparr>cx_error := e, invalid := b\<rparr>"
  shows "revalued s r s'"
proof -
  obtain c where c: "ctxs s r = Some c" "cx_obj c = Some (OKeyval k)" using assms(2) by (auto simp: get_keyval_Some)
  obtain e b where f: "f c = c\<lparr>cx_error := e, invalid := b\<rparr>" using assms(3) by blast
  with assms(1) c have "s' = s\<lparr>ctxs := (ctxs s)(r \<mapsto> c\<lparr>cx_error := e, invalid := b\<rparr>)\<rparr>" by (auto simp: upd_Some)
  moreover have "c\<lparr>cx_obj := Some (OKeyval k)\<rparr> = c" using c(2) by (cases c) simp
  ultimately show ?thesis by (intro revaluedI [OF c, where v = "kv_value k" and e = e and b = b]) simp
qed

lemma revalued_error: "dx_context_error_set r m s = Some s' \<Longrightarrow> get_keyval s r = Some k \<Longrightarrow> revalued s r s'"
  unfolding dx_context_error_set_def
  by (rule revalued_upd, assumption+) (metis disir_context.surjective disir_context.update_convs(4,12))

lemma revalued_invalid: "upd r (\<lambda>c. c\<lparr>invalid := b\<rparr>) s = Some s' \<Longrightarrow> get_keyval s r = Some k \<Longrightarrow> revalued s r s'"
  by (rule revalued_upd, assumption+) (metis disir_context.surjective disir_context.update_convs(4,12))

text \<open>The checks and the write of the setters keep to that.\<close>

lemma revaluing:
  "put_value r v s = Some s' \<Longrightarrow> revalued s0 r s \<Longrightarrow> revalued s0 r s'"
  "dx_context_error_set r m s = Some s' \<Longrightarrow> revalued s0 r s \<Longrightarrow> revalued s0 r s'"
  "upd r (\<lambda>c. c\<lparr>invalid := b\<rparr>) s = Some s' \<Longrightarrow> revalued s0 r s \<Longrightarrow> revalued s0 r s'"
proof -
  assume s: "revalued s0 r s"
  then obtain k where k: "get_keyval s r = Some k" using revalued_keyval by blast
  show "put_value r v s = Some s' \<Longrightarrow> revalued s0 r s'"
    using revalued_trans [OF s] revalued_put_value [OF _ k] by blast
  show "dx_context_error_set r m s = Some s' \<Longrightarrow> revalued s0 r s'"
    using revalued_trans [OF s] revalued_error [OF _ k] by blast
  show "upd r (\<lambda>c. c\<lparr>invalid := b\<rparr>) s = Some s' \<Longrightarrow> revalued s0 r s'"
    using revalued_trans [OF s] revalued_invalid [OF _ k] by blast
qed

lemma revaluing_dv_type: "set_value_dv_type r t s = Some s' \<Longrightarrow> revalued s0 r s \<Longrightarrow> revalued s0 r s'"
  by (auto simp: set_value_dv_type_def bind_eq_Some_conv intro: revaluing)

lemma revaluing_full_check:
  "dx_context_sp_full_check (Some r) s = Some (st, s') \<Longrightarrow> revalued s0 r s \<Longrightarrow> revalued s0 r s'"
  unfolding dx_context_sp_full_check_def
  by (elim do_elims Pair_inject; ((hypsubst | erule Pair_inject)+)?; (simp; fail)?; (assumption | erule revaluing)+)

lemma revaluing_use_case: "keyval_use_case r type s = Some (st, s') \<Longrightarrow> revalued s0 r s \<Longrightarrow> revalued s0 r s'"
  unfolding keyval_use_case_def
  by (elim do_elims Pair_inject; ((hypsubst | erule Pair_inject)+)?; (assumption | erule revaluing revaluing_dv_type)+)

lemma revaluing_input_check:
  "set_value_input_check (Some r) type s = Some (st, s') \<Longrightarrow> revalued s0 r s \<Longrightarrow> revalued s0 r s'"
  unfolding set_value_input_check_def option.sel
  by (elim do_elims Pair_inject; ((hypsubst | erule Pair_inject)+)?;
      (assumption | erule revaluing revaluing_dv_type revaluing_use_case revaluing_full_check)+)

lemma revaluing_restricted:
  "restricted r verdict i d str s = Some (go, st, s') \<Longrightarrow> revalued s0 r s \<Longrightarrow> revalued s0 r s'"
proof -
  have check: "revalued s0 r s2" if "dx_restriction_exclusive_value_check r i d str s1 = Some (st, s2)" "revalued s0 r s1"
    for st s1 s2 using exclusive_check_state [OF that(1)] that(2) revaluing(2) by auto
  show "restricted r verdict i d str s = Some (go, st, s') \<Longrightarrow> revalued s0 r s \<Longrightarrow> revalued s0 r s'"
    unfolding restricted_def
    by (elim do_elims Pair_inject; ((hypsubst | erule Pair_inject)+)?; (assumption | erule revaluing check)+)
qed

lemma revaluing_store_value: "store_value r verdict w s = Some (st, s') \<Longrightarrow> revalued s0 r s \<Longrightarrow> revalued s0 r s'"
  unfolding store_value_def
  by (elim do_elims Pair_inject; ((hypsubst | erule Pair_inject)+)?; (assumption | erule revaluing)+)

lemma revalued_set_integer: "dc_set_value_integer (Some r) i s = Some (st, s') \<Longrightarrow> revalued s0 r s \<Longrightarrow> revalued s0 r s'"
  unfolding dc_set_value_integer_def
  by (elim do_elims Pair_inject; ((hypsubst | erule Pair_inject)+)?; (simp only: option.inject)?; ((hypsubst)+)?;
      (assumption | erule revaluing_input_check revaluing_restricted revaluing_store_value)+)

lemma set_integer_reads:
  assumes "dc_set_value_integer (Some r) i s = Some (OK, s')"
  shows "\<exists>w. get_value s' r = Some (w\<lparr>dv_data := PInt i\<rparr>) \<and> dv_type w = VT_INTEGER"
proof -
  obtain v verdict s1 where "store_value r verdict (dx_value_set_integer (Some v) i) s1 = Some (OK, s')"
    using assms by (auto simp: dc_set_value_integer_def bind_eq_Some_conv split: if_splits dest: restricted_go)
  then show ?thesis
    by (auto simp: dx_value_set_integer_def split: if_splits dest: store_value_reads store_value_refused)
qed

section \<open>References and paths\<close>

lemma add_refs_back: "add_refs d (add_refs (\<lambda>q. - d q) s) = s"
  by simp

lemma revalued_add_refs: "revalued (add_refs d s) r s' \<Longrightarrow> revalued s r (add_refs (\<lambda>q. - d q) s')"
proof -
  assume r: "revalued (add_refs d s) r s'"
  have same: "c\<lparr>cx_refcount := cx_refcount c + n + - n\<rparr> = c" for c :: disir_context and n by (cases c) simp
  from r obtain c k v e b where c: "ctxs s r = Some c" "cx_obj c = Some (OKeyval k)"
    "ctxs s' r = Some (c\<lparr>cx_refcount := cx_refcount c + d r, cx_obj := Some (OKeyval (k\<lparr>kv_value := v\<rparr>)), cx_error := e, invalid := b\<rparr>)"
    by (auto simp: revalued_def)
  have "ctxs (add_refs (\<lambda>q. - d q) s') q = ctxs s q" if "q \<noteq> r" for q
    using r that same by (cases "ctxs s q") (auto simp: revalued_def)
  moreover have "ctxs (add_refs (\<lambda>q. - d q) s') r =
      Some (c\<lparr>cx_obj := Some (OKeyval (k\<lparr>kv_value := v\<rparr>)), cx_error := e, invalid := b\<rparr>)"
    using c(3) by (cases c) simp
  moreover have "next_ptr (add_refs (\<lambda>q. - d q) s') = next_ptr s" using r by (simp add: revalued_def)
  ultimately show ?thesis using c(1,2) unfolding revalued_def by blast
qed

lemma revalued_elsewhere: "revalued s r s' \<Longrightarrow> get_elements s q = Some e \<Longrightarrow> q \<noteq> r \<and> ctxs s' q = ctxs s q"
  by (cases "q = r") (auto simp: revalued_def get_elements_def)

lemma revalued_spare: "revalued s r s' \<Longrightarrow> spare s q \<Longrightarrow> spare s' q"
  by (cases "q = r") (auto simp: revalued_def spare_def)

lemma revalued_elements_spare:
  assumes r: "revalued s r s'" and q: "elements_spare s q xs"
  shows "elements_spare s' q xs \<and> ctxs s' q = ctxs s q"
proof -
  obtain st where st: "get_elements s q = Some (Some st)" "es_rel st xs"
    using q by (auto simp: elements_spare_def parent_ok_def elements_rel_def)
  have same: "ctxs s' q = ctxs s q" using revalued_elsewhere [OF r st(1)] by simp
  then have "get_elements s' q = Some (Some st)" using st(1) by (simp add: get_elements_def)
  with q st(2) same revalued_spare [OF r] show ?thesis
    by (auto simp: elements_spare_def parent_ok_def elements_rel_def intro: spare_live)
qed

lemma revalued_leads_to: "leads_to s p path r \<Longrightarrow> revalued s r0 s' \<Longrightarrow> leads_to s' p path r"
proof (induction rule: leads_to.induct)
  case (last p xs i k)
  then show ?case using revalued_elements_spare by (blast intro: leads_to.last)
next
  case (down p xs i k q c path r)
  have "\<exists>ys. elements_spare s q ys" using down(7) by (cases rule: leads_to.cases) blast+
  then have "ctxs s' q = Some c" using revalued_elements_spare [OF down(10)] down(5) by auto
  with down show ?case using revalued_elements_spare by (blast intro: leads_to.down)
qed

lemma revalued_store_ok: "revalued s r s' \<Longrightarrow> store_ok s \<Longrightarrow> store_ok s'"
  unfolding store_ok_def
proof (intro allI impI)
  fix q c'
  assume r: "revalued s r s'" and s: "\<forall>p c. ctxs s p = Some c \<longrightarrow> p < next_ptr s \<and> 0 < cx_refcount c \<and> object_ok c"
    and c': "ctxs s' q = Some c'"
  show "q < next_ptr s' \<and> 0 < cx_refcount c' \<and> object_ok c'"
    using r s [rule_format, of q] c' by (cases "q = r") (auto simp: revalued_def object_ok_def)
qed

lemma resolve_on_path:
  assumes s: "store_ok s" and path: "leads_to s p path r" and len: "length (show_path path) < 2048" and d: "\<And>q. 0 \<le> d q"
  shows "dc_query_resolve_context_va (Some p) (show_path path) (add_refs d s) =
    Some (OK, Some r, add_refs (\<lambda>q. d q + one_ref r q) s)"
proof -
  obtain resolved' where "query_resolve_name_to_context (Some p) (show_path path) [] (add_refs d s) =
      Some (OK, Some r, resolved', add_refs (\<lambda>q. d q + one_ref r q) s)"
    using follow_path [OF s path, of d "[]"] d by auto
  moreover obtain xs where "elements_spare s p xs" using path by (cases rule: leads_to.cases) blast+
  then have pk: "parent_ok (add_refs d s) p xs"
    using elements_spare_add_refs [where d = d, OF d] by (simp add: elements_spare_def)
  moreover have "dx_context_type_check p [CT_MOLD, CT_CONFIG, CT_SECTION] (add_refs d s) = Some OK"
    using pk by (auto simp: parent_ok_def dx_context_type_check_def dx_context_type_sanify_def)
  ultimately show ?thesis using len parent_ok_checks(1) [OF pk]
    by (simp add: dc_query_resolve_context_va_def BUFFER_SIZE_def)
qed

lemma config_context_taken:
  assumes "get_config s p = Some g" and "elements_spare s p xs"
  shows "dc_config_getcontext (Some p) s = Some (Some p, add_refs (one_ref p) s)"
proof -
  have "live s p" using assms(2) by (auto simp: elements_spare_def parent_ok_def live_def)
  then show ?thesis using assms(1) live_incref_add by (simp add: dc_config_getcontext_def one_ref_def)
qed

lemma holder_spare: "store_ok s \<Longrightarrow> elements_spare s p xs \<Longrightarrow> spare s p"
proof -
  assume s: "store_ok s" and "elements_spare s p xs"
  then obtain c where c: "ctxs s p = Some c" "\<not> destroyed c" "cx_type c \<in> {CT_CONFIG, CT_MOLD, CT_SECTION}"
    by (auto simp: elements_spare_def parent_ok_def)
  with store_okD [OF s c(1)] show "spare s p" by (auto simp: spare_def dx_context_type_sanify_def)
qed

lemma get_add_refs [simp]:
  "get_keyval (add_refs d s) r = get_keyval s r" "get_value (add_refs d s) r = get_value s r"
  "dc_context_type (add_refs d s) q = dc_context_type s q"
  by (cases "ctxs s r"; simp add: get_keyval_def get_value_def)+ (auto simp: dc_context_type_def bind_map_option comp_def split: option.splits)

text \<open>A keyval whose value can be read: it has a mold and is not part of one.\<close>

definition readable :: "store \<Rightarrow> ptr \<Rightarrow> bool" where
  "readable s r \<longleftrightarrow> (\<exists>c k rt. ctxs s r = Some c \<and> cx_obj c = Some (OKeyval k) \<and> cx_type c = CT_KEYVAL \<and> \<not> destroyed c \<and>
     kv_mold_equiv k \<noteq> None \<and> dc_context_type s (cx_root c) = Some rt \<and> rt \<noteq> CT_MOLD)"

lemma readable_check: "readable s r \<Longrightarrow> get_value_input_check (Some r) s = Some (OK, s)"
  by (auto simp: readable_def get_value_input_check_def dx_context_sp_full_check_def dx_context_type_check_def
      dx_context_type_sanify_def dc_context_type_def get_keyval_def)

lemma readable_add_refs: "readable s r \<Longrightarrow> readable (add_refs d s) r"
  by (auto simp: readable_def)

lemma revalued_type: "revalued s r s' \<Longrightarrow> dc_context_type s' q = dc_context_type s q"
  by (cases "q = Some r") (auto simp: revalued_def dc_context_type_def split: option.splits)

lemma revalued_readable: "revalued s r s' \<Longrightarrow> readable s r \<Longrightarrow> readable s' r"
  using revalued_type [of s r s'] by (auto simp: revalued_def readable_def)

lemma set_integer_readable:
  assumes set: "dc_set_value_integer (Some r) i s = Some (OK, s')" and s: "store_ok s"
    and k: "get_keyval s r = Some k" "kv_mold_equiv k \<noteq> None"
  shows "readable s r"
proof -
  obtain c where c: "ctxs s r = Some c" "cx_obj c = Some (OKeyval k)" using k(1) by (auto simp: get_keyval_Some)
  then have t: "cx_type c = CT_KEYVAL" using store_okD [OF s c(1)] by (simp add: object_ok_def)
  from set have ok: "set_value_input_check (Some r) VT_INTEGER s = Some (st, s1) \<Longrightarrow> st = OK \<or> st = INVALID_CONTEXT" for st s1
    by (auto simp: dc_set_value_integer_def split: if_splits)
  obtain st s1 where check: "set_value_input_check (Some r) VT_INTEGER s = Some (st, s1)"
    using set by (auto simp: dc_set_value_integer_def bind_eq_Some_conv)
  have "\<not> destroyed c" "\<exists>rt. dc_context_type s (cx_root c) = Some rt \<and> rt \<noteq> CT_MOLD"
    using check ok [OF check] c t
    by (auto simp: set_value_input_check_def dx_context_sp_full_check_def dx_context_type_check_def
      dx_context_type_sanify_def dc_context_type_def bind_eq_Some_conv split: if_splits)
  then show ?thesis using c t k(2) unfolding readable_def by blast
qed

text \<open>Reading along a path.\<close>

lemma config_get_on_path:
  assumes s: "store_ok s" and path: "leads_to s p path r" and len: "length (show_path path) < 2048"
    and p: "get_config s p = Some g" and read: "readable s r"
    and v: "get_value s r = Some w" "dv_type w = VT_INTEGER" "dv_data w = PInt i"
  shows "disir_config_get_keyval_integer (Some p) True (Some (show_path path)) s = Some (OK, Some (QInteger i), s)"
proof -
  let ?s = "add_refs (\<lambda>q. one_ref p q + one_ref r q) s"
  obtain xs where xs: "elements_spare s p xs" using path by (cases rule: leads_to.cases) blast+
  have "dc_get_value_integer (Some r) True ?s = Some (OK, Some i, ?s)"
    using readable_check [OF readable_add_refs [OF read]] v
    by (simp add: dc_get_value_integer_def dx_value_get_integer_def getter_errors_def)
  moreover have "dc_putcontext (Some r) ?s = Some (OK, add_refs (one_ref p) s)"
    using put_back [where d = "one_ref p", OF s one_ref_nonneg leads_to_spare [OF path]] .
  moreover have "dc_putcontext (Some p) (add_refs (one_ref p) s) = Some (OK, s)"
    using put_back [where d = "\<lambda>_. 0", OF s _ holder_spare [OF s xs]] by simp
  ultimately show ?thesis
    using config_context_taken [OF p xs] resolve_on_path [where d = "one_ref p", OF s path len one_ref_nonneg]
    by (simp add: disir_config_get_keyval_integer_def config_get_keyval_def config_get_keyval_generic_def get_value_generic_def)
qed

text \<open>Writing along a path.\<close>

lemma config_set_on_path:
  assumes s: "store_ok s" and path: "leads_to s p path r" and len: "length (show_path path) < 2048"
    and p: "get_config s p = Some g" and k: "get_keyval s r = Some k"
    and set: "dc_set_value_integer (Some r) i (add_refs (\<lambda>q. one_ref p q + one_ref r q) s) = Some (OK, s1)"
  shows "\<exists>t. disir_config_set_keyval_integer (Some p) i (Some (show_path path)) s = Some (OK, t) \<and>
    s1 = add_refs (\<lambda>q. one_ref p q + one_ref r q) t \<and> revalued s r t"
proof -
  let ?d = "\<lambda>q. one_ref p q + one_ref r q"
  define t where "t = add_refs (\<lambda>q. - ?d q) s1"
  obtain xs where xs: "elements_spare s p xs" using path by (cases rule: leads_to.cases) blast+
  have "get_keyval (add_refs ?d s) r = Some k" using k by simp
  then have rev: "revalued s r t" unfolding t_def
    using revalued_set_integer [OF set revalued_refl] revalued_add_refs [where d = ?d] by blast
  have s1: "s1 = add_refs ?d t" unfolding t_def by (rule add_refs_back [symmetric])
  have t: "store_ok t" "leads_to t p path r" "elements_spare t p xs"
    using revalued_store_ok [OF rev s] revalued_leads_to [OF path rev] revalued_elements_spare [OF rev xs] by auto
  have "dc_putcontext (Some r) s1 = Some (OK, add_refs (one_ref p) t)" unfolding s1
    using put_back [where d = "one_ref p", OF t(1) one_ref_nonneg leads_to_spare [OF t(2)]] .
  moreover have "dc_putcontext (Some p) (add_refs (one_ref p) t) = Some (OK, t)"
    using put_back [where d = "\<lambda>_. 0", OF t(1) _ holder_spare [OF t(1) t(3)]] by simp
  ultimately have "disir_config_set_keyval_integer (Some p) i (Some (show_path path)) s = Some (OK, t)"
    using config_context_taken [OF p xs] resolve_on_path [where d = "one_ref p", OF s path len one_ref_nonneg] set
    by (simp add: disir_config_set_keyval_integer_def config_set_keyval_def config_set_keyval_generic_def set_found_def
        set_value_generic_def)
  with s1 rev show ?thesis by blast
qed

text \<open>
  C9. A value written to a config is the value read back. When setting an integer by a query that
  names a path of the config succeeds, getting it by the same query succeeds with that integer and
  leaves the heap as it is; and setting it has changed no other context, the sections on the path
  and the config itself included.
\<close>

theorem config_set_then_get:
  assumes s: "store_ok s" and path: "leads_to s p path r" and len: "length (show_path path) < 2048"
    and p: "get_config s p = Some g" and k: "get_keyval s r = Some k" "kv_mold_equiv k \<noteq> None"
    and set: "disir_config_set_keyval_integer (Some p) i (Some (show_path path)) s = Some (OK, s')"
  shows "disir_config_get_keyval_integer (Some p) True (Some (show_path path)) s' = Some (OK, Some (QInteger i), s') \<and>
    (\<forall>q. q \<noteq> r \<longrightarrow> ctxs s' q = ctxs s q)"
proof -
  let ?d = "\<lambda>q. one_ref p q + one_ref r q"
  obtain xs where xs: "elements_spare s p xs" using path by (cases rule: leads_to.cases) blast+
  obtain s1 where s1: "dc_set_value_integer (Some r) i (add_refs ?d s) = Some (OK, s1)"
    using set config_context_taken [OF p xs] resolve_on_path [where d = "one_ref p", OF s path len one_ref_nonneg]
    by (auto simp: disir_config_set_keyval_integer_def config_set_keyval_def config_set_keyval_generic_def set_found_def
        set_value_generic_def bind_eq_Some_conv split: if_splits)
  from config_set_on_path [OF s path len p k(1) this] set
  have rev: "s1 = add_refs ?d s'" "revalued s r s'" by auto
  obtain w where w: "get_value s' r = Some (w\<lparr>dv_data := PInt i\<rparr>)" "dv_type w = VT_INTEGER"
    using set_integer_reads [OF s1] by (auto simp: rev(1))
  have d: "0 \<le> ?d q" for q using one_ref_nonneg [of p q] one_ref_nonneg [of r q] by linarith
  have "get_keyval (add_refs ?d s) r = Some k" using k(1) by simp
  from set_integer_readable [OF s1 store_ok_add_refs [where d = ?d, OF d s] this k(2)]
  have read: "readable s' r" using revalued_readable [OF rev(2)] by (auto simp: readable_def)
  have "get_config s' p = Some g" using p revalued_elements_spare [OF rev(2) xs] by (simp add: get_config_def)
  from config_get_on_path [OF revalued_store_ok [OF rev(2) s] revalued_leads_to [OF path rev(2)] len this read w(1)] w(2) rev(2)
  show ?thesis by (auto simp: revalued_def)
qed

text \<open>A config with the finalized integer keyval \<open>key\<close>, and the keyval of its mold.\<close>

definition keyed_store :: "element_storage \<Rightarrow> store" where
  "keyed_store st =
     \<lparr>ctxs = [0 \<mapsto> sample_context CT_CONFIG (OConfig (dx_config_create\<lparr>cf_elements := Some st\<rparr>)),
              1 \<mapsto> (sample_context CT_KEYVAL (OKeyval (sample_keyval\<lparr>kv_mold_equiv := Some 2, kv_value := integer_value 4\<rparr>)))
                    \<lparr>constructing := False, finalized := True\<rparr>,
              2 \<mapsto> sample_context CT_KEYVAL (OKeyval (sample_keyval\<lparr>kv_value := integer_value 0\<rparr>))],
      next_ptr = 3\<rparr>"

lemma keyed_store_facts:
  "store_ok (keyed_store st)"
  "get_config (keyed_store st) 0 = Some (dx_config_create\<lparr>cf_elements := Some st\<rparr>)"
  "get_keyval (keyed_store st) 1 = Some (sample_keyval\<lparr>kv_mold_equiv := Some 2, kv_value := integer_value 4\<rparr>)"
  "es_rel st [(''key'', 1)] \<Longrightarrow> elements_spare (keyed_store st) 0 [(''key'', 1)]"
  by (auto simp: store_ok_def keyed_store_def sample_context_def object_ok_def get_config_def get_keyval_def
      elements_spare_def parent_ok_def elements_rel_def get_elements_def spare_def live_def dx_context_type_sanify_def
      split: if_splits)

theorem config_set_then_get_witness:
  "\<exists>st s'. storage_add storage_create (Some ''key'') (Some 1) = Some (OK, st) \<and>
     disir_config_set_keyval_integer (Some 0) 9 (Some ''key'') (keyed_store st) = Some (OK, s') \<and>
     disir_config_get_keyval_integer (Some 0) True (Some ''key'') s' = Some (OK, Some (QInteger 9), s')"
proof -
  obtain st where st: "storage_add storage_create (Some ''key'') (Some 1) = Some (OK, st)" "es_rel st [(''key'', 1)]"
    using es_rel_add [OF es_rel_create, of 1 "''key''"] by auto
  let ?s = "keyed_store st" and ?path = "[(''key'', None)] :: path"
  have path: "leads_to ?s 0 ?path 1"
    using leads_to.last [OF keyed_store_facts(4) [OF st(2)], of None "''key''"] by (simp add: position_def plain_key_def)
  have len: "length (show_path ?path) < 2048" by simp
  obtain s1 where s1: "dc_set_value_integer (Some 1) 9 (add_refs (\<lambda>q. one_ref 0 q + one_ref 1 q) ?s) = Some (OK, s1)"
    by (simp add: dc_set_value_integer_def set_value_input_check_def dx_context_sp_full_check_def keyed_store_def
        sample_context_def dx_context_type_sanify_def dx_context_type_check_def dc_context_type_def restricted_def
        dx_restriction_exclusive_value_check_def get_value_def store_value_def put_value_def set_obj_def get_keyval_def
        get_config_def set_value_dv_type_def keyval_use_case_def dc_value_type_def sample_keyval_def
        dx_value_set_integer_def integer_value_def)
  from config_set_on_path [OF keyed_store_facts(1) path len keyed_store_facts(2,3) s1] obtain s' where
    s': "disir_config_set_keyval_integer (Some 0) 9 (Some (show_path ?path)) ?s = Some (OK, s')" by blast
  from config_set_then_get [OF keyed_store_facts(1) path len keyed_store_facts(2,3) _ s'] s' st(1) show ?thesis by auto
qed

end
