(* ===== verification/Migration.thy ===== *)
theory Migration
  imports Update Resolution
begin

text \<open>
  What an update of a config does: which keyvals it looks at, and what becomes of the value of
  each of them.
\<close>

section \<open>The keyvals an update collects\<close>

definition keyval_at :: "store \<Rightarrow> ptr \<Rightarrow> bool" where
  "keyval_at s q \<longleftrightarrow> spare s q \<and> (\<exists>c. ctxs s q = Some c \<and> cx_type c = CT_KEYVAL)"

lemma keyval_live: "keyval_at s q \<Longrightarrow> live s q"
  by (simp add: keyval_at_def spare_live)

lemma retrieve_keyval:
  assumes q: "keyval_at s q" and ks: "holds keyvals ks" "\<And>k. k \<in> set ks \<Longrightarrow> live s k"
  shows "\<exists>keyvals'. retrieve_with R q keyvals (add_refs d s) =
    Some (OK, keyvals', add_refs (\<lambda>x. d x + one_ref q x) s) \<and> holds keyvals' (ks @ [q])"
proof -
  obtain c where c: "ctxs s q = Some c" "cx_type c = CT_KEYVAL" using q by (auto simp: keyval_at_def)
  have live: "live (add_refs d s) q" using keyval_live [OF q] by simp
  obtain keyvals' where "dc_collection_push_context keyvals (Some q) (add_refs d s) =
      Some (OK, keyvals', add_refs (\<lambda>x. if x = q then 1 else 0) (add_refs d s))" "holds keyvals' (ks @ [q])"
    using push_live [OF ks(1), of "add_refs d s" q] ks(2) live live_incref_add [OF live] by auto
  then show ?thesis using c by (auto simp: retrieve_with_def one_ref_def add.commute)
qed

text \<open>The loop over keyvals, starting behind \<open>before\<close>, collects them and leaves the rest of the loop to go on.\<close>

lemma retrieve_loop_keyvals:
  assumes "store_ok s" and "\<And>q. q \<in> set qs \<Longrightarrow> keyval_at s q" and "\<And>x. 0 \<le> d x" and "holds coll (before @ qs @ rest)"
    and "\<And>q. q \<in> set before \<union> set rest \<Longrightarrow> live s q" and "\<And>q. q \<in> set ks \<Longrightarrow> live s q"
    and "cc_iterator_index coll = length before" and "holds keyvals ks"
  shows "\<exists>keyvals'. retrieve_loop (retrieve_with R) (length qs + n) coll keyvals (add_refs d s) =
      retrieve_loop (retrieve_with R) n (coll\<lparr>cc_iterator_index := length (before @ qs)\<rparr>) keyvals'
        (add_refs (\<lambda>x. d x + refs_of qs x) s) \<and> holds keyvals' (ks @ qs)"
  using assms
proof (induction qs arbitrary: d coll before keyvals ks)
  case Nil
  then have "coll\<lparr>cc_iterator_index := length (before @ [])\<rparr> = coll" by simp
  then show ?case using Nil(8) by (intro exI [of _ keyvals]) (simp only: refs_of_simps list.size add_0 add_0_right append_Nil2)
next
  case (Cons q qs)
  note s = Cons.prems(1) and d = Cons.prems(3)
  let ?coll = "coll\<lparr>cc_iterator_index := length (before @ [q])\<rparr>" and ?d = "\<lambda>x. d x + one_ref q x"
  have q: "keyval_at s q" using Cons.prems(2) by simp
  have live: "live (add_refs d s) x" if "x \<in> set (before @ (q # qs) @ rest)" for x
    using that Cons.prems(2,5) keyval_live by auto
  have "live (add_refs d s) q" using keyval_live [OF q] by simp
  from live_incref_add [OF this] have nxt: "dc_collection_next coll (add_refs d s) = Some (OK, Some q, ?coll, add_refs ?d s)"
    using next_live [OF Cons.prems(4) live] Cons.prems(7) by (auto simp: nth_append one_ref_def add.commute)
  obtain keyvals1 where got: "retrieve_with R q keyvals (add_refs ?d s) =
      Some (OK, keyvals1, add_refs (\<lambda>x. ?d x + one_ref q x) s)" "holds keyvals1 (ks @ [q])"
    using retrieve_keyval [OF q Cons.prems(8,6), where d = ?d] by auto
  have d': "0 \<le> ?d x" for x using d [of x] one_ref_nonneg [of q x] by linarith
  from put_back [where d = ?d and q = q, OF s d'] q
  have put: "dc_putcontext (Some q) (add_refs (\<lambda>x. ?d x + one_ref q x) s) = Some (OK, add_refs ?d s)"
    by (simp add: keyval_at_def)
  have "holds ?coll ((before @ [q]) @ qs @ rest)" using Cons.prems(4) by (simp add: holds_def)
  moreover have "live s x" if "x \<in> set (before @ [q]) \<union> set rest" for x using that Cons.prems(5) keyval_live [OF q] by auto
  moreover have "live s x" if "x \<in> set (ks @ [q])" for x using that Cons.prems(6) keyval_live [OF q] by auto
  ultimately obtain keyvals2 where rest: "retrieve_loop (retrieve_with R) (length qs + n) ?coll keyvals1 (add_refs ?d s) =
      retrieve_loop (retrieve_with R) n (?coll\<lparr>cc_iterator_index := length ((before @ [q]) @ qs)\<rparr>) keyvals2
        (add_refs (\<lambda>x. ?d x + refs_of qs x) s)" "holds keyvals2 ((ks @ [q]) @ qs)"
    using Cons.IH [OF s, where d = ?d and coll = ?coll and before = "before @ [q]" and ks = "ks @ [q]" and keyvals = keyvals1]
      Cons.prems(2) got(2) d' by auto
  have eq: "add_refs (\<lambda>x. ?d x + refs_of qs x) s = add_refs (\<lambda>x. d x + refs_of (q # qs) x) s"
    by (rule add_refs_cong) (simp add: one_ref_def)
  show ?case using nxt got put rest unfolding eq by (intro exI [of _ keyvals2]) simp
qed

text \<open>The elements of a config or section that are all keyvals are collected; the status is that of the exhausted collection.\<close>

definition holder :: "store \<Rightarrow> ptr \<Rightarrow> (string \<times> ptr) list \<Rightarrow> bool" where
  "holder s p xs \<longleftrightarrow> elements_spare s p xs \<and> (\<exists>c. ctxs s p = Some c \<and> (cx_type c = CT_CONFIG \<or> cx_type c = CT_SECTION))"

lemma holder_elements: "holder s p xs \<Longrightarrow> elements_spare s p xs"
  by (simp add: holder_def)

lemma retrieve_unfold:
  assumes "holder s p xs"
  shows "retrieve_with R p keyvals (add_refs d s) = do {
     elements \<leftarrow> get_elements (add_refs d s) p;
     (status, coll, s) \<leftarrow> dx_element_storage_get_all elements (add_refs d s);
     if status \<noteq> OK then Some (status, keyvals, s)
     else do {
       coll \<leftarrow> coll;
       (status, context, coll, keyvals, s) \<leftarrow> retrieve_loop R (cc_numentries coll + 1) coll keyvals s;
       (_, s) \<leftarrow> dc_collection_finished (Some coll) s;
       s \<leftarrow> (if context = None then Some s else do { (_, s) \<leftarrow> dc_putcontext context s; Some s });
       Some (status, keyvals, s) } }"
  using assms by (auto simp: holder_def retrieve_with_def)

lemma retrieve_keyvals:
  assumes s: "store_ok s" and p: "holder s p xs" and xs: "\<And>q. q \<in> snd ` set xs \<Longrightarrow> keyval_at s q"
    and d: "\<And>x. 0 \<le> d x" and ks: "holds keyvals ks" "\<And>k. k \<in> set ks \<Longrightarrow> live s k"
  shows "\<exists>keyvals'. retrieve_with (retrieve_with R) p keyvals (add_refs d s) =
      Some (EXHAUSTED, keyvals', add_refs (\<lambda>x. d x + refs_of (map snd xs) x) s) \<and> holds keyvals' (ks @ map snd xs)"
proof -
  let ?qs = "map snd xs"
  let ?d = "\<lambda>x. d x + refs_of ?qs x"
  obtain storage coll where coll: "get_elements (add_refs d s) p = Some storage"
    "dx_element_storage_get_all storage (add_refs d s) = Some (OK, Some coll, add_refs ?d s)"
    "holds coll ?qs" "cc_iterator_index coll = 0" "\<forall>q \<in> set ?qs. live s q"
    using collect_elements [OF holder_elements [OF p]] by blast
  have d': "0 \<le> ?d x" for x using d [of x] refs_of_nonneg [of ?qs x] by linarith
  have n: "cc_numentries coll = length ?qs" using coll(3) by (simp add: holds_def)
  let ?coll = "coll\<lparr>cc_iterator_index := length ([] @ ?qs)\<rparr>"
  obtain keyvals' where loop: "retrieve_loop (retrieve_with R) (length ?qs + 1) coll keyvals (add_refs ?d s) =
      retrieve_loop (retrieve_with R) 1 ?coll keyvals' (add_refs (\<lambda>x. ?d x + refs_of ?qs x) s)"
    "holds keyvals' (ks @ ?qs)"
    using retrieve_loop_keyvals [of s ?qs ?d coll "[]" "[]" ks keyvals R 1] s xs d' coll ks by auto
  have hold': "holds ?coll ?qs" using coll(3) by (simp add: holds_def)
  have "dc_collection_next ?coll (add_refs (\<lambda>x. ?d x + refs_of ?qs x) s) =
      Some (EXHAUSTED, None, ?coll, add_refs (\<lambda>x. ?d x + refs_of ?qs x) s)"
    using next_live [OF hold', of "add_refs (\<lambda>x. ?d x + refs_of ?qs x) s"] coll(5) by simp
  moreover have "dc_collection_finished (Some ?coll) (add_refs (\<lambda>x. ?d x + refs_of ?qs x) s) = Some (OK, add_refs ?d s)"
    using finished_restores [OF store_ok_add_refs [where d = ?d, OF d' s] hold'] coll(5) by simp
  moreover have "retrieve_loop (retrieve_with R) (cc_numentries coll + 1) coll keyvals (add_refs ?d s) =
      Some (EXHAUSTED, None, ?coll, keyvals', add_refs (\<lambda>x. ?d x + refs_of ?qs x) s)"
    unfolding n loop(1) using calculation(1) by simp
  ultimately show ?thesis unfolding retrieve_unfold [OF p] using coll(1,2) loop(2)
    by (simp del: retrieve_loop.simps)
qed

text \<open>
  C20. An update does not look behind the first section of a config. When the elements are
  keyvals up to a section that holds keyvals, exactly these keyvals and those of the section are
  collected: the retrieval below the section returns EXHAUSTED, the status its own loop ended
  with, and that ends the loop of the config, whatever elements follow.
\<close>

theorem update_stops_at_first_section:
  assumes s: "store_ok s" and p: "holder s p (xs @ (n, q) # ys)" and q: "holder s q zs" and pq: "p \<noteq> q"
    and xs: "\<And>x. x \<in> snd ` set xs \<Longrightarrow> keyval_at s x" and zs: "\<And>z. z \<in> snd ` set zs \<Longrightarrow> keyval_at s z"
  shows "\<exists>col. retrieve_all_keyvals_recursively p dc_collection_create s =
      Some (EXHAUSTED, col, add_refs (refs_of (map snd xs @ map snd zs)) s) \<and> holds col (map snd xs @ map snd zs)"
proof -
  let ?as = "map snd xs" and ?bs = "map snd ys" and ?cs = "map snd zs"
  let ?ps = "?as @ q # ?bs"
  let ?d = "refs_of ?ps" and ?d1 = "\<lambda>x. refs_of ?ps x + refs_of ?as x"
  let ?d2 = "\<lambda>x. ?d1 x + one_ref q x"
  have "\<exists>c. ctxs s p = Some c" "\<exists>c. ctxs s q = Some c" using p q by (auto simp: holder_def)
  then have "p < next_ptr s" "q < next_ptr s" using store_okD [OF s] by auto
  then obtain m where m: "next_ptr s = Suc (Suc m)" using pq by (metis Suc_lessI less_Suc0 less_antisym not0_implies_Suc not_less0)
  let ?R = "retrieve_fuel m"
  have run: "retrieve_all_keyvals_recursively p dc_collection_create s =
      retrieve_with (retrieve_with (retrieve_with ?R)) p dc_collection_create (add_refs (\<lambda>_. 0) s)"
    by (simp add: retrieve_all_keyvals_recursively_def m)
  obtain storage coll where coll: "get_elements (add_refs (\<lambda>_. 0) s) p = Some storage"
    "dx_element_storage_get_all storage (add_refs (\<lambda>_. 0) s) = Some (OK, Some coll, add_refs ?d s)"
    "holds coll ?ps" "cc_iterator_index coll = 0" "\<forall>x \<in> set ?ps. live s x"
    using collect_elements [OF holder_elements [OF p], of "\<lambda>_. 0"] by auto
  have n: "cc_numentries coll = length ?ps" using coll(3) by (simp add: holds_def)
  have d: "0 \<le> ?d x" "0 \<le> ?d1 x" "0 \<le> ?d2 x" for x
    using refs_of_nonneg [of ?ps x] refs_of_nonneg [of ?as x] one_ref_nonneg [of q x] by linarith+
  let ?coll1 = "coll\<lparr>cc_iterator_index := length ([] @ ?as)\<rparr>" and ?coll2 = "coll\<lparr>cc_iterator_index := length ?as + 1\<rparr>"
  have as: "keyval_at s x" if "x \<in> set ?as" for x using that xs by auto
  have hold0: "holds coll ([] @ ?as @ q # ?bs)" using coll(3) by simp
  have others: "live s x" if "x \<in> set [] \<union> set (q # ?bs)" for x using that coll(5) by auto
  have none: "live s x" if "x \<in> set []" for x using that by simp
  have iter: "cc_iterator_index coll = length ([] :: ptr list)" using coll(4) by simp
  obtain k1 where loop: "retrieve_loop (retrieve_with (retrieve_with ?R)) (length ?as + (length ?bs + 2)) coll dc_collection_create (add_refs ?d s) =
      retrieve_loop (retrieve_with (retrieve_with ?R)) (length ?bs + 2) ?coll1 k1 (add_refs ?d1 s)" "holds k1 ([] @ ?as)"
    using retrieve_loop_keyvals [where d = ?d and R = "retrieve_with ?R" and n = "length ?bs + 2",
        OF s as d(1) hold0 others none iter holds_create] by (auto simp del: retrieve_loop.simps)
  have lq: "live s q" using coll(5) by simp
  have hold1: "holds ?coll1 ?ps" "holds ?coll2 ?ps" using coll(3) by (simp_all add: holds_def)
  have nxt: "dc_collection_next ?coll1 (add_refs ?d1 s) = Some (OK, Some q, ?coll2, add_refs ?d2 s)"
    using next_live [OF hold1(1), of "add_refs ?d1 s"] coll(5) live_incref_add [of "add_refs ?d1 s" q] lq
    by (auto simp: nth_append one_ref_def add.commute)
  have lk: "live s k" if "k \<in> set ([] @ ?as)" for k using that xs keyval_live by auto
  obtain k2 where below: "retrieve_with (retrieve_with ?R) q k1 (add_refs ?d2 s) =
      Some (EXHAUSTED, k2, add_refs (\<lambda>x. ?d2 x + refs_of ?cs x) s)" "holds k2 (([] @ ?as) @ ?cs)"
    using retrieve_keyvals [where d = ?d2 and ks = "[] @ ?as", OF s q zs d(3) loop(2) lk] by blast
  have ended: "retrieve_loop (retrieve_with (retrieve_with ?R)) (cc_numentries coll + 1) coll dc_collection_create (add_refs ?d s) =
      Some (EXHAUSTED, Some q, ?coll2, k2, add_refs (\<lambda>x. ?d2 x + refs_of ?cs x) s)"
  proof -
    have "cc_numentries coll + 1 = length ?as + (length ?bs + 2)" using n by simp
    then show ?thesis using loop(1) nxt below(1) by (simp add: numeral_2_eq_2)
  qed
  let ?e = "\<lambda>x. refs_of (?as @ ?cs) x + one_ref q x"
  have e: "0 \<le> refs_of (?as @ ?cs) x" "0 \<le> ?e x" for x
    using refs_of_nonneg [of "?as @ ?cs" x] one_ref_nonneg [of q x] by linarith+
  have "add_refs (\<lambda>x. ?d2 x + refs_of ?cs x) s = add_refs ?d (add_refs ?e s)"
    by (simp add: refs_of_append algebra_simps)
  then have finish: "dc_collection_finished (Some ?coll2) (add_refs (\<lambda>x. ?d2 x + refs_of ?cs x) s) = Some (OK, add_refs ?e s)"
    using finished_restores [OF store_ok_add_refs [where d = ?e, OF e(2) s] hold1(2)] coll(5) by simp
  have "spare s q" using p by (auto simp: holder_def elements_spare_def)
  from put_back [where d = "refs_of (?as @ ?cs)", OF s e(1) this]
  show ?thesis unfolding run retrieve_unfold [OF p] using coll(1,2) ended finish below(2)
    by (simp del: retrieve_loop.simps)
qed

text \<open>A config with two keyvals around a section, which holds a keyval of its own.\<close>

definition nested_store :: "element_storage \<Rightarrow> element_storage \<Rightarrow> store" where
  "nested_store st st2 =
     \<lparr>ctxs = [0 \<mapsto> sample_context CT_CONFIG (OConfig (dx_config_create\<lparr>cf_elements := Some st\<rparr>)),
              1 \<mapsto> sample_context CT_KEYVAL (OKeyval sample_keyval),
              2 \<mapsto> sample_context CT_SECTION (OSection (dx_section_create\<lparr>se_elements := Some st2\<rparr>)),
              3 \<mapsto> sample_context CT_KEYVAL (OKeyval sample_keyval),
              4 \<mapsto> sample_context CT_KEYVAL (OKeyval sample_keyval)],
      next_ptr = 5\<rparr>"

lemma nested_store_ok: "store_ok (nested_store st st2)"
  by (auto simp: store_ok_def nested_store_def sample_context_def object_ok_def split: if_splits)

lemma nested_facts:
  "keyval_at (nested_store st st2) 1" "keyval_at (nested_store st st2) 3" "keyval_at (nested_store st st2) 4"
  "es_rel st [(''a'', 1), (''s'', 2), (''b'', 3)] \<Longrightarrow> holder (nested_store st st2) 0 ([(''a'', 1)] @ (''s'', 2) # [(''b'', 3)])"
  "es_rel st2 [(''c'', 4)] \<Longrightarrow> holder (nested_store st st2) 2 [(''c'', 4)]"
  by (auto simp: keyval_at_def holder_def elements_spare_def spare_def live_def nested_store_def sample_context_def
      dx_context_type_sanify_def parent_ok_def elements_rel_def get_elements_def)

theorem update_stops_at_first_section_witness:
  "\<exists>st st2 col s'. holder (nested_store st st2) 0 [(''a'', 1), (''s'', 2), (''b'', 3)] \<and>
     retrieve_all_keyvals_recursively 0 dc_collection_create (nested_store st st2) = Some (EXHAUSTED, col, s') \<and>
     holds col [1, 4]"
proof -
  obtain st1 where "es_rel st1 [(''a'', 1)]" using es_rel_add [OF es_rel_create, of 1 "''a''"] by auto
  then obtain st2 where "es_rel st2 [(''a'', 1), (''s'', 2)]" using es_rel_add [of st1 _ 2 "''s''"] by fastforce
  then obtain st3 where st3: "es_rel st3 [(''a'', 1), (''s'', 2), (''b'', 3)]" using es_rel_add [of st2 _ 3 "''b''"] by fastforce
  obtain st4 where st4: "es_rel st4 [(''c'', 4)]" using es_rel_add [OF es_rel_create, of 4 "''c''"] by auto
  have keyvals: "keyval_at (nested_store st3 st4) x" if "x \<in> snd ` set [(''a'', 1)]" for x using that nested_facts(1) by simp
  have below: "keyval_at (nested_store st3 st4) x" if "x \<in> snd ` set [(''c'', 4)]" for x using that nested_facts(3) by simp
  have "(0 :: ptr) \<noteq> 2" by simp
  from update_stops_at_first_section [OF nested_store_ok nested_facts(4) [OF st3] nested_facts(5) [OF st4] this keyvals below]
    nested_facts(4) [OF st3, of st4]
  show ?thesis by auto
qed

section \<open>The value of a keyval\<close>

lemma set_keyval_reads:
  "set_obj p (OKeyval k) s = Some s' \<Longrightarrow> get_keyval s' p = Some k \<and> (\<forall>q. q \<noteq> p \<longrightarrow> ctxs s' q = ctxs s q)"
  by (auto simp: set_obj_def bind_eq_Some_conv upd_Some get_keyval_def split: if_splits)

lemma update_keyval_decides:
  assumes k: "get_keyval s p = Some k" and g: "get_config s old = Some g"
    and t: "dx_default_get_active (kv_mold_equiv k) (Some target) s = Some (Some e)" "get_default s e = Some td"
    and c: "dx_default_get_active (kv_mold_equiv k) (Some (cf_version g)) s = Some (Some f)" "get_default s f = Some cd"
  shows "update_keyval target old p s =
    (if dc_version_compare (de_introduced td) (cf_version g) \<le> 0 then Some (Unchanged, s)
     else do {
       new \<leftarrow> dx_value_compare (kv_value k) (de_value td);
       if new = 0 then Some (Unchanged, s)
       else do {
         old \<leftarrow> dx_value_compare (kv_value k) (de_value cd);
         if old = 0 then do {
           (_, w) \<leftarrow> dx_value_copy (kv_value k) (de_value td);
           s \<leftarrow> (case w of None \<Rightarrow> Some s | Some w \<Rightarrow> set_obj p (OKeyval (k\<lparr>kv_value := w\<rparr>)) s);
           Some (Updated, s) }
         else do {
           (a, x, _) \<leftarrow> dx_value_stringify (kv_value k) 512;
           (b, y, _) \<leftarrow> dx_value_stringify (de_value td) 512;
           if a \<noteq> OK \<or> b \<noteq> OK then None else Some (Conflict x y, s) } } })"
  using assms by (simp add: update_keyval_def cong: if_cong)

text \<open>
  C19. What an update does to a keyval: the heap changes only when it updates the value, then
  only in the value of that keyval, and only a value that compares equal to the default of the
  config's own version and unequal to the new default is replaced, by a copy of the new default.
  A conflict is reported only for a value that compares unequal to both. What counts is the
  result of \<^verbatim>\<open>dx_value_compare\<close>, which cuts the difference of two floats to an \<^verbatim>\<open>int\<close>: a float
  less than 1 away from the old default compares equal to it (see \<open>update_overwrites_float\<close>).
\<close>

theorem update_replaces_old_default_only:
  assumes u: "update_keyval target old p s = Some (v, s')" and k: "get_keyval s p = Some k" and g: "get_config s old = Some g"
    and t: "dx_default_get_active (kv_mold_equiv k) (Some target) s = Some (Some e)" "get_default s e = Some td"
    and c: "dx_default_get_active (kv_mold_equiv k) (Some (cf_version g)) s = Some (Some f)" "get_default s f = Some cd"
  shows "(v \<noteq> Updated \<longrightarrow> s' = s) \<and>
    (v \<noteq> Unchanged \<longrightarrow> 0 < dc_version_compare (de_introduced td) (cf_version g) \<and>
       dx_value_compare (kv_value k) (de_value td) \<noteq> Some 0 \<and>
       (v = Updated \<longleftrightarrow> dx_value_compare (kv_value k) (de_value cd) = Some 0)) \<and>
    (v = Updated \<longrightarrow> (\<forall>q. q \<noteq> p \<longrightarrow> ctxs s' q = ctxs s q) \<and>
       (\<forall>st w. dx_value_copy (kv_value k) (de_value td) = Some (st, Some w) \<longrightarrow> get_keyval s' p = Some (k\<lparr>kv_value := w\<rparr>)))"
proof -
  note d = u [unfolded update_keyval_decides [OF k g t c]]
  show ?thesis
  proof (cases "dc_version_compare (de_introduced td) (cf_version g) \<le> 0")
    case True
    with d show ?thesis by simp
  next
    case later: False
    then obtain new where new: "dx_value_compare (kv_value k) (de_value td) = Some new" using d by (auto simp: bind_eq_Some_conv)
    show ?thesis
    proof (cases "new = 0")
      case True
      with d later new show ?thesis by simp
    next
      case False
      then obtain old where old: "dx_value_compare (kv_value k) (de_value cd) = Some old"
        using d later new by (auto simp: bind_eq_Some_conv)
      show ?thesis
      proof (cases "old = 0")
        case True
        then obtain st w where w: "dx_value_copy (kv_value k) (de_value td) = Some (st, w)"
          "(case w of None \<Rightarrow> Some s | Some w \<Rightarrow> set_obj p (OKeyval (k\<lparr>kv_value := w\<rparr>)) s) = Some s'" "v = Updated"
          using d later new old False by (auto simp: bind_eq_Some_conv)
        then show ?thesis using True False later new old set_keyval_reads [of p _ s s'] by (cases w) auto
      next
        case differs: False
        then show ?thesis using d later new old False by (auto simp: bind_eq_Some_conv split: if_splits)
      qed
    qed
  qed
qed

text \<open>
  A config of version 1.0 whose only keyval holds \<open>x\<close>; its mold has the default 1.25 since 1.0
  and the default 9 since 2.0.
\<close>

definition float_value :: "rat \<Rightarrow> disir_value" where
  "float_value x = \<lparr>dv_type = VT_FLOAT, dv_data = PFloat (DFin x), dv_size = 0\<rparr>"

definition float_default :: "version \<Rightarrow> rat \<Rightarrow> disir_object" where
  "float_default v x = ODefault (dx_default_create\<lparr>de_introduced := v, de_value := float_value x\<rparr>)"

definition versioned_store :: "rat \<Rightarrow> store" where
  "versioned_store x =
     \<lparr>ctxs = [0 \<mapsto> sample_context CT_CONFIG (OConfig (dx_config_create\<lparr>cf_version := Version 1 0\<rparr>)),
              1 \<mapsto> sample_context CT_KEYVAL (OKeyval (sample_keyval\<lparr>kv_mold_equiv := Some 2, kv_value := float_value x\<rparr>)),
              2 \<mapsto> sample_context CT_KEYVAL (OKeyval (sample_keyval\<lparr>kv_default_queue := [3, 4]\<rparr>)),
              3 \<mapsto> sample_context CT_DEFAULT (float_default (Version 1 0) (5 / 4)),
              4 \<mapsto> sample_context CT_DEFAULT (float_default (Version 2 0) 9)],
      next_ptr = 5\<rparr>"

definition value_after_update :: "rat \<Rightarrow> (verdict \<times> disir_value) option" where
  "value_after_update x = do {
     (v, s) \<leftarrow> update_keyval (Version 2 0) 0 1 (versioned_store x);
     k \<leftarrow> get_keyval s 1;
     Some (v, kv_value k) }"

lemma versioned_store_facts:
  "get_keyval (versioned_store x) 1 = Some (sample_keyval\<lparr>kv_mold_equiv := Some 2, kv_value := float_value x\<rparr>)"
  "get_config (versioned_store x) 0 = Some (dx_config_create\<lparr>cf_version := Version 1 0\<rparr>)"
  "get_default (versioned_store x) 3 = Some (dx_default_create\<lparr>de_introduced := Version 1 0, de_value := float_value (5 / 4)\<rparr>)"
  "get_default (versioned_store x) 4 = Some (dx_default_create\<lparr>de_introduced := Version 2 0, de_value := float_value 9\<rparr>)"
  "get_queue DEFAULT_QUEUE (versioned_store x) 2 = Some [3, 4]"
  by (simp_all add: versioned_store_def sample_context_def float_default_def get_keyval_def get_config_def
      get_default_def get_queue_def sample_keyval_def)

lemma versioned_store_defaults:
  "dx_default_get_active (Some 2) (Some (Version 2 0)) (versioned_store x) = Some (Some 4)"
  "dx_default_get_active (Some 2) (Some (Version 1 0)) (versioned_store x) = Some (Some 3)"
  by (simp_all add: dx_default_get_active_def versioned_store_facts mq_active_def default_introduced_def
      dc_version_compare_def mq_tail_def mq_prev_def)

lemma dbl_round_quarter:
  assumes "\<bar>i\<bar> < 2 ^ 50"
  shows "dbl_round (of_int i / 4) = DFin (of_int i / 4)"
proof (rule dbl_round_exact)
  let ?q = "of_int i / 4 :: rat"
  obtain n d where nd: "quotient_of \<bar>?q\<bar> = (n, d)" by force
  then have q: "\<bar>?q\<bar> = of_int n / of_int d" and d: "0 < d" and cop: "coprime n d"
    using quotient_of_div quotient_of_denom_pos quotient_of_coprime by auto
  have "of_int (\<bar>i\<bar> * d) = (of_int (4 * n) :: rat)" using q d by (simp add: field_simps abs_mult)
  then have eq: "\<bar>i\<bar> * d = 4 * n" by (simp only: of_int_eq_iff)
  then have "n dvd \<bar>i\<bar> * d" by simp
  then have "n dvd \<bar>i\<bar>" using cop coprime_dvd_mult_left_iff by blast
  moreover have n0: "0 \<le> n"
  proof -
    have "0 \<le> \<bar>i\<bar> * d" using d by simp
    then show ?thesis using eq by linarith
  qed
  ultimately have "n \<le> \<bar>i\<bar>"
  proof (cases "i = 0")
    case True
    then show ?thesis using eq by simp
  next
    case False
    then have "0 < \<bar>i\<bar>" by simp
    with \<open>n dvd \<bar>i\<bar>\<close> show ?thesis by (rule zdvd_imp_le)
  qed
  then have "nat n < 2 ^ 50" using assms n0 by (simp add: nat_less_iff)
  then have bn: "bitlen (nat n) \<le> 50" by (rule bitlen_le)
  have bd: "1 \<le> bitlen (nat d)" using d by (subst bitlen.simps) simp
  have s: "2 \<le> dbl_scale ?q" using nd bn bd by (simp add: dbl_scale_def Let_def)
  then have "nat (dbl_scale ?q) = nat (dbl_scale ?q) - 2 + 2" by linarith
  then have "(2 :: rat) ^ nat (dbl_scale ?q) = 2 ^ (nat (dbl_scale ?q) - 2) * 4"
    using power_add [of "2 :: rat" "nat (dbl_scale ?q) - 2" 2] by simp
  then have "?q * pow2 (dbl_scale ?q) = of_int (i * 2 ^ (nat (dbl_scale ?q) - 2))"
    using s by (simp add: pow2_def)
  then show "?q * pow2 (dbl_scale ?q) = of_int (i * 2 ^ (nat (dbl_scale ?q) - 2))" .
  have "\<bar>?q\<bar> \<le> of_int \<bar>i\<bar>" by (simp add: field_simps)
  also have "\<dots> < 2 ^ 50" using assms by (metis of_int_less_numeral_power_cancel_iff)
  also have "(2 :: rat) ^ 50 \<le> 2 ^ 1024" by (rule power_increasing) simp_all
  finally show "\<bar>?q\<bar> < 2 ^ 1024" .
qed

lemma versioned_compare:
  "dx_value_compare (float_value (3 / 2)) (float_value (5 / 4)) = Some 0"
  "dx_value_compare (float_value (3 / 2)) (float_value 9) = Some (- 7)"
proof -
  have r: "dbl_round (1 / 4) = DFin (1 / 4)" "dbl_round (- (15 / 2)) = DFin (- (15 / 2))"
    using dbl_round_quarter [of 1] dbl_round_quarter [of "-30"] by simp_all
  have t: "rat_trunc (1 / 4) = 0" "rat_trunc (- (15 / 2)) = -7"
    by (auto simp: rat_trunc_def intro: floor_unique ceiling_unique)
  show "dx_value_compare (float_value (3 / 2)) (float_value (5 / 4)) = Some 0"
    "dx_value_compare (float_value (3 / 2)) (float_value 9) = Some (- 7)"
    using r t by (simp_all add: dx_value_compare_def float_value_def dbl_to_int32_def INT_MIN_def INT_MAX_def)
qed

text \<open>The value 1.5 in that config is taken for the default 1.25.\<close>

lemma versioned_update:
  "\<exists>s'. update_keyval (Version 2 0) 0 1 (versioned_store (3 / 2)) = Some (Updated, s') \<and>
     get_keyval s' 1 = Some (sample_keyval\<lparr>kv_mold_equiv := Some 2, kv_value := float_value 9\<rparr>)"
proof -
  let ?k = "sample_keyval\<lparr>kv_mold_equiv := Some 2, kv_value := float_value (3 / 2)\<rparr>"
  have defaults:
    "dx_default_get_active (kv_mold_equiv ?k) (Some (Version 2 0)) (versioned_store (3 / 2)) = Some (Some 4)"
    "dx_default_get_active (kv_mold_equiv ?k) (Some (cf_version (dx_config_create\<lparr>cf_version := Version 1 0\<rparr>)))
      (versioned_store (3 / 2)) = Some (Some 3)"
    using versioned_store_defaults by simp_all
  have copied: "dx_value_copy (float_value (3 / 2)) (float_value 9) = Some (OK, Some (float_value 9))"
    by (simp add: dx_value_copy_def float_value_def dx_value_set_float_def)
  obtain s' where s': "set_obj 1 (OKeyval (sample_keyval\<lparr>kv_mold_equiv := Some 2, kv_value := float_value 9\<rparr>))
      (versioned_store (3 / 2)) = Some s'"
    by (simp add: set_obj_def upd_def versioned_store_def sample_context_def)
  show ?thesis using set_keyval_reads [OF s'] copied versioned_compare s'
    by (intro exI [of _ s']) (simp add: update_keyval_decides [OF versioned_store_facts(1,2) defaults(1)
        versioned_store_facts(4) defaults(2) versioned_store_facts(3)] dc_version_compare_def del: One_nat_def)
qed

theorem update_replaces_old_default_only_witness:
  "\<exists>s'. update_keyval (Version 2 0) 0 1 (versioned_store (3 / 2)) = Some (Updated, s') \<and>
     ctxs s' 3 = ctxs (versioned_store (3 / 2)) 3"
proof -
  let ?k = "sample_keyval\<lparr>kv_mold_equiv := Some 2, kv_value := float_value (3 / 2)\<rparr>"
  obtain s' where u: "update_keyval (Version 2 0) 0 1 (versioned_store (3 / 2)) = Some (Updated, s')"
    using versioned_update by blast
  have "dx_default_get_active (kv_mold_equiv ?k) (Some (Version 2 0)) (versioned_store (3 / 2)) = Some (Some 4)"
    "dx_default_get_active (kv_mold_equiv ?k) (Some (cf_version (dx_config_create\<lparr>cf_version := Version 1 0\<rparr>))) (versioned_store (3 / 2)) = Some (Some 3)"
    using versioned_store_defaults by simp_all
  from update_replaces_old_default_only [OF u versioned_store_facts(1,2) this(1) versioned_store_facts(4) this(2) versioned_store_facts(3)] u
  show ?thesis by auto
qed

text \<open>
  A value of a float keyval that its user changed by less than 1 is lost in an update: the
  comparison of two floats casts their difference to an \<^verbatim>\<open>int\<close>, so 1.5 counts as the default
  1.25 and is replaced by the new default.
\<close>

theorem update_overwrites_float:
  "dx_value_compare (float_value (3 / 2)) (float_value (5 / 4)) = Some 0 \<and>
   value_after_update (3 / 2) = Some (Updated, float_value 9)"
  using versioned_update versioned_compare(1) by (auto simp: value_after_update_def)

end
