(* ===== verification/Upgrade.thy ===== *)
theory Upgrade
  imports Migration
begin

text \<open>
  The whole update of a config: the loop of \<^verbatim>\<open>disir_update_continue\<close> with its references and
  bookkeeping does to the heap what visiting the keyvals one by one does, and the config that an
  update hands out at the end is the one that was generated, which the loop does not touch.
\<close>

section \<open>The loop over the keyvals\<close>

text \<open>
  Visiting keyvals one by one: the number updated, the keyval in conflict with its two texts, the
  keyvals not visited and the heap.
\<close>

primrec migrate :: "version \<Rightarrow> ptr \<Rightarrow> ptr list \<Rightarrow> store \<Rightarrow> (nat \<times> (ptr \<times> string \<times> string) option \<times> ptr list \<times> store) option" where
  "migrate target old [] s = Some (0, None, [], s)"
| "migrate target old (p # ps) s = do {
     (verdict, s) \<leftarrow> update_keyval target old p s;
     case verdict of
       Conflict x y \<Rightarrow> Some (0, Some (p, x, y), ps, s)
     | Updated \<Rightarrow> do { (k, r) \<leftarrow> migrate target old ps s; Some (k + 1, r) }
     | Unchanged \<Rightarrow> migrate target old ps s }"

lemma reads_add_refs:
  "get_keyval (add_refs d s) p = get_keyval s p" "get_config (add_refs d s) p = get_config s p"
  "get_default (add_refs d s) p = get_default s p" "get_queue DEFAULT_QUEUE (add_refs d s) p = get_queue DEFAULT_QUEUE s p"
  by (cases "ctxs s p"; simp add: get_keyval_def get_config_def get_default_def get_queue_def)+

lemma active_add_refs: "dx_default_get_active k v (add_refs d s) = dx_default_get_active k v s"
proof -
  have "default_introduced (add_refs d s) = default_introduced s" by (simp add: default_introduced_def reads_add_refs fun_eq_iff)
  then show ?thesis by (simp add: dx_default_get_active_def reads_add_refs cong: bind_option_cong)
qed

lemma set_obj_add_refs: "set_obj p x (add_refs d s) = map_option (add_refs d) (set_obj p x s)"
  by (cases "ctxs s p") (auto simp: set_obj_def upd_def add_refs_def fun_eq_iff intro!: store.equality)

lemma update_keyval_add_refs:
  "update_keyval target old p (add_refs d s) = map_option (\<lambda>(v, s'). (v, add_refs d s')) (update_keyval target old p s)"
  unfolding update_keyval_def reads_add_refs active_add_refs set_obj_add_refs
  by (auto simp: bind_map_option comp_def split: bind_splits option.splits prod.splits)

lemma update_keyval_changes:
  "update_keyval target old p s = Some (v, s') \<Longrightarrow>
   s' = s \<or> (\<exists>k c. ctxs s p = Some c \<and> cx_type c = CT_KEYVAL \<and> s' = s\<lparr>ctxs := (ctxs s)(p \<mapsto> c\<lparr>cx_obj := Some (OKeyval k)\<rparr>)\<rparr>)"
  unfolding update_keyval_def
  by (elim do_elims Pair_inject; (auto simp: set_obj_Some; fail)?)

lemma update_keyval_keeps:
  assumes "update_keyval target old p s = Some (v, s')" and "store_ok s"
  shows "store_ok s'" and "keyval_at s q \<Longrightarrow> keyval_at s' q" and "x \<noteq> p \<Longrightarrow> ctxs s' x = ctxs s x"
proof -
  have "evolves s s'" using assms(1) by (rule evolving) simp
  then show "store_ok s'" using assms(2) by (simp add: evolves_def)
  show "keyval_at s q \<Longrightarrow> keyval_at s' q" "x \<noteq> p \<Longrightarrow> ctxs s' x = ctxs s x"
    using update_keyval_changes [OF assms(1)] by (auto simp: keyval_at_def spare_def)
qed

text \<open>The state of an update after a visit of keyvals, from what \<open>migrate\<close> says of them.\<close>

definition updated_state :: "disir_update \<Rightarrow> disir_collection \<Rightarrow> nat \<Rightarrow> nat \<Rightarrow> (ptr \<times> string \<times> string) option \<Rightarrow> disir_update" where
  "updated_state u coll i k r =
     u\<lparr>up_collection := Some (coll\<lparr>cc_iterator_index := i\<rparr>), up_updated := up_updated u + int k,
       up_keyval := (case r of None \<Rightarrow> up_keyval u | Some (q, _) \<Rightarrow> Some q), up_context_keyval := map_option fst r,
       up_config_value := (case r of None \<Rightarrow> up_config_value u | Some (_, x, _) \<Rightarrow> Some x),
       up_mold_value := (case r of None \<Rightarrow> up_mold_value u | Some (_, _, y) \<Rightarrow> Some y)\<rparr>"

lemma holds_iterator: "holds (coll\<lparr>cc_iterator_index := i\<rparr>) ps \<longleftrightarrow> holds coll ps"
  by (simp add: holds_def)

definition holding :: "ptr option \<Rightarrow> store \<Rightarrow> store" where
  "holding r s = (case r of None \<Rightarrow> s | Some q \<Rightarrow> add_refs (one_ref q) s)"

lemma continue_loop_migrates:
  assumes "store_ok s" and "\<And>q. q \<in> set ps \<Longrightarrow> keyval_at s q" and "holds coll ps" and "cc_iterator_index coll \<le> length ps"
    and "up_collection u = Some coll" and "length ps - cc_iterator_index coll < n" and "\<And>q. c = Some q \<Longrightarrow> keyval_at s q"
  shows "continue_loop n c u (holding c s) = do {
     (k, r, rest, s) \<leftarrow> migrate (up_target u) (up_config_old u) (drop (cc_iterator_index coll) ps) s;
     Some (case r of None \<Rightarrow> EXHAUSTED | Some _ \<Rightarrow> CONFLICT, updated_state u coll (length ps - length rest) k r,
           holding (map_option fst r) s) }"
  using assms
proof (induction n arbitrary: c u s coll)
  case (Suc n)
  let ?i = "cc_iterator_index coll"
  have put: "(if c = None then Some (holding c s) else do { (_, s) \<leftarrow> dc_putcontext c (holding c s); Some s }) = Some s"
  proof (cases c)
    case (Some q)
    then have "spare s q" using Suc.prems(7) by (simp add: keyval_at_def)
    from put_back [where d = "\<lambda>_. 0", OF Suc.prems(1) _ this] Some show ?thesis by (simp add: holding_def)
  qed (simp add: holding_def)
  have live: "live s q" if "q \<in> set ps" for q using Suc.prems(2) [OF that] by (rule keyval_live)
  note nxt = next_add_refs [where d = "\<lambda>_. 0", OF Suc.prems(3) live]
  show ?case
  proof (cases "?i < length ps")
    case False
    then have i: "?i = length ps" using Suc.prems(4) by simp
    then have "coll\<lparr>cc_iterator_index := length ps\<rparr> = coll" by simp
    with i show ?thesis using nxt Suc.prems(5) unfolding continue_loop.simps put
      by (simp add: updated_state_def holding_def)
  next
    case True
    let ?p = "ps ! ?i" and ?coll = "coll\<lparr>cc_iterator_index := ?i + 1\<rparr>"
    let ?u = "u\<lparr>up_collection := Some ?coll, up_context_keyval := Some ?p\<rparr>"
    have dr: "drop ?i ps = ?p # drop (?i + 1) ps" using True by (simp add: Cons_nth_drop_Suc)
    have p: "?p \<in> set ps" using True by simp
    have n: "dc_collection_next coll s = Some (OK, Some ?p, ?coll, add_refs (one_ref ?p) s)"
      using nxt True by simp
    have step: "continue_loop (Suc n) c u (holding c s) = do {
       (v, s) \<leftarrow> update_keyval (up_target u) (up_config_old u) ?p s;
       case v of
         Conflict x y \<Rightarrow> Some (CONFLICT, ?u\<lparr>up_keyval := Some ?p, up_config_value := Some x, up_mold_value := Some y\<rparr>, holding (Some ?p) s)
       | Updated \<Rightarrow> continue_loop n (Some ?p) (?u\<lparr>up_updated := up_updated u + 1\<rparr>) (holding (Some ?p) s)
       | Unchanged \<Rightarrow> continue_loop n (Some ?p) ?u (holding (Some ?p) s) }"
      using n Suc.prems(5) unfolding continue_loop.simps put
      by (cases "update_keyval (up_target u) (up_config_old u) ?p s")
        (auto simp: update_keyval_add_refs holding_def Let_def split: verdict.splits)
    show ?thesis
    proof (cases "update_keyval (up_target u) (up_config_old u) ?p s")
      case None
      then show ?thesis unfolding step dr by simp
    next
      case (Some vs)
      then obtain v s1 where v: "update_keyval (up_target u) (up_config_old u) ?p s = Some (v, s1)" by (cases vs) auto
      note k = update_keyval_keeps [OF v Suc.prems(1)]
      have IH: "continue_loop n (Some ?p) (?u\<lparr>up_updated := m\<rparr>) (holding (Some ?p) s1) = do {
         (k, r, rest, s) \<leftarrow> migrate (up_target u) (up_config_old u) (drop (?i + 1) ps) s1;
         Some (case r of None \<Rightarrow> EXHAUSTED | Some _ \<Rightarrow> CONFLICT,
           updated_state (?u\<lparr>up_updated := m\<rparr>) ?coll (length ps - length rest) k r, holding (map_option fst r) s) }" for m
        using Suc.IH [of s1 ?coll "?u\<lparr>up_updated := m\<rparr>" "Some ?p"] k(1,2) Suc.prems(2,3,6) p True by (simp add: holds_iterator)
      have u: "updated_state (?u\<lparr>up_updated := m\<rparr>) ?coll i k r = updated_state (u\<lparr>up_updated := m\<rparr>) coll i k r" for m i k r
        by (cases r) (auto simp: updated_state_def)
      show ?thesis
      proof (cases v)
        case (Conflict x y)
        then show ?thesis using True unfolding step dr by (simp add: v updated_state_def)
      next
        case Unchanged
        then show ?thesis using IH [of "up_updated u"] unfolding step dr u by (simp add: v)
      next
        case Updated
        have "updated_state (u\<lparr>up_updated := up_updated u + 1\<rparr>) coll i k r = updated_state u coll i (k + 1) r" for i k r
          by (cases r) (auto simp: updated_state_def)
        with Updated IH [of "up_updated u + 1"] show ?thesis unfolding step dr u
          by (auto simp: v bind_assoc split: bind_splits)
      qed
    qed
  qed
qed simp

text \<open>
  C29. Continuing an update that waits for no resolution is visiting the keyvals left in its
  collection one by one, in order: the loop, with the references it takes and gives back and the
  context it keeps from round to round, changes the heap as \<open>migrate\<close> does and counts the updated
  keyvals. It stops at the first conflict, with one reference to that keyval kept, its texts noted
  and the collection behind it; with none it reports OK and gives the config the target version.
\<close>

theorem update_continue_migrates:
  assumes s: "store_ok s" and ps: "\<And>q. q \<in> set ps \<Longrightarrow> keyval_at s q" and u: "up_keyval u = None" "up_collection u = Some coll"
    and coll: "holds coll ps" "cc_iterator_index coll \<le> length ps"
  shows "disir_update_continue (Some u) s = do {
     (k, r, rest, s) \<leftarrow> migrate (up_target u) (up_config_old u) (drop (cc_iterator_index coll) ps) s;
     let u' = updated_state u coll (length ps - length rest) k r;
     case r of
       Some (q, _) \<Rightarrow> Some (CONFLICT, Some u', add_refs (one_ref q) s)
     | None \<Rightarrow> do {
         g \<leftarrow> get_config s (up_config_old u);
         s \<leftarrow> set_obj (up_config_old u) (OConfig (g\<lparr>cf_version := up_target u\<rparr>)) s;
         Some (OK, Some u', s) } }"
proof -
  have n: "length ps - cc_iterator_index coll < cc_numentries coll + 1" using coll(1) by (simp add: holds_def)
  have "holding None s = s" by (simp add: holding_def)
  with continue_loop_migrates [OF s ps coll u(2) n, of None]
  have loop: "continue_loop (cc_numentries coll + 1) None u s = do {
     (k, r, rest, s) \<leftarrow> migrate (up_target u) (up_config_old u) (drop (cc_iterator_index coll) ps) s;
     Some (case r of None \<Rightarrow> EXHAUSTED | Some _ \<Rightarrow> CONFLICT, updated_state u coll (length ps - length rest) k r,
           holding (map_option fst r) s) }" by simp
  have same: "up_config_old (updated_state u coll i k r) = up_config_old u" "up_target (updated_state u coll i k r) = up_target u" for i k r
    by (simp_all add: updated_state_def)
  have run: "disir_update_continue (Some u) s = do {
     (status, u, s) \<leftarrow> continue_loop (cc_numentries coll + 1) None u s;
     if status \<noteq> EXHAUSTED then Some (status, Some u, s)
     else do {
       g \<leftarrow> get_config s (up_config_old u);
       s \<leftarrow> set_obj (up_config_old u) (OConfig (g\<lparr>cf_version := up_target u\<rparr>)) s;
       Some (OK, Some u, s) } }"
    using u by (simp add: disir_update_continue_def del: continue_loop.simps)
  show ?thesis
  proof (cases "migrate (up_target u) (up_config_old u) (drop (cc_iterator_index coll) ps) s")
    case None
    then show ?thesis unfolding run loop by simp
  next
    case (Some m)
    obtain k r rest s1 where "m = (k, r, rest, s1)" by (cases m) auto
    with Some show ?thesis unfolding run loop by (cases r) (auto simp: holding_def same)
  qed
qed

lemma versioned_store_ok: "store_ok (versioned_store x)"
  by (auto simp: store_ok_def versioned_store_def sample_context_def float_default_def object_ok_def split: if_splits)

theorem update_continue_migrates_witness:
  "\<exists>coll u s'. holds coll [1] \<and>
     disir_update_continue (Some ((update_create (Version 2 0) 0)\<lparr>up_collection := Some coll\<rparr>)) (versioned_store (3 / 2)) =
       Some (OK, Some u, s') \<and> up_updated u = 1 \<and>
     get_keyval s' 1 = Some (sample_keyval\<lparr>kv_mold_equiv := Some 2, kv_value := float_value 9\<rparr>)"
proof -
  let ?s = "versioned_store (3 / 2)"
  have k: "keyval_at ?s q" if "q \<in> set [1]" for q
    using that by (auto simp: keyval_at_def spare_def versioned_store_def sample_context_def dx_context_type_sanify_def)
  have "live ?s 1" using k [of 1] by (simp add: keyval_live)
  from push_live [OF holds_create, of ?s 1, OF _ this]
  obtain coll where coll: "holds coll [1]" "cc_iterator_index coll = 0" by (auto simp: dc_collection_create_def)
  obtain s1 where s1: "update_keyval (Version 2 0) 0 1 ?s = Some (Updated, s1)"
    "get_keyval s1 1 = Some (sample_keyval\<lparr>kv_mold_equiv := Some 2, kv_value := float_value 9\<rparr>)"
    using versioned_update by blast
  let ?u = "(update_create (Version 2 0) 0)\<lparr>up_collection := Some coll\<rparr>"
  have "ctxs s1 0 = ctxs ?s 0" using update_keyval_keeps(3) [OF s1(1) versioned_store_ok] by simp
  then obtain s2 g where s2: "get_config s1 0 = Some g" "set_obj 0 (OConfig (g\<lparr>cf_version := Version 2 0\<rparr>)) s1 = Some s2"
    by (auto simp: get_config_def set_obj_def upd_def versioned_store_def sample_context_def)
  then have "get_keyval s2 1 = get_keyval s1 1" by (auto simp: set_obj_Some get_keyval_def)
  moreover have "disir_update_continue (Some ?u) ?s = Some (OK, Some (updated_state ?u coll 1 1 None), s2)"
    using update_continue_migrates [OF versioned_store_ok k _ _ coll(1), of ?u] coll(2) s1(1) s2
    by (simp add: update_create_def Let_def)
  ultimately show ?thesis using coll(1) s1(2) by (intro exI conjI) (auto simp: updated_state_def update_create_def)
qed

section \<open>The config an update hands out\<close>

lemma migrate_keeps:
  "migrate target old ps s = Some (k, r, rest, s') \<Longrightarrow> store_ok s \<Longrightarrow>
   store_ok s' \<and> (\<forall>x. x \<notin> set ps \<longrightarrow> ctxs s' x = ctxs s x) \<and>
   (\<forall>x c. ctxs s x = Some c \<longrightarrow> (\<exists>c'. ctxs s' x = Some c' \<and> cx_refcount c' = cx_refcount c))"
proof (induction ps arbitrary: s k)
  case (Cons p ps)
  obtain v s1 where v: "update_keyval target old p s = Some (v, s1)" using Cons.prems(1) by (auto simp: bind_eq_Some_conv)
  note keeps = update_keyval_keeps [OF v Cons.prems(2)]
  have refs: "\<exists>c'. ctxs s1 x = Some c' \<and> cx_refcount c' = cx_refcount c" if "ctxs s x = Some c" for x c
    using update_keyval_changes [OF v] that by auto
  have "(\<exists>k'. migrate target old ps s1 = Some (k', r, rest, s')) \<or> s' = s1"
    using Cons.prems(1) v by (cases v) (auto simp: bind_eq_Some_conv)
  then show ?case
  proof
    assume "\<exists>k'. migrate target old ps s1 = Some (k', r, rest, s')"
    then obtain k' where "migrate target old ps s1 = Some (k', r, rest, s')" ..
    from Cons.IH [OF this keeps(1)] keeps(3) refs show ?case by (auto; metis)
  next
    assume "s' = s1"
    with keeps(1,3) refs show ?case by simp
  qed
qed simp

lemma migrate_all: "migrate target old ps s = Some (k, None, rest, s') \<Longrightarrow> rest = []"
proof (induction ps arbitrary: s k)
  case (Cons p ps)
  then obtain v s1 where v: "update_keyval target old p s = Some (v, s1)" by (auto simp: bind_eq_Some_conv)
  with Cons show ?case by (cases v) (auto simp: bind_eq_Some_conv)
qed simp

lemma collection_given_back:
  assumes "holds coll ps" and "enough s ps"
  shows "dc_collection_finished (Some coll) s = Some (OK, add_refs (\<lambda>q. - refs_of ps q) s)"
  using assms decref_all_add_refs [OF assms(2)] by (simp add: dc_collection_finished_def holds_def)

text \<open>
  C5. The config an update hands out is the one it has generated, untouched. When no keyval is in
  conflict, the update reports OK and counts the keyvals \<open>migrate\<close> has updated, and finishing it
  hands out the generated config. In the end the old config has the target version and its keyvals
  have the migrated values, while every context that did not exist before the update, the new
  config and all it holds, is as it was before the first keyval was looked at: no value the user
  had set in the old config is written to the new one.
\<close>

theorem update_hands_out_generated:
  assumes s: "store_ok s" and g: "get_config s p = Some g" "cf_mold g = Some q" "get_mold s q = Some m"
    and later: "dc_version_compare (cf_version g) v < 0" "v = (case target of None \<Rightarrow> mo_version m | Some v \<Rightarrow> v)"
    and gen: "disir_generate_config_from_mold (Some q) (Some v) s = Some (OK, config, s1)"
    and got: "retrieve_all_keyvals_recursively p dc_collection_create s1 = Some (st, coll, s2)" "st = OK \<or> st = EXHAUSTED"
    and coll: "holds coll ps" "cc_iterator_index coll = 0" "\<And>x. x \<in> set ps \<Longrightarrow> keyval_at s2 x" "enough s2 ps"
    and before: "\<And>x. x \<in> set ps \<Longrightarrow> ctxs s x \<noteq> None"
    and none: "migrate v p ps s2 = Some (k, None, rest, s3)" and old: "get_config s2 p = Some h"
  shows "\<exists>u s4 s5. disir_update_config (Some p) target True s = Some (OK, Some u, s4) \<and> up_updated u = int k \<and>
    disir_update_finished (Some u) True s4 = Some (OK, config, s5) \<and>
    (\<forall>x. x \<noteq> p \<longrightarrow> map_option cx_obj (ctxs s5 x) = map_option cx_obj (ctxs s3 x)) \<and>
    (\<forall>x. ctxs s x = None \<longrightarrow> ctxs s5 x = ctxs s2 x) \<and>
    get_config s5 p = Some (h\<lparr>cf_version := v\<rparr>)"
proof -
  have "evolves s s1" using gen by (rule evolving) simp
  then have "evolves s s2" using got(1) by - (erule evolving)
  then have s2: "store_ok s2" using s by (simp add: evolves_def)
  note keeps = migrate_keeps [OF none s2]
  have "p \<notin> set ps"
  proof
    assume "p \<in> set ps"
    then obtain c where "ctxs s2 p = Some c" "cx_type c = CT_KEYVAL" using coll(3) by (auto simp: keyval_at_def)
    with store_okD [OF s2 this(1)] old show False
      by (auto simp: get_config_def object_ok_def bind_eq_Some_conv split: option.splits disir_object.splits)
  qed
  then have p3: "ctxs s3 p = ctxs s2 p" using keeps by simp
  obtain c where c: "ctxs s2 p = Some c" "cx_obj c = Some (OConfig h)"
    using old by (auto simp: get_config_def split: option.splits disir_object.splits)
  then have ct: "cx_type c = CT_CONFIG" using store_okD [OF s2 c(1)] by (simp add: object_ok_def)
  let ?s4 = "s3\<lparr>ctxs := (ctxs s3)(p \<mapsto> c\<lparr>cx_obj := Some (OConfig (h\<lparr>cf_version := v\<rparr>))\<rparr>)\<rparr>"
  have h3: "get_config s3 p = Some h" using old p3 by (simp add: get_config_def)
  have set4: "set_obj p (OConfig (h\<lparr>cf_version := v\<rparr>)) s3 = Some ?s4" using c(1) ct p3 by (simp add: set_obj_Some)
  let ?up = "(update_create v p)\<lparr>up_config_target := config, up_collection := Some coll\<rparr>"
  let ?u = "updated_state ?up coll (length ps) k None"
  have "disir_update_continue (Some ?up) s2 = Some (OK, Some ?u, ?s4)"
    using update_continue_migrates [OF s2 coll(3) _ _ coll(1), of ?up] coll(2) none migrate_all [OF none] h3 set4
    by (simp add: update_create_def Let_def)
  then have run: "disir_update_config (Some p) target True s = Some (OK, Some ?u, ?s4)"
    using g later gen got by (auto simp: disir_update_config_def Let_def)
  have "enough ?s4 ps" unfolding enough_def
  proof
    fix x assume x: "x \<in> set ps"
    then obtain d where "ctxs s2 x = Some d" "refs_of ps x < cx_refcount d" using coll(4) by (auto simp: enough_def)
    then show "\<exists>d. ctxs ?s4 x = Some d \<and> refs_of ps x < cx_refcount d" using keeps \<open>p \<notin> set ps\<close> x by fastforce
  qed
  moreover have "holds (coll\<lparr>cc_iterator_index := length ps\<rparr>) ps" using coll(1) by (simp add: holds_iterator)
  ultimately have finish: "disir_update_finished (Some ?u) True ?s4 = Some (OK, config, add_refs (\<lambda>x. - refs_of ps x) ?s4)"
    using collection_given_back by (simp add: disir_update_finished_def updated_state_def update_create_def)
  let ?s5 = "add_refs (\<lambda>x. - refs_of ps x) ?s4"
  have "up_updated ?u = int k" by (simp add: updated_state_def update_create_def)
  moreover have "map_option cx_obj (ctxs ?s5 x) = map_option cx_obj (ctxs s3 x)" if "x \<noteq> p" for x
    using that by (cases "ctxs s3 x") simp_all
  moreover have "ctxs ?s5 x = ctxs s2 x" if "ctxs s x = None" for x
  proof -
    have "x \<noteq> p" using that g(1) by (auto simp: get_config_def)
    moreover have "x \<notin> set ps" using that before [of x] by blast
    ultimately show ?thesis using keeps by (cases "ctxs s2 x") (simp_all add: refs_of_def)
  qed
  moreover have "get_config ?s5 p = Some (h\<lparr>cf_version := v\<rparr>)"
    using ct by (simp add: get_config_def)
  ultimately show ?thesis using run finish by blast
qed

end
