(* ===== verification/Scenarios.thy ===== *)
theory Scenarios
  imports Upgrade Api "HOL-Library.Code_Target_Nat"
begin

text \<open>
  Runs that go through several components: a mold is built, configs are generated from it, read,
  written, compared and updated. Every run is evaluated by the kernel.
\<close>

section \<open>Generating\<close>

text \<open>A mold of an integer keyval \<open>k\<close> with the default 7 since version 1.0 and 9 since 2.0.\<close>

definition versioned_mold :: "api_call list" where
  "versioned_mold =
     [MoldBegin, Begin (Some 0) CT_KEYVAL, SetValueType (Some 1) VT_INTEGER, SetName (Some 1) (Some ''k'') 1,
      AddDefault (Some 1) (Some ''7'') 1 (Some (Version 1 0)), AddDefault (Some 1) (Some ''9'') 1 (Some (Version 2 0)),
      Finalize (Some 1), MoldFinalize (Some 0)]"

text \<open>The integers configs hold under a name after a run, and the statuses of the calls behind its beginning.\<close>

definition reads_after :: "api_call list \<Rightarrow> ptr list \<Rightarrow> string \<Rightarrow> (status \<times> query_value option) option list option" where
  "reads_after cs ps n = do {
     (_, s) \<leftarrow> run (\<lambda>_. None) cs empty_store;
     Some (map (\<lambda>p. map_option (\<lambda>(status, v, _). (status, v)) (disir_config_get_keyval_integer (Some p) True (Some n) s)) ps) }"

definition statuses_after :: "api_call list \<Rightarrow> api_call list \<Rightarrow> status list option" where
  "statuses_after before cs = map_option (\<lambda>(rs, _). drop (length before) (map fst rs)) (run (\<lambda>_. None) (before @ cs) empty_store)"

text \<open>
  A config generated from a mold has each keyval of the mold with the default active at the
  version it is generated for: 7 for version 1.0 and, for the version of the mold, 9.
\<close>

theorem generated_values:
  "reads_after (versioned_mold @ [GenerateConfig (Some 0) (Some (Version 1 0)), GenerateConfig (Some 0) None]) [4, 6] ''k'' =
   Some [Some (OK, Some (QInteger 7)), Some (OK, Some (QInteger 9))]"
  by code_simp

section \<open>Writing below sections that do not exist\<close>

text \<open>A mold with a section \<open>s\<close>, at most one entry of it, that holds the integer \<open>k\<close> with the default 7.\<close>

definition optional_section :: "api_call list" where
  "optional_section =
     [MoldBegin, Begin (Some 0) CT_SECTION, SetName (Some 1) (Some ''s'') 1, Begin (Some 1) CT_KEYVAL,
      SetValueType (Some 2) VT_INTEGER, SetName (Some 2) (Some ''k'') 1, AddDefault (Some 2) (Some ''7'') 1 None,
      Finalize (Some 2), AddEntriesMin (Some 1) 0 None, AddEntriesMax (Some 1) 1 None, Finalize (Some 1),
      MoldFinalize (Some 0), GenerateConfig (Some 0) None]"

definition set_integer :: "string \<Rightarrow> 64 word \<Rightarrow> api_call" where
  "set_integer n i = ConfigSetKeyval VT_INTEGER (Some 6) (Some n) None 0 i dbl_zero"

text \<open>
  Writing a value creates the sections its name asks for, in order and no more than the mold
  allows: the entry 1 of the section is refused with NO_CAN_DO while there is no entry 0; writing
  to the entry 0 creates it; then the entry 1 is refused with RESTRICTION_VIOLATED.
\<close>

theorem set_creates_sections:
  "statuses_after optional_section [set_integer ''s@1.k'' 9, set_integer ''s.k'' 9, set_integer ''s@1.k'' 9] =
   Some [NO_CAN_DO, OK, RESTRICTION_VIOLATED]"
  by code_simp

section \<open>Updating\<close>

text \<open>
  A config of version 1.0 whose value the user has set to 8 is updated, the conflict resolved to a
  text, and the update completed: the texts of the conflict, the statuses, and the value the
  config handed out holds.
\<close>

definition updated_with :: "string \<Rightarrow>
    ((string option \<times> string option \<times> string option) option \<times> status list \<times> query_value option) option" where
  "updated_with x = do {
     (_, s) \<leftarrow> run (\<lambda>_. None) (versioned_mold @ [GenerateConfig (Some 0) (Some (Version 1 0)),
                 ConfigSetKeyval VT_INTEGER (Some 4) (Some ''k'') None 0 8 dbl_zero]) empty_store;
     (a, u, s) \<leftarrow> disir_update_config (Some 4) None True s;
     (b, conflict) \<leftarrow> disir_update_conflict u True s;
     (c, u, s) \<leftarrow> disir_update_resolve (\<lambda>_. None) u (Some x) s;
     (d, u, s) \<leftarrow> disir_update_continue u s;
     (e, config, s) \<leftarrow> disir_update_finished u True s;
     (f, v, _) \<leftarrow> disir_config_get_keyval_integer config True (Some ''k'') s;
     Some (conflict, [a, b, c, d, e, f], v) }"

text \<open>
  A value the user has changed whose default has changed, too: the update stops with CONFLICT,
  names the keyval, its value and the new default, and takes the value it is resolved to.
\<close>

theorem update_asks_for_changed_value:
  "updated_with ''8'' = Some (Some (Some ''k'', Some ''8'', Some ''9''), [CONFLICT, OK, OK, OK, OK, OK], Some (QInteger 8))"
  by code_simp

definition two_keyvals :: "api_call list" where
  "two_keyvals =
     [MoldBegin, Begin (Some 0) CT_KEYVAL, SetValueType (Some 1) VT_INTEGER, SetName (Some 1) (Some ''k'') 1,
      AddDefault (Some 1) (Some ''7'') 1 (Some (Version 1 0)), AddDefault (Some 1) (Some ''9'') 1 (Some (Version 2 0)),
      Finalize (Some 1), Begin (Some 0) CT_KEYVAL, SetValueType (Some 4) VT_INTEGER, SetName (Some 4) (Some ''u'') 1,
      AddDefault (Some 4) (Some ''1'') 1 (Some (Version 1 0)), Finalize (Some 4), MoldFinalize (Some 0),
      GenerateConfig (Some 0) (Some (Version 1 0)), ConfigSetKeyval VT_INTEGER (Some 6) (Some ''u'') None 0 5 dbl_zero]"

text \<open>
  An update of that config, in which \<open>k\<close> is at its old default and \<open>u\<close> was set to 5: the
  keyvals 7 and 8 of the config 6 are collected, one of them is updated, and the config 9
  generated for it is handed out.
\<close>

lemma keyval_at_code [code]:
  "keyval_at s q \<longleftrightarrow> (case ctxs s q of None \<Rightarrow> False
     | Some c \<Rightarrow> \<not> destroyed c \<and> 0 < cx_refcount c \<and> cx_type c = CT_KEYVAL)"
proof -
  have "dx_context_type_sanify CT_KEYVAL \<noteq> CT_UNKNOWN" by (simp add: dx_context_type_sanify_def)
  then show ?thesis by (cases "ctxs s q") (auto simp: keyval_at_def spare_def)
qed

lemma enough_code [code]:
  "enough s ps \<longleftrightarrow> list_all (\<lambda>p. case ctxs s p of None \<Rightarrow> False | Some c \<Rightarrow> refs_of ps p < cx_refcount c) ps"
  by (auto simp: enough_def list_all_iff split: option.splits)

definition ready_for_update :: "store \<Rightarrow> bool option" where
  "ready_for_update s = do {
     g \<leftarrow> get_config s 6;
     m \<leftarrow> get_mold s 0;
     (st1, config, s1) \<leftarrow> disir_generate_config_from_mold (Some 0) (Some (mo_version m)) s;
     (st2, coll, s2) \<leftarrow> retrieve_all_keyvals_recursively 6 dc_collection_create s1;
     h \<leftarrow> get_config s2 6;
     (k, r, rest, s3) \<leftarrow> migrate (mo_version m) 6 [7, 8] s2;
     Some (cf_mold g = Some 0 \<and> dc_version_compare (cf_version g) (mo_version m) < 0 \<and> st1 = OK \<and> config = Some 9 \<and>
       ctxs s 7 \<noteq> None \<and> ctxs s 8 \<noteq> None \<and> st2 = EXHAUSTED \<and> holds coll [7, 8] \<and> cc_iterator_index coll = 0 \<and>
       keyval_at s2 7 \<and> keyval_at s2 8 \<and> enough s2 [7, 8] \<and> k = 1 \<and> r = None) }"

theorem update_hands_out_generated_witness:
  "\<exists>rs s u s4 s5. run (\<lambda>_. None) two_keyvals empty_store = Some (rs, s) \<and>
     disir_update_config (Some 6) None True s = Some (OK, Some u, s4) \<and> up_updated u = 1 \<and>
     disir_update_finished (Some u) True s4 = Some (OK, Some 9, s5) \<and> ctxs s 9 = None"
proof -
  have "do { (_, s) \<leftarrow> run (\<lambda>_. None) two_keyvals empty_store; ready \<leftarrow> ready_for_update s; Some (ready \<and> ctxs s 9 = None) } = Some True"
    by code_simp
  then obtain rs s where run: "run (\<lambda>_. None) two_keyvals empty_store = Some (rs, s)" "ready_for_update s = Some True" "ctxs s 9 = None"
    by (auto simp: bind_eq_Some_conv simp del: run.simps)
  have s: "store_ok s" using run_reachable [OF run(1) reachable.start] by (rule reachable_store_ok)
  from run(2) obtain g m s1 coll s2 h s3 k r unseen where
    "get_config s 6 = Some g" "get_mold s 0 = Some m"
    "disir_generate_config_from_mold (Some 0) (Some (mo_version m)) s = Some (OK, Some 9, s1)"
    "retrieve_all_keyvals_recursively 6 dc_collection_create s1 = Some (EXHAUSTED, coll, s2)" "get_config s2 6 = Some h"
    "migrate (mo_version m) 6 [7, 8] s2 = Some (k, r, unseen, s3)"
    and facts: "cf_mold g = Some 0" "dc_version_compare (cf_version g) (mo_version m) < 0" "ctxs s 7 \<noteq> None" "ctxs s 8 \<noteq> None"
      "holds coll [7, 8]" "cc_iterator_index coll = 0" "keyval_at s2 7" "keyval_at s2 8" "enough s2 [7, 8]" "k = 1" "r = None"
    unfolding ready_for_update_def by (elim do_elims Pair_inject) blast
  note got = this(1-6) [unfolded facts(10,11)]
  have keyvals: "keyval_at s2 x" "ctxs s x \<noteq> None" if "x \<in> set [7, 8]" for x using that facts(3,4,7,8) by auto
  have "mo_version m = (case None of None \<Rightarrow> mo_version m | Some v \<Rightarrow> v)" by simp
  from update_hands_out_generated [OF s got(1) facts(1) got(2) facts(2) this got(3,4) _ facts(5,6) keyvals(1) facts(9) keyvals(2) got(6,5)] run
  show ?thesis by auto
qed

end
