(* ===== verification/Differences.thy ===== *)
theory Differences
  imports Compare Resolution
begin

text \<open>
  What the report of a comparison says: the default queues it accepts, and the restrictions it
  does not look at.
\<close>

section \<open>The queues\<close>

definition same_default :: "store \<Rightarrow> ptr \<Rightarrow> ptr \<Rightarrow> bool" where
  "same_default s l r = (case (get_default s l, get_default s r) of
     (Some x, Some y) \<Rightarrow> dc_version_compare (de_introduced x) (de_introduced y) = 0 \<and>
        dx_value_compare (de_value x) (de_value y) = Some 0
   | _ \<Rightarrow> False)"

text \<open>
  Comparing the defaults of two keyvals leaves the report as it is exactly when the queues
  have the same length and agree entry by entry in the version and in the value.
\<close>

theorem compare_defaults_silent:
  "compare_default_queues s ls rs report = Some report \<longleftrightarrow> list_all2 (same_default s) ls rs"
proof (induction ls arbitrary: rs)
  case Nil
  then show ?case by (cases rs) (simp_all add: dx_diff_report_add_def)
next
  case (Cons l ls)
  show ?case
  proof (cases rs)
    case Nil
    then show ?thesis by (simp add: dx_diff_report_add_def)
  next
    case rs: (Cons r rs')
    show ?thesis
    proof (cases "same_default s l r")
      case True
      then obtain x y where "get_default s l = Some x" "get_default s r = Some y"
        "dc_version_compare (de_introduced x) (de_introduced y) = 0" "dx_value_compare (de_value x) (de_value y) = Some 0"
        by (auto simp: same_default_def split: option.splits)
      with True rs show ?thesis using Cons.IH by simp
    next
      case False
      then show ?thesis using rs
        by (auto simp: same_default_def dx_diff_report_add_def bind_eq_Some_conv split: option.splits if_splits)
    qed
  qed
qed

text \<open>
  Of the restrictions of two keyvals or sections only the first are compared: whatever
  follows them, in number and in content, makes no difference to the report.
\<close>

theorem compare_restrictions_first_only:
  "compare_restriction_queue s (l # ls) (r # rs) report = compare_restriction_queue s [l] [r] report"
  by (simp add: compare_restriction_queue_def)

section \<open>A config compared with itself\<close>

definition more_refs :: "(ptr \<Rightarrow> int) \<Rightarrow> bool" where
  "more_refs d \<longleftrightarrow> (\<forall>x. 0 \<le> d x)"

lemma more_refs_add: "more_refs d \<Longrightarrow> more_refs (\<lambda>x. d x + one_ref q x)" "more_refs d \<Longrightarrow> more_refs (\<lambda>x. d x + refs_of ps x)"
  by (auto simp: more_refs_def one_ref_def refs_of_nonneg add_nonneg_nonneg)

lemma put_one: "store_ok s \<Longrightarrow> more_refs d \<Longrightarrow> spare s q \<Longrightarrow>
    dc_putcontext (Some q) (add_refs (\<lambda>x. d x + one_ref q x) s) = Some (OK, add_refs d s)"
  by (rule put_back) (simp_all add: more_refs_def)

definition has_name :: "store \<Rightarrow> ptr \<Rightarrow> string \<Rightarrow> bool" where
  "has_name s q n \<longleftrightarrow> (\<exists>v. get_name_value s q = Some v \<and> name_cstr v = Some (Some n))"

lemma get_name_add_refs [simp]: "get_name_value (add_refs d s) q = get_name_value s q"
  by (cases "ctxs s q") (simp_all add: get_name_value_def dc_context_type_def get_keyval_def get_section_def)

lemma has_name_get:
  assumes "has_name s q n" and "spare s q" and "more_refs d"
  shows "\<exists>sz. dc_get_name (Some q) (add_refs d s) = Some (OK, Some (Some n, sz), add_refs d s)"
proof -
  have "spare (add_refs d s) q" using assms(2,3) spare_add_refs [of d s q] by (simp add: more_refs_def)
  moreover obtain v where v: "get_name_value s q = Some v" "name_cstr v = Some (Some n)" using assms(1) by (auto simp: has_name_def)
  moreover obtain c where c: "ctxs s q = Some c" using assms(2) by (auto simp: spare_def)
  then have "cx_type c = CT_KEYVAL \<or> cx_type c = CT_SECTION"
    using v(1) by (auto simp: get_name_value_def dc_context_type_def dx_context_type_sanify_def split: if_splits)
  then have "dx_context_type_check q [CT_KEYVAL, CT_SECTION] (add_refs d s) = Some OK"
    using c by (auto simp: dx_context_type_check_def dx_context_type_sanify_def)
  ultimately show ?thesis by (simp add: dc_get_name_def)
qed

text \<open>A differ that says of each of these contexts that it is the same as itself.\<close>

definition silent :: "differ \<Rightarrow> store \<Rightarrow> ptr set \<Rightarrow> bool" where
  "silent D s ps \<longleftrightarrow> (\<forall>q \<in> ps. \<forall>d report. more_refs d \<longrightarrow> D q q report (add_refs d s) = Some (OK, report, add_refs d s))"

lemma silent_subset: "silent D s A \<Longrightarrow> B \<subseteq> A \<Longrightarrow> silent D s B"
  unfolding silent_def by blast

lemma pair_loop_same:
  assumes s: "store_ok s" and ps: "\<And>q. q \<in> set ps \<Longrightarrow> spare s q" and D: "silent D s (set ps)"
  shows "holds lc ps \<Longrightarrow> holds rc ps \<Longrightarrow> cc_iterator_index rc = cc_iterator_index lc \<Longrightarrow> cc_iterator_index lc \<le> length ps \<Longrightarrow>
    length ps - cc_iterator_index lc < n \<Longrightarrow> more_refs d \<Longrightarrow>
    pair_loop D p n lc rc report (add_refs d s) =
      Some (OK, None, None, lc\<lparr>cc_iterator_index := length ps\<rparr>, rc\<lparr>cc_iterator_index := length ps\<rparr>, report, add_refs d s)"
proof (induction n arbitrary: lc rc d)
  case (Suc n)
  let ?i = "cc_iterator_index lc"
  have live: "live s q" if "q \<in> set ps" for q using spare_live [OF ps [OF that]] .
  note nl = next_add_refs [OF Suc.prems(1) live] and nr = next_add_refs [OF Suc.prems(2) live]
  show ?case
  proof (cases "?i < length ps")
    case False
    then have "?i = length ps" using Suc.prems(4) by simp
    then have "lc\<lparr>cc_iterator_index := length ps\<rparr> = lc" "rc\<lparr>cc_iterator_index := length ps\<rparr> = rc" using Suc.prems(3) by simp_all
    with False nl [of d] show ?thesis by simp
  next
    case True
    let ?q = "ps ! ?i"
    let ?e = "\<lambda>x. d x + one_ref ?q x"
    have q: "?q \<in> set ps" using True by simp
    have D1: "D ?q ?q report (add_refs (\<lambda>x. ?e x + one_ref ?q x) s) = Some (OK, report, add_refs (\<lambda>x. ?e x + one_ref ?q x) s)"
      using D q more_refs_add(1) [OF more_refs_add(1) [OF Suc.prems(6)]] unfolding silent_def by blast
    have "length ps - cc_iterator_index (lc\<lparr>cc_iterator_index := ?i + 1\<rparr>) < n" using Suc.prems(5) True by simp
    from Suc.IH [OF _ _ _ _ this Suc.prems(6), of "rc\<lparr>cc_iterator_index := ?i + 1\<rparr>"]
    have IH: "pair_loop D p n (lc\<lparr>cc_iterator_index := ?i + 1\<rparr>) (rc\<lparr>cc_iterator_index := ?i + 1\<rparr>) report (add_refs d s) =
        Some (OK, None, None, lc\<lparr>cc_iterator_index := length ps\<rparr>, rc\<lparr>cc_iterator_index := length ps\<rparr>, report, add_refs d s)"
      using Suc.prems(1,2) True by (simp add: holds_def)
    show ?thesis
      using True nl [of d] nr [of ?e] D1 IH Suc.prems(3) put_one [OF s more_refs_add(1) [OF Suc.prems(6)] ps [OF q], of ?q]
        put_one [OF s Suc.prems(6) ps [OF q]] by simp
  qed
qed simp

lemma rest_loop_done:
  assumes "holds rc ps" and "cc_iterator_index rc = length ps" and "\<And>q. q \<in> set ps \<Longrightarrow> live s q"
  shows "rest_loop p (Suc n) rc report (add_refs d s) = Some (rc, report, add_refs d s)"
  using next_add_refs [OF assms(1,3), of d] assms(2) by simp

lemma compare_in_name_same:
  assumes s: "store_ok s" and p: "elements_spare s p xs" and n: "n \<in> fst ` set xs" and D: "silent D s (snd ` set xs)" and d: "more_refs d"
  shows "compare_in_name_with D p p n report (add_refs d s) = Some (OK, report, add_refs d s)"
proof -
  let ?ps = "entries_of n xs"
  let ?e = "\<lambda>x. d x + refs_of ?ps x"
  have ne: "?ps \<noteq> []" using n set_entries_of [of _ n xs] by force
  have sub: "set ?ps \<subseteq> snd ` set xs" using snd_entries_of by auto
  have sp: "spare s q" if "q \<in> set ?ps" for q using that sub p by (auto simp: elements_spare_def)
  have live: "live s q" if "q \<in> set ?ps" for q using spare_live [OF sp [OF that]] .
  have find: "\<exists>col. dc_find_elements (Some p) (Some n) (add_refs f s) = Some (OK, Some col, add_refs (\<lambda>x. f x + refs_of ?ps x) s) \<and>
      holds col ?ps \<and> cc_iterator_index col = 0" if "more_refs f" for f
    using find_elements_spec [of "add_refs f s" p xs n] ne that elements_spare_add_refs [of f s p xs] p
    by (auto simp: elements_spare_def more_refs_def add.commute)
  have e: "more_refs ?e" "more_refs (\<lambda>x. ?e x + refs_of ?ps x)" using more_refs_add(2) [OF d] more_refs_add(2) [OF more_refs_add(2) [OF d]] .
  obtain lc where lc: "dc_find_elements (Some p) (Some n) (add_refs d s) = Some (OK, Some lc, add_refs ?e s)"
    "holds lc ?ps" "cc_iterator_index lc = 0" using find [OF d] by blast
  obtain rc where rc: "dc_find_elements (Some p) (Some n) (add_refs ?e s) = Some (OK, Some rc, add_refs (\<lambda>x. ?e x + refs_of ?ps x) s)"
    "holds rc ?ps" "cc_iterator_index rc = 0" using find [OF e(1)] by blast
  let ?lc = "lc\<lparr>cc_iterator_index := length ?ps\<rparr>" and ?rc = "rc\<lparr>cc_iterator_index := length ?ps\<rparr>"
  have h: "holds ?lc ?ps" "holds ?rc ?ps" using lc(2) rc(2) by (simp_all add: holds_def)
  have "silent D s (set ?ps)" using silent_subset [OF D sub] .
  moreover have "length ?ps - cc_iterator_index lc < cc_numentries lc + 1" using lc(2) by (simp add: holds_def)
  moreover have "cc_iterator_index rc = cc_iterator_index lc" "cc_iterator_index lc \<le> length ?ps" using lc(3) rc(3) by simp_all
  ultimately have "pair_loop D p (cc_numentries lc + 1) lc rc report (add_refs (\<lambda>x. ?e x + refs_of ?ps x) s) =
      Some (OK, None, None, ?lc, ?rc, report, add_refs (\<lambda>x. ?e x + refs_of ?ps x) s)"
    using pair_loop_same [OF s sp _ lc(2) rc(2) _ _ _ e(2)] by blast
  moreover have "rest_loop p (cc_numentries ?rc + 1) ?rc report (add_refs (\<lambda>x. ?e x + refs_of ?ps x) s) =
      Some (?rc, report, add_refs (\<lambda>x. ?e x + refs_of ?ps x) s)"
    using rest_loop_done [OF h(2) _ live, where n = "cc_numentries ?rc"] by simp
  moreover have "dc_collection_finished (Some ?lc) (add_refs (\<lambda>x. ?e x + refs_of ?ps x) s) = Some (OK, add_refs ?e s)"
    using finished_add_refs [where d = ?e, OF s _ h(1) live] e(1) by (simp add: more_refs_def)
  moreover have "dc_collection_finished (Some ?rc) (add_refs ?e s) = Some (OK, add_refs d s)"
    using finished_add_refs [where d = d, OF s _ h(2) live] d by (simp add: more_refs_def)
  ultimately show ?thesis using lc(1) rc(1)
    by (simp add: compare_in_name_with_def put_variable_def del: rest_loop.simps pair_loop.simps)
qed

text \<open>The loops over all elements of both sides; \<open>seen\<close> are the names the map holds.\<close>

definition named :: "store \<Rightarrow> (string \<times> ptr) list \<Rightarrow> bool" where
  "named s xs \<longleftrightarrow> (\<forall>(n, q) \<in> set xs. has_name s q n)"

lemma left_loop_same:
  assumes s: "store_ok s" and p: "elements_spare s p xs" and nm: "named s xs" and D: "silent D s (snd ` set xs)"
  shows "holds lc (map snd xs) \<Longrightarrow> cc_iterator_index lc \<le> length xs \<Longrightarrow> length xs - cc_iterator_index lc < n \<Longrightarrow>
    more_refs d \<Longrightarrow> map_of_names m (fst ` set (take (cc_iterator_index lc) xs)) \<Longrightarrow>
    \<exists>m'. left_loop D p p n lc m report (add_refs d s) =
      Some (lc\<lparr>cc_iterator_index := length xs\<rparr>, m', report, add_refs d s) \<and> map_of_names m' (fst ` set xs)"
proof (induction n arbitrary: lc m)
  case (Suc n)
  let ?i = "cc_iterator_index lc"
  have sp: "spare s q" if "q \<in> set (map snd xs)" for q using that p by (auto simp: elements_spare_def)
  have live: "live s q" if "q \<in> set (map snd xs)" for q using spare_live [OF sp [OF that]] .
  note nl = next_add_refs [OF Suc.prems(1) live, of d]
  show ?case
  proof (cases "?i < length xs")
    case False
    then have i: "?i = length xs" using Suc.prems(2) by simp
    then have "lc\<lparr>cc_iterator_index := length xs\<rparr> = lc" by simp
    with False nl i Suc.prems(5) show ?thesis by simp
  next
    case True
    obtain k q where kq: "xs ! ?i = (k, q)" by force
    then have mem: "(k, q) \<in> set xs" using True nth_mem by metis
    then have q: "spare s q" "has_name s q k" "k \<in> fst ` set xs" using sp nm by (force simp: named_def)+
    let ?lc = "lc\<lparr>cc_iterator_index := ?i + 1\<rparr>"
    have nxt: "dc_collection_next lc (add_refs d s) = Some (OK, Some q, ?lc, add_refs (\<lambda>x. d x + one_ref q x) s)"
      using nl True kq by simp
    obtain sz where name: "dc_get_name (Some q) (add_refs (\<lambda>x. d x + one_ref q x) s) =
        Some (OK, Some (Some k, sz), add_refs (\<lambda>x. d x + one_ref q x) s)"
      using has_name_get [OF q(2,1) more_refs_add(1) [OF Suc.prems(4)]] by blast
    note put = put_one [OF s Suc.prems(4) q(1)]
    have seen: "fst ` set (take (?i + 1) xs) = insert k (fst ` set (take ?i xs))"
      using True kq by (simp add: take_Suc_conv_app_nth)
    have h: "holds ?lc (map snd xs)" "cc_iterator_index ?lc \<le> length xs" "length xs - cc_iterator_index ?lc < n"
      using Suc.prems(1,3) True by (auto simp: holds_def)
    note IH = Suc.IH [OF h Suc.prems(4)]
    show ?thesis
    proof (cases "k \<in> fst ` set (take ?i xs)")
      case old: True
      then have "map_of_names m (fst ` set (take (cc_iterator_index ?lc) xs))" using Suc.prems(5) seen by (simp add: insert_absorb)
      from IH [OF this] show ?thesis using nxt name put old Suc.prems(5) by (simp add: map_of_names_def)
    next
      case False
      obtain r m' where m': "multimap_push_value strcmp djb2 m k 1 = Some (r, m')"
        "map_of_names m' (insert k (fst ` set (take ?i xs)))" using map_of_names_push [OF Suc.prems(5)] by blast
      then have "map_of_names m' (fst ` set (take (cc_iterator_index ?lc) xs))" using seen by simp
      from IH [OF this] show ?thesis
        using nxt name put False Suc.prems(5) m'(1) compare_in_name_same [OF s p q(3) D Suc.prems(4), of report]
        by (simp add: map_of_names_def)
    qed
  qed
qed simp

lemma right_loop_same:
  assumes s: "store_ok s" and p: "elements_spare s p xs" and nm: "named s xs" and m: "map_of_names m (fst ` set xs)"
  shows "holds rc (map snd xs) \<Longrightarrow> cc_iterator_index rc \<le> length xs \<Longrightarrow> length xs - cc_iterator_index rc < n \<Longrightarrow> more_refs d \<Longrightarrow>
    right_loop n rc m report (add_refs d s) = Some (OK, None, rc\<lparr>cc_iterator_index := length xs\<rparr>, report, add_refs d s)"
proof (induction n arbitrary: rc)
  case (Suc n)
  let ?i = "cc_iterator_index rc"
  have sp: "spare s q" if "q \<in> set (map snd xs)" for q using that p by (auto simp: elements_spare_def)
  have live: "live s q" if "q \<in> set (map snd xs)" for q using spare_live [OF sp [OF that]] .
  note nr = next_add_refs [OF Suc.prems(1) live, of d]
  show ?case
  proof (cases "?i < length xs")
    case False
    then have i: "?i = length xs" using Suc.prems(2) by simp
    then have "rc\<lparr>cc_iterator_index := length xs\<rparr> = rc" by simp
    with False nr i show ?thesis by simp
  next
    case True
    obtain k q where kq: "xs ! ?i = (k, q)" by force
    then have mem: "(k, q) \<in> set xs" using True nth_mem by metis
    then have q: "spare s q" "has_name s q k" "k \<in> fst ` set xs" using sp nm by (force simp: named_def)+
    let ?rc = "rc\<lparr>cc_iterator_index := ?i + 1\<rparr>"
    have nxt: "dc_collection_next rc (add_refs d s) = Some (OK, Some q, ?rc, add_refs (\<lambda>x. d x + one_ref q x) s)"
      using nr True kq by simp
    obtain sz where name: "dc_get_name (Some q) (add_refs (\<lambda>x. d x + one_ref q x) s) =
        Some (OK, Some (Some k, sz), add_refs (\<lambda>x. d x + one_ref q x) s)"
      using has_name_get [OF q(2,1) more_refs_add(1) [OF Suc.prems(4)]] by blast
    have h: "holds ?rc (map snd xs)" "cc_iterator_index ?rc \<le> length xs" "length xs - cc_iterator_index ?rc < n"
      using Suc.prems(1,3) True by (auto simp: holds_def)
    from Suc.IH [OF h Suc.prems(4)] show ?thesis
      using nxt name put_one [OF s Suc.prems(4) q(1)] q(3) m by (simp add: map_of_names_def)
  qed
qed simp

lemma get_all_elements:
  assumes "elements_spare s p xs" and "more_refs d"
  shows "\<exists>coll. dc_get_elements (Some p) (add_refs d s) = Some (OK, Some coll, add_refs (\<lambda>x. d x + refs_of (map snd xs) x) s) \<and>
    holds coll (map snd xs) \<and> cc_iterator_index coll = 0"
proof -
  have "parent_ok (add_refs d s) p xs"
    using elements_spare_add_refs [of d s p xs] assms by (simp add: elements_spare_def more_refs_def)
  then show ?thesis using collect_elements [OF assms(1), of d] parent_ok_checks by (auto simp: dc_get_elements_def)
qed

lemma compare_all_same:
  assumes s: "store_ok s" and p: "elements_spare s p xs" and nm: "named s xs" and D: "silent D s (snd ` set xs)" and d: "more_refs d"
  shows "compare_all_elements_with D p p report (add_refs d s) = Some (OK, report, add_refs d s)"
proof -
  let ?ps = "map snd xs"
  let ?e = "\<lambda>x. d x + refs_of ?ps x"
  have e: "more_refs ?e" "more_refs (\<lambda>x. ?e x + refs_of ?ps x)"
    using more_refs_add(2) [OF d] more_refs_add(2) [OF more_refs_add(2) [OF d]] .
  have live: "live s q" if "q \<in> set ?ps" for q using that p by (auto simp: elements_spare_def intro: spare_live)
  obtain lc where lc: "dc_get_elements (Some p) (add_refs d s) = Some (OK, Some lc, add_refs ?e s)"
    "holds lc ?ps" "cc_iterator_index lc = 0" using get_all_elements [OF p d] by blast
  obtain rc where rc: "dc_get_elements (Some p) (add_refs ?e s) = Some (OK, Some rc, add_refs (\<lambda>x. ?e x + refs_of ?ps x) s)"
    "holds rc ?ps" "cc_iterator_index rc = 0" using get_all_elements [OF p e(1)] by blast
  let ?lc = "lc\<lparr>cc_iterator_index := length xs\<rparr>" and ?rc = "rc\<lparr>cc_iterator_index := length xs\<rparr>"
  have h: "holds ?lc ?ps" "holds ?rc ?ps" using lc(2) rc(2) by (simp_all add: holds_def)
  have n: "cc_iterator_index lc \<le> length xs" "length xs - cc_iterator_index lc < cc_numentries lc + 1"
    "cc_iterator_index rc \<le> length xs" "length xs - cc_iterator_index rc < cc_numentries rc + 1"
    using lc(2,3) rc(2,3) by (simp_all add: holds_def)
  have "map_of_names multimap_create (fst ` set (take (cc_iterator_index lc) xs))" using map_of_no_names lc(3) by simp
  then obtain m where m: "left_loop D p p (cc_numentries lc + 1) lc multimap_create report (add_refs ?e s) =
      Some (?lc, m, report, add_refs ?e s)" "map_of_names m (fst ` set xs)"
    using left_loop_same [OF s p nm D lc(2) n(1,2) e(1)] by blast
  have r: "right_loop (cc_numentries rc + 1) rc m report (add_refs (\<lambda>x. ?e x + refs_of ?ps x) s) =
      Some (OK, None, ?rc, report, add_refs (\<lambda>x. ?e x + refs_of ?ps x) s)"
    using right_loop_same [OF s p nm m(2) rc(2) n(3,4) e(2)] .
  have "dc_collection_finished (Some ?lc) (add_refs (\<lambda>x. ?e x + refs_of ?ps x) s) = Some (OK, add_refs ?e s)"
    using finished_add_refs [where d = ?e, OF s _ h(1) live] e(1) by (simp add: more_refs_def)
  moreover have "dc_collection_finished (Some ?rc) (add_refs ?e s) = Some (OK, add_refs d s)"
    using finished_add_refs [where d = d, OF s _ h(2) live] d by (simp add: more_refs_def)
  ultimately show ?thesis using lc(1) rc(1) m(1) r
    by (simp add: compare_all_elements_with_def put_variable_def del: left_loop.simps right_loop.simps)
qed

text \<open>
  \<open>config_tree s n p\<close>: the context \<open>p\<close> of a config has at most \<open>n\<close> levels; its elements are
  in use and have the names they are stored under, and its values compare equal with themselves,
  which all but floats that are not finite do.
\<close>

definition in_config :: "store \<Rightarrow> disir_context \<Rightarrow> bool" where
  "in_config s c \<longleftrightarrow> (\<exists>r rc. cx_root c = Some r \<and> ctxs s r = Some rc \<and> cx_type rc = CT_CONFIG)"

inductive config_tree :: "store \<Rightarrow> nat \<Rightarrow> ptr \<Rightarrow> bool" for s where
  keyval: "ctxs s p = Some c \<Longrightarrow> cx_type c = CT_KEYVAL \<Longrightarrow> cx_obj c = Some (OKeyval k) \<Longrightarrow> in_config s c \<Longrightarrow>
    dx_value_compare (kv_value k) (kv_value k) = Some 0 \<Longrightarrow> config_tree s (Suc n) p"
| elements: "ctxs s p = Some c \<Longrightarrow> cx_type c = CT_CONFIG \<or> cx_type c = CT_SECTION \<Longrightarrow> in_config s c \<Longrightarrow>
    elements_spare s p xs \<Longrightarrow> named s xs \<Longrightarrow> (\<And>q. q \<in> snd ` set xs \<Longrightarrow> config_tree s n q) \<Longrightarrow> config_tree s (Suc n) p"

lemma tree_silent:
  assumes s: "store_ok s"
  shows "config_tree s n p \<Longrightarrow> more_refs d \<Longrightarrow> n \<le> m \<Longrightarrow> diff_fuel m p p report (add_refs d s) = Some (OK, report, add_refs d s)"
proof (induction arbitrary: d m report rule: config_tree.induct)
  case (keyval p c k n)
  then obtain m' r rc where m: "m = Suc m'" and r: "cx_root c = Some r" "ctxs s r = Some rc" "cx_type rc = CT_CONFIG"
    by (cases m) (auto simp: in_config_def)
  have "get_keyval (add_refs d s) p = Some k" using keyval(1,3) by (simp add: get_keyval_def)
  then show ?case using keyval r
    by (simp add: m diff_compare_with_def compare_keyvals_def dc_value_type_def dc_context_type_def dx_context_type_sanify_def)
next
  case (elements p c xs n)
  then obtain m' r rc where m: "m = Suc m'" and r: "cx_root c = Some r" "ctxs s r = Some rc" "cx_type rc = CT_CONFIG"
    by (cases m) (auto simp: in_config_def)
  have "silent (diff_fuel m') s (snd ` set xs)"
    unfolding silent_def using elements(7,9) m by auto
  from compare_all_same [OF s elements(4,5) this elements(8)]
  have all: "compare_all_elements_with (diff_fuel m') p p report (add_refs d s) = Some (OK, report, add_refs d s)" for report .
  have sec: "cx_type c = CT_SECTION \<Longrightarrow> \<exists>x. get_section (add_refs d s) p = Some x"
  proof -
    assume "cx_type c = CT_SECTION"
    obtain e x where "cx_obj c = Some x" "get_elements s p = Some e"
      using elements(1,4) by (auto simp: elements_spare_def parent_ok_def elements_rel_def get_elements_def bind_eq_Some_conv)
    then show ?thesis using store_okD [OF s elements(1)] elements(1) \<open>cx_type c = CT_SECTION\<close>
      by (cases x) (simp_all add: object_ok_def get_section_def)
  qed
  show ?case using elements(1,2) r all sec
    by (auto simp: m diff_compare_with_def dc_value_type_def dc_context_type_def dx_context_type_sanify_def)
qed

text \<open>
  C10. A config compared with itself does not differ: \<^verbatim>\<open>dc_compare\<close> returns OK without a report for
  a config, or a section or keyval of one, of any shape and depth, and gives back every reference
  it took, although it only keeps the names it has seen in a hash map.
\<close>

theorem compare_with_itself:
  assumes "store_ok s" and "config_tree s n p" and "n \<le> next_ptr s"
  shows "dc_compare (Some p) (Some p) has_report s = Some (OK, None, s)"
  using tree_silent [OF assms(1,2), of "\<lambda>_. 0" "next_ptr s + 1" "[]"] assms(3)
  by (simp add: dc_compare_def diff_compare_contexts_with_report_def dx_diff_report_create_def more_refs_def del: diff_fuel.simps)

text \<open>A config with an integer keyval and an empty section.\<close>

definition name_value :: "string \<Rightarrow> disir_value" where
  "name_value n = \<lparr>dv_type = VT_STRING, dv_data = PStr (length n + 1) n, dv_size = int (length n)\<rparr>"

definition named_store :: "element_storage \<Rightarrow> store" where
  "named_store st =
     \<lparr>ctxs = [0 \<mapsto> sample_context CT_CONFIG (OConfig (dx_config_create\<lparr>cf_elements := Some st\<rparr>)),
              1 \<mapsto> sample_context CT_KEYVAL (OKeyval (sample_keyval\<lparr>kv_name := name_value ''key'',
                    kv_value := \<lparr>dv_type = VT_INTEGER, dv_data = PInt 4, dv_size = 0\<rparr>\<rparr>)),
              2 \<mapsto> sample_context CT_SECTION (OSection (dx_section_create\<lparr>se_name := name_value ''s'',
                    se_elements := Some storage_create\<rparr>))],
      next_ptr = 3\<rparr>"

lemma named_store_ok: "store_ok (named_store st)"
  by (auto simp: store_ok_def named_store_def sample_context_def object_ok_def split: if_splits)

lemma named_store_facts:
  assumes "es_rel st [(''key'', 1), (''s'', 2)]"
  shows "elements_spare (named_store st) 0 [(''key'', 1), (''s'', 2)]" "elements_spare (named_store st) 2 []"
    "named (named_store st) [(''key'', 1), (''s'', 2)]" "named (named_store st) []"
  using assms es_rel_create
  by (auto simp: elements_spare_def parent_ok_def elements_rel_def get_elements_def spare_def live_def named_store_def
      sample_context_def dx_context_type_sanify_def named_def has_name_def get_name_value_def dc_context_type_def
      get_keyval_def get_section_def name_value_def name_cstr_def cstr_def nul_def)

lemma named_store_tree:
  assumes "es_rel st [(''key'', 1), (''s'', 2)]"
  shows "config_tree (named_store st) 2 0"
proof -
  let ?s = "named_store st"
  have root: "in_config ?s c" if "cx_root c = Some 0" for c
    using that by (simp add: in_config_def named_store_def sample_context_def)
  obtain c0 c1 c2 k where c: "ctxs ?s 0 = Some c0" "cx_type c0 = CT_CONFIG" "cx_root c0 = Some 0"
    "ctxs ?s 1 = Some c1" "cx_type c1 = CT_KEYVAL" "cx_root c1 = Some 0" "cx_obj c1 = Some (OKeyval k)"
    "dx_value_compare (kv_value k) (kv_value k) = Some 0"
    "ctxs ?s 2 = Some c2" "cx_type c2 = CT_SECTION" "cx_root c2 = Some 0"
    by (simp add: named_store_def sample_context_def sample_keyval_def dx_value_compare_def to_int32_def)
  have keyval: "config_tree ?s 1 1" using config_tree.keyval [OF c(4,5,7) root [OF c(6)] c(8), of 0] by simp
  have "config_tree ?s 1 2"
    using config_tree.elements [OF c(9) _ root [OF c(11)] named_store_facts(2) [OF assms] named_store_facts(4) [OF assms], of 0] c(10) by simp
  with keyval have "config_tree ?s 1 q" if "q \<in> snd ` set [(''key'', 1), (''s'', 2)]" for q using that by auto
  from config_tree.elements [OF c(1) _ root [OF c(3)] named_store_facts(1) [OF assms] named_store_facts(3) [OF assms] this] c(2)
  show ?thesis by (simp add: numeral_2_eq_2)
qed

theorem compare_with_itself_witness:
  "\<exists>st. es_rel st [(''key'', 1), (''s'', 2)] \<and> dc_compare (Some 0) (Some 0) True (named_store st) = Some (OK, None, named_store st)"
proof -
  obtain st1 where "es_rel st1 [(''key'', 1)]" using es_rel_add [OF es_rel_create, of 1 "''key''"] by auto
  then obtain st where st: "es_rel st [(''key'', 1), (''s'', 2)]" using es_rel_add [of st1 _ 2 "''s''"] by fastforce
  have "2 \<le> next_ptr (named_store st)" by (simp add: named_store_def)
  from compare_with_itself [OF named_store_ok named_store_tree [OF st] this, of True] st show ?thesis by blast
qed

end
