(* ===== verification/Generation.thy ===== *)
theory Generation
  imports Api "HOL-Library.Code_Target_Nat"
begin

text \<open>What generating a config from a mold hands out.\<close>

lemma begin_config:
  "dc_config_begin (Some q) True s = Some (st, r, s') \<Longrightarrow> st = OK \<and> r = Some (next_ptr s) \<and> next_ptr s' = next_ptr s + 1"
  by (auto simp: dc_config_begin_def dx_context_create_def dx_context_type_sanify_def bind_eq_Some_conv set_obj_Some upd_Some
      Let_def split: if_splits)

lemma finalize_config:
  "dc_config_finalize (Some p) True s = Some (OK, r, c, s') \<Longrightarrow>
   r = Some p \<and> (\<exists>x. ctxs s' p = Some x \<and> finalized x \<and> \<not> constructing x)"
  unfolding dc_config_finalize_def toplevel_finalize_def
  by (elim do_elims Pair_inject; (hypsubst | erule Pair_inject)+;
      auto simp: upd_Some bind_eq_Some_conv split: if_splits)

text \<open>
  C21. A config generated from a mold without an error is a context of its own, at the next free
  address, finalized and no longer under construction, and has the version it was asked for or,
  when none was asked for, the version of the mold.
\<close>

theorem generated_config:
  assumes "disir_generate_config_from_mold (Some q) v s = Some (OK, r, s')"
  shows "r = Some (next_ptr s) \<and> next_ptr s < next_ptr s' \<and>
    (\<exists>c g. ctxs s' (next_ptr s) = Some c \<and> finalized c \<and> \<not> constructing c \<and> get_config s' (next_ptr s) = Some g \<and>
       (case v of Some w \<Rightarrow> cf_version g = w
        | None \<Rightarrow> \<exists>m. get_mold s' q = Some m \<and> cf_version g = mo_version m))"
proof -
  let ?p = "next_ptr s"
  note run = assms [unfolded disir_generate_config_from_mold_def, simplified]
  obtain z where z: "dc_config_begin (Some q) True s = Some z" using run by (cases "dc_config_begin (Some q) True s") simp_all
  then obtain s1 where s1: "dc_config_begin (Some q) True s = Some (OK, Some ?p, s1)" "next_ptr s1 = ?p + 1"
    using begin_config [of q s] by (cases z) auto
  let ?v = "case v of None \<Rightarrow> dc_get_version (Some q) s1 | Some v \<Rightarrow> Some (OK, Some v, s1)"
  note run = run [unfolded s1(1), simplified]
  obtain w s2 where s2: "?v = Some (OK, Some w, s2)"
    using run by (cases ?v) (auto simp: bind_eq_Some_conv split: if_splits)
  note run = run [unfolded s2, simplified]
  obtain s3 where s3: "dc_set_version (Some ?p) (Some w) s2 = Some (OK, s3)"
    using run by (cases "dc_set_version (Some ?p) (Some w) s2") (auto split: if_splits)
  note run = run [unfolded s3, simplified]
  obtain st s4 where s4: "generate_config_from_mold_recursive_step (Some q) (Some ?p) w False s3 = Some (st, s4)"
    using run by (cases "generate_config_from_mold_recursive_step (Some q) (Some ?p) w False s3") auto
  note run = run [unfolded s4, simplified]
  obtain r1 c s5 where s5: "dc_config_finalize (Some ?p) True s4 = Some (OK, r1, c, s5)"
    using run by (cases "dc_config_finalize (Some ?p) True s4") (auto simp: bind_eq_Some_conv split: if_splits)
  obtain x where x: "r1 = Some ?p" "ctxs s5 ?p = Some x" "finalized x" "\<not> constructing x" using finalize_config [OF s5] by blast
  note run = run [unfolded s5 x(1), simplified]
  then obtain g m where g: "get_config s5 ?p = Some g" "get_mold s5 q = Some m" "r = Some ?p"
    "set_obj ?p (OConfig (g\<lparr>cf_version := (case v of None \<Rightarrow> mo_version m | Some v \<Rightarrow> v)\<rparr>)) s5 = Some s'"
    by (auto simp: bind_eq_Some_conv)
  have "evolves s1 s2" using s2
    by (cases v) (simp_all, erule evolving, simp)
  with s3 have "evolves s1 s3" by - (erule evolving)
  with s4 have "evolves s1 s4" by - (erule evolving)
  with s5 have "evolves s1 s5" by - (erule evolving)
  with g(4) have "evolves s1 s'" by - (erule evolving)
  then have "?p < next_ptr s'" using s1(2) by (simp add: evolves_def)
  moreover have "q \<noteq> ?p"
    using g(1,2) by (auto simp: get_mold_def get_config_def bind_eq_Some_conv split: option.splits disir_object.splits)
  then have "get_mold s' q = Some m" using g by (auto simp: set_obj_Some get_mold_def)
  ultimately show ?thesis using x g by (auto simp: set_obj_Some get_config_def split: option.splits)
qed

definition empty_mold :: "api_call list" where
  "empty_mold = [MoldBegin, MoldFinalize (Some 0)]"

theorem generated_config_witness:
  "\<exists>rs s s' c. run (\<lambda>_. None) empty_mold empty_store = Some (rs, s) \<and>
     disir_generate_config_from_mold (Some 0) None s = Some (OK, Some (next_ptr s), s') \<and>
     ctxs s' (next_ptr s) = Some c \<and> finalized c"
proof -
  have "(case run (\<lambda>_. None) empty_mold empty_store of None \<Rightarrow> None
     | Some (_, s) \<Rightarrow> map_option (\<lambda>(st, _, _). st) (disir_generate_config_from_mold (Some 0) None s)) = Some OK"
    by code_simp
  then obtain rs s r s' where "run (\<lambda>_. None) empty_mold empty_store = Some (rs, s)"
    and g: "disir_generate_config_from_mold (Some 0) None s = Some (OK, r, s')"
    by (auto split: option.splits)
  with generated_config [OF g] show ?thesis by auto
qed

end
