(* ===== verification/Instances.thy ===== *)
theory Instances
  imports Context
begin

text \<open>
  The instance of the library and its plugins (\<^verbatim>\<open>struct disir_instance\<close> and
  \<^verbatim>\<open>struct disir_register_plugin_internal\<close> of src/lib/include/disir_private.h,
  \<^verbatim>\<open>struct disir_register_plugin\<close> of src/include/disir/plugin.h), its error text
  (src/lib/error.c, and the buffer of src/lib/log.c it lives in), the registration of plugins
  (src/lib/disir_plugin.c) and the operations that hand a config or mold to the plugin of a group
  (src/lib/disir_config.c, src/lib/disir_mold.c).

  The callbacks of a plugin are parameters: the functions in its record. They act on the
  environment \<open>'w env\<close>, which holds the heap of contexts, the entries they hand out, the error
  text of the instance, and in \<open>env_world\<close> whatever is outside the library (files, the storage
  of the plugin); \<open>None\<close> is a callback that crashes or does not return. A callback receives the
  settings of its plugin; what it does with the other plugins of the instance is part of the
  parameter. The queue of plugins is the list of its entries.
\<close>

section \<open>The state\<close>

record disir_entry =
  de_entry_name :: string
  de_attributes :: "32 word"
  de_next :: "ptr option"
  de_prev :: "ptr option"

text \<open>\<^verbatim>\<open>disir_error_message_size\<close> is the length of the message buffer, and NULL the empty one.\<close>

record 'w env =
  env_world :: 'w
  env_store :: store
  env_entries :: "ptr \<Rightarrow> disir_entry option"
  disir_error_message :: string

record plugin_settings =
  dp_major_version :: "32 word"
  dp_minor_version :: "32 word"
  dp_name :: "string option"
  dp_description :: "string option"
  dp_config_entry_type :: "string option"
  dp_mold_entry_type :: "string option"
  dp_config_base_id :: "string option"
  dp_mold_base_id :: "string option"

type_synonym 'w read_callback =
  "plugin_settings \<Rightarrow> string \<Rightarrow> ptr option \<Rightarrow> 'w env \<Rightarrow> (status \<times> ptr option \<times> 'w env) option"

type_synonym 'w write_callback =
  "plugin_settings \<Rightarrow> string \<Rightarrow> ptr \<Rightarrow> 'w env \<Rightarrow> (status \<times> 'w env) option"

text \<open>The flag of a query says whether the caller wants the entry.\<close>

type_synonym 'w query_callback =
  "plugin_settings \<Rightarrow> string \<Rightarrow> bool \<Rightarrow> 'w env \<Rightarrow> (status \<times> ptr option \<times> 'w env) option"

type_synonym 'w entries_callback =
  "plugin_settings \<Rightarrow> 'w env \<Rightarrow> (status \<times> ptr option \<times> 'w env) option"

record 'w register_plugin = plugin_settings +
  dp_plugin_finished :: "('w env \<Rightarrow> 'w env option) option"
  dp_config_read :: "'w read_callback option"
  dp_config_write :: "'w write_callback option"
  dp_config_remove :: "(plugin_settings \<Rightarrow> string \<Rightarrow> 'w env \<Rightarrow> (status \<times> 'w env) option) option"
  dp_config_fd_read :: "(nat \<Rightarrow> ptr option \<Rightarrow> 'w env \<Rightarrow> (status \<times> ptr option \<times> 'w env) option) option"
  dp_config_entries :: "'w entries_callback option"
  dp_config_query :: "'w query_callback option"
  dp_mold_read :: "(plugin_settings \<Rightarrow> string \<Rightarrow> 'w env \<Rightarrow> (status \<times> ptr option \<times> 'w env) option) option"
  dp_mold_write :: "'w write_callback option"
  dp_mold_entries :: "'w entries_callback option"
  dp_mold_query :: "'w query_callback option"

abbreviation settings_of :: "'w register_plugin \<Rightarrow> plugin_settings" where
  "settings_of \<equiv> plugin_settings.truncate"

record 'w plugin_internal =
  pi_dl_handler :: "nat option"
  pi_filepath :: "string option"
  pi_io_id :: string
  pi_group_id :: string
  pi_plugin :: "'w register_plugin"

record 'w disir_instance =
  dio_plugin_queue :: "'w plugin_internal list"
  libdisir_config :: "ptr option"

section \<open>The error text of an instance\<close>

text \<open>
  \<^verbatim>\<open>dx_internal_log_to_storage\<close>: the buffer grows to fit the message and its terminator; a
  shorter message leaves the rest of a longer buffer as it was.
\<close>

definition dx_internal_log_to_storage :: "string \<Rightarrow> string \<Rightarrow> string" where
  "dx_internal_log_to_storage buffer message =
     (if message = [] then buffer
      else if length buffer < length message + 1 then message @ [nul]
      else message @ [nul] @ drop (length message + 1) buffer)"

definition disir_error_set :: "string \<Rightarrow> 'w env \<Rightarrow> 'w env" where
  "disir_error_set message e =
     e\<lparr>disir_error_message := dx_internal_log_to_storage (disir_error_message e) message\<rparr>"

definition disir_error_clear :: "'w env \<Rightarrow> 'w env" where
  "disir_error_clear e = e\<lparr>disir_error_message := []\<rparr>"

definition disir_error :: "'w env \<Rightarrow> string option" where
  "disir_error e = (if disir_error_message e = [] then None else Some (cstr (disir_error_message e)))"

text \<open>
  The copy into a buffer the caller gives, whose bytes are \<open>buffer\<close>: the status, the number of
  bytes reported, and the buffer. Writing past its end is a fault. A message that does not fit
  is copied but for its last four bytes, which make room for three dots and the terminator.
\<close>

definition disir_error_copy :: "'w env option \<Rightarrow> string option \<Rightarrow> (status \<times> int option \<times> string option) option" where
  "disir_error_copy instance buffer =
     (case (instance, buffer) of
        (Some e, Some b) \<Rightarrow>
          let buffer_size = length b; size = length (disir_error_message e)
          in if buffer_size < 4 then Some (INSUFFICIENT_RESOURCES, None, Some b)
             else let fits = size < buffer_size;
                      copied = (if fits then size else size - 4);
                      written = take copied (disir_error_message e) @ (if fits then [] else ''...'') @ [nul]
                  in if length b < length written then None
                     else Some (if fits then OK else INSUFFICIENT_RESOURCES, Some (int size),
                                Some (written @ drop (length written) b))
      | _ \<Rightarrow> Some (INVALID_ARGUMENT, None, buffer))"

section \<open>The registration of plugins\<close>

text \<open>
  The strings of the plugin are copied, at most 512 bytes of each; a string the plugin left NULL
  is read nevertheless. The base identifiers stay those of the caller.
\<close>

definition disir_plugin_register :: "'w disir_instance option \<Rightarrow> 'w register_plugin option \<Rightarrow> string option \<Rightarrow> string option \<Rightarrow>
    (status \<times> 'w disir_instance option) option" where
  "disir_plugin_register instance plugin io_id group_id =
     (case (instance, plugin, io_id, group_id) of
        (Some i, Some p, Some io, Some grp) \<Rightarrow> do {
          name \<leftarrow> dp_name p;
          description \<leftarrow> dp_description p;
          config_type \<leftarrow> dp_config_entry_type p;
          mold_type \<leftarrow> dp_mold_entry_type p;
          let p = p\<lparr>dp_name := Some (take 512 name), dp_description := Some (take 512 description),
                    dp_config_entry_type := Some (take 512 config_type), dp_mold_entry_type := Some (take 512 mold_type)\<rparr>;
          let internal = \<lparr>pi_dl_handler = None, pi_filepath = None, pi_io_id = io, pi_group_id = grp, pi_plugin = p\<rparr>;
          Some (OK, Some (i\<lparr>dio_plugin_queue := dio_plugin_queue i @ [internal]\<rparr>)) }
      | _ \<Rightarrow> Some (INVALID_ARGUMENT, instance))"

text \<open>The groups of the registered plugins, one element of the list handed out for each plugin.\<close>

definition disir_plugin_registered :: "'w disir_instance option \<Rightarrow> bool \<Rightarrow> status \<times> string list" where
  "disir_plugin_registered instance has_plugins =
     (case instance of None \<Rightarrow> (INVALID_ARGUMENT, [])
      | Some i \<Rightarrow> if \<not> has_plugins then (INVALID_ARGUMENT, []) else (OK, map pi_group_id (dio_plugin_queue i)))"

fun of_group :: "string \<Rightarrow> 'w plugin_internal list \<Rightarrow> 'w plugin_internal option" where
  "of_group grp [] = None"
| "of_group grp (entry # queue) = (if pi_group_id entry \<noteq> grp then of_group grp queue else Some entry)"

definition dx_retrieve_plugin_by_group :: "'w disir_instance \<Rightarrow> string \<Rightarrow> 'w register_plugin option" where
  "dx_retrieve_plugin_by_group i grp = map_option pi_plugin (of_group grp (dio_plugin_queue i))"

section \<open>Which plugin an operation goes to\<close>

text \<open>
  Reading goes to the first plugin of the group whose query finds the entry. The queries of the
  plugins before it are called, too; what they answer beside EXISTS is only logged.
\<close>

fun first_holder :: "('w register_plugin \<Rightarrow> 'w query_callback option) \<Rightarrow> string \<Rightarrow> string \<Rightarrow>
    'w plugin_internal list \<Rightarrow> 'w env \<Rightarrow> ('w plugin_internal option \<times> 'w env) option" where
  "first_holder query_of grp entry_id [] e = Some (None, e)"
| "first_holder query_of grp entry_id (entry # queue) e =
     (if pi_group_id entry \<noteq> grp then first_holder query_of grp entry_id queue e
      else case query_of (pi_plugin entry) of
             None \<Rightarrow> first_holder query_of grp entry_id queue e
           | Some query \<Rightarrow> do {
               (status, _, e) \<leftarrow> query (settings_of (pi_plugin entry)) entry_id False e;
               if status = EXISTS then Some (Some entry, e)
               else first_holder query_of grp entry_id queue e })"

text \<open>Querying goes to the last plugin of the group that can be queried at all.\<close>

fun last_queryable :: "('w register_plugin \<Rightarrow> 'w query_callback option) \<Rightarrow> string \<Rightarrow>
    'w plugin_internal list \<Rightarrow> 'w plugin_internal option \<Rightarrow> 'w plugin_internal option" where
  "last_queryable query_of grp [] plugin = plugin"
| "last_queryable query_of grp (entry # queue) plugin =
     (if pi_group_id entry \<noteq> grp then last_queryable query_of grp queue plugin
      else if query_of (pi_plugin entry) = None then last_queryable query_of grp queue plugin
      else last_queryable query_of grp queue (Some entry))"

text \<open>A name in single quotes, as the messages print it.\<close>

definition quoted :: "string \<Rightarrow> string" where
  "quoted x = CHR 0x27 # x @ [CHR 0x27]"

definition query_entry :: "('w register_plugin \<Rightarrow> 'w query_callback option) \<Rightarrow> 'w disir_instance option \<Rightarrow> string option \<Rightarrow>
    string option \<Rightarrow> bool \<Rightarrow> 'w env \<Rightarrow> (status \<times> ptr option \<times> 'w env) option" where
  "query_entry query_of instance group_id entry_id wanted e =
     (case (instance, group_id, entry_id) of
        (Some i, Some grp, Some entry) \<Rightarrow>
          let e = disir_error_clear e in
          (case last_queryable query_of grp (dio_plugin_queue i) None of
             None \<Rightarrow> Some (GROUP_MISSING, None, disir_error_set ''No plugin available to handle operation.'' e)
           | Some plugin \<Rightarrow> do {
               query \<leftarrow> query_of (pi_plugin plugin);
               (status, found, e) \<leftarrow> query (settings_of (pi_plugin plugin)) entry wanted e;
               let e = (if status = NOT_EXIST then disir_error_set
                          (''entry_id '' @ quoted entry @ '' in group '' @ quoted grp @ '' does not exist'') e
                        else e);
               Some (status, found, e) })
      | _ \<Rightarrow> Some (INVALID_ARGUMENT, None, e))"

section \<open>Configs\<close>

text \<open>
  The outer option of \<open>config\<close> is the pointer to the variable of the caller, the inner one what
  the variable holds; the second component of the result is what it holds afterwards.
\<close>

definition disir_config_read :: "'w disir_instance option \<Rightarrow> string option \<Rightarrow> string option \<Rightarrow> ptr option \<Rightarrow>
    ptr option option \<Rightarrow> 'w env \<Rightarrow> (status \<times> ptr option option \<times> 'w env) option" where
  "disir_config_read instance group_id entry_id mold config e =
     (case (instance, group_id, entry_id, config) of
        (Some i, Some grp, Some entry, Some variable) \<Rightarrow> do {
          (plugin, e) \<leftarrow> first_holder dp_config_query grp entry (dio_plugin_queue i) (disir_error_clear e);
          case plugin of
            None \<Rightarrow> Some (NOT_EXIST, config, disir_error_set
                      (''No plugin in group '' @ quoted grp @ '' contains config entry '' @ quoted entry) e)
          | Some p \<Rightarrow>
              (case dp_config_read (pi_plugin p) of
                 None \<Rightarrow> Some (NO_CAN_DO, config, e)
               | Some read \<Rightarrow> do {
                   (status, result, e) \<leftarrow> read (settings_of (pi_plugin p)) entry mold e;
                   Some (status, Some result, e) }) }
      | _ \<Rightarrow> Some (INVALID_ARGUMENT, config, e))"

text \<open>
  An entry whose name ends in a slash is a namespace, which is neither written nor removed; the
  last character of an empty name lies before its buffer.
\<close>

definition disir_config_write :: "'w disir_instance option \<Rightarrow> string option \<Rightarrow> string option \<Rightarrow> ptr option \<Rightarrow>
    'w env \<Rightarrow> (status \<times> 'w env) option" where
  "disir_config_write instance group_id entry_id config e =
     (case (instance, group_id, entry_id, config) of
        (Some i, Some grp, Some entry, Some c) \<Rightarrow>
          let e = disir_error_clear e in
          if entry = [] then None
          else if last entry = CHR ''/'' then
            Some (FS_ERROR, disir_error_set (''cannot write namespace entry: '' @ entry) e)
          else (case of_group grp (dio_plugin_queue i) of
             None \<Rightarrow> Some (NOT_EXIST, disir_error_set (''No plugin in group '' @ quoted grp @ '' available.'') e)
           | Some p \<Rightarrow>
               (case dp_config_write (pi_plugin p) of
                  None \<Rightarrow> Some (NO_CAN_DO, e)
                | Some write \<Rightarrow> write (settings_of (pi_plugin p)) entry c e))
      | _ \<Rightarrow> Some (INVALID_ARGUMENT, e))"

text \<open>Whether the plugin can remove is decided by whether it can write.\<close>

definition disir_config_remove :: "'w disir_instance option \<Rightarrow> string option \<Rightarrow> string option \<Rightarrow>
    'w env \<Rightarrow> (status \<times> 'w env) option" where
  "disir_config_remove instance group_id entry_id e =
     (case (instance, group_id, entry_id) of
        (Some i, Some grp, Some entry) \<Rightarrow>
          let e = disir_error_clear e in
          if entry = [] then None
          else if last entry = CHR ''/'' then
            Some (FS_ERROR, disir_error_set (''cannot remove namespace entry: '' @ entry) e)
          else (case of_group grp (dio_plugin_queue i) of
             None \<Rightarrow> Some (NOT_EXIST, disir_error_set (''No plugin in group '' @ quoted grp @ '' available.'') e)
           | Some p \<Rightarrow>
               if dp_config_write (pi_plugin p) = None then Some (NO_CAN_DO, e)
               else do {
                 remove \<leftarrow> dp_config_remove (pi_plugin p);
                 remove (settings_of (pi_plugin p)) entry e })
      | _ \<Rightarrow> Some (INVALID_ARGUMENT, e))"

definition disir_config_query :: "'w disir_instance option \<Rightarrow> string option \<Rightarrow> string option \<Rightarrow> bool \<Rightarrow>
    'w env \<Rightarrow> (status \<times> ptr option \<times> 'w env) option" where
  "disir_config_query instance group_id entry_id wanted e =
     query_entry dp_config_query instance group_id entry_id wanted e"

section \<open>Molds\<close>

text \<open>
  The group of a mold to read or write is not checked for NULL, and the message of a write to a
  group without plugins has a conversion without an argument.
\<close>

definition disir_mold_read :: "'w disir_instance option \<Rightarrow> string option \<Rightarrow> string option \<Rightarrow>
    ptr option option \<Rightarrow> 'w env \<Rightarrow> (status \<times> ptr option option \<times> 'w env) option" where
  "disir_mold_read instance group_id entry_id mold e =
     (case (instance, entry_id, mold) of
        (Some i, Some entry, Some variable) \<Rightarrow> do {
          grp \<leftarrow> group_id;
          (plugin, e) \<leftarrow> first_holder dp_mold_query grp entry (dio_plugin_queue i) (disir_error_clear e);
          case plugin of
            None \<Rightarrow> Some (NOT_EXIST, mold, disir_error_set
                      (''No plugin in group '' @ quoted grp @ '' contains mold entry '' @ quoted entry) e)
          | Some p \<Rightarrow>
              (case dp_mold_read (pi_plugin p) of
                 None \<Rightarrow> Some (NO_CAN_DO, mold, e)
               | Some read \<Rightarrow> do {
                   (status, result, e) \<leftarrow> read (settings_of (pi_plugin p)) entry e;
                   Some (status, Some result, e) }) }
      | _ \<Rightarrow> Some (INVALID_ARGUMENT, mold, e))"

definition disir_mold_write :: "'w disir_instance option \<Rightarrow> string option \<Rightarrow> string option \<Rightarrow> ptr option \<Rightarrow>
    'w env \<Rightarrow> (status \<times> 'w env) option" where
  "disir_mold_write instance group_id entry_id mold e =
     (case (instance, entry_id, mold) of
        (Some i, Some entry, Some m) \<Rightarrow> do {
          grp \<leftarrow> group_id;
          p \<leftarrow> of_group grp (dio_plugin_queue i);
          let e = disir_error_clear e;
          case dp_mold_write (pi_plugin p) of
            None \<Rightarrow> Some (INTERNAL_ERROR, e)
          | Some write \<Rightarrow> write (settings_of (pi_plugin p)) entry m e }
      | _ \<Rightarrow> Some (INVALID_ARGUMENT, e))"

definition disir_mold_query :: "'w disir_instance option \<Rightarrow> string option \<Rightarrow> string option \<Rightarrow> bool \<Rightarrow>
    'w env \<Rightarrow> (status \<times> ptr option \<times> 'w env) option" where
  "disir_mold_query instance group_id entry_id wanted e =
     query_entry dp_mold_query instance group_id entry_id wanted e"

section \<open>Which plugin answers\<close>

lemma first_holder_finds:
  assumes "\<And>p e. p \<in> set queue \<Longrightarrow> pi_group_id p = grp \<Longrightarrow>
      (case query_of (pi_plugin p) of None \<Rightarrow> \<not> has p
       | Some query \<Rightarrow> \<exists>x. query (settings_of (pi_plugin p)) entry False e = Some (if has p then EXISTS else NOT_EXIST, x, e))"
  shows "first_holder query_of grp entry queue e = Some (List.find (\<lambda>p. pi_group_id p = grp \<and> has p) queue, e)"
  using assms
proof (induction queue)
  case (Cons p queue)
  have IH: "first_holder query_of grp entry queue e = Some (List.find (\<lambda>p. pi_group_id p = grp \<and> has p) queue, e)"
    by (rule Cons.IH) (rule Cons.prems, simp)
  show ?case
  proof (cases "pi_group_id p = grp")
    case True
    from Cons.prems [of p e, OF _ True] True IH show ?thesis by (auto split: option.splits)
  next
    case False
    then show ?thesis using IH by simp
  qed
qed simp

lemma last_queryable_eq:
  "last_queryable query_of grp queue p =
   (case filter (\<lambda>q. pi_group_id q = grp \<and> query_of (pi_plugin q) \<noteq> None) queue of [] \<Rightarrow> p | qs \<Rightarrow> Some (last qs))"
proof (induction queue arbitrary: p)
  case (Cons q queue)
  then show ?case by (auto split: list.splits)
qed simp

lemma map_option_bind_Some: "map_option f r = r \<bind> (\<lambda>x. Some (f x))"
  by (cases r) auto

lemma of_group_eq: "of_group grp queue = List.find (\<lambda>p. pi_group_id p = grp) queue"
  by (induction queue) auto

text \<open>
  C7. Reading a config: when the queries of the plugins answer EXISTS for what they hold and
  NOT_EXIST otherwise, the first plugin of the group that holds the entry reads it, whatever the
  plugins behind it hold; without one the status is NOT_EXIST, the variable of the caller is
  left alone and the instance says so.
\<close>

theorem read_goes_to_first_holder:
  assumes "\<And>p e. p \<in> set (dio_plugin_queue i) \<Longrightarrow> pi_group_id p = grp \<Longrightarrow>
      (case dp_config_query (pi_plugin p) of None \<Rightarrow> \<not> has p
       | Some query \<Rightarrow> \<exists>x. query (settings_of (pi_plugin p)) entry False e = Some (if has p then EXISTS else NOT_EXIST, x, e))"
  shows "disir_config_read (Some i) (Some grp) (Some entry) mold (Some c) e =
     (case List.find (\<lambda>p. pi_group_id p = grp \<and> has p) (dio_plugin_queue i) of
        None \<Rightarrow> Some (NOT_EXIST, Some c, disir_error_set
                  (''No plugin in group '' @ quoted grp @ '' contains config entry '' @ quoted entry) (disir_error_clear e))
      | Some p \<Rightarrow>
          (case dp_config_read (pi_plugin p) of
             None \<Rightarrow> Some (NO_CAN_DO, Some c, disir_error_clear e)
           | Some read \<Rightarrow> map_option (\<lambda>(status, result, e). (status, Some result, e))
               (read (settings_of (pi_plugin p)) entry mold (disir_error_clear e))))"
proof -
  have "first_holder dp_config_query grp entry (dio_plugin_queue i) (disir_error_clear e) =
      Some (List.find (\<lambda>p. pi_group_id p = grp \<and> has p) (dio_plugin_queue i), disir_error_clear e)"
    using assms by (rule first_holder_finds)
  then show ?thesis
    by (auto simp: disir_config_read_def map_option_bind_Some case_prod_beta' split: option.splits)
qed

text \<open>
  C6. A query asks the last plugin of the group that can be queried, while reading takes the
  first that holds the entry: an entry only the first of two plugins holds is read, but a query
  reports that it does not exist.
\<close>

theorem query_misses_first_holder:
  assumes "dio_plugin_queue i = [p, q]" and "pi_group_id p = grp" and "pi_group_id q = grp"
    and "dp_config_query (pi_plugin p) = Some query_p" and "dp_config_query (pi_plugin q) = Some query_q"
    and "query_p (settings_of (pi_plugin p)) entry False (disir_error_clear e) = Some (EXISTS, None, disir_error_clear e)"
    and "query_q (settings_of (pi_plugin q)) entry False (disir_error_clear e) = Some (NOT_EXIST, None, disir_error_clear e)"
    and "dp_config_read (pi_plugin p) = Some read"
    and "read (settings_of (pi_plugin p)) entry mold (disir_error_clear e) = Some (OK, config, e')"
  shows "disir_config_read (Some i) (Some grp) (Some entry) mold (Some None) e = Some (OK, Some config, e') \<and>
    disir_config_query (Some i) (Some grp) (Some entry) False e = Some (NOT_EXIST, None, disir_error_set
      (''entry_id '' @ quoted entry @ '' in group '' @ quoted grp @ '' does not exist'') (disir_error_clear e))"
  using assms by (simp add: disir_config_read_def disir_config_query_def query_entry_def)

text \<open>A plugin that holds the entries of a list, and reads each as the context 7.\<close>

definition shelf :: "string list \<Rightarrow> unit plugin_internal" where
  "shelf held = \<lparr>pi_dl_handler = None, pi_filepath = None, pi_io_id = ''io'', pi_group_id = ''g'',
     pi_plugin = \<lparr>dp_major_version = 0, dp_minor_version = 0, dp_name = Some ''shelf'', dp_description = Some [],
       dp_config_entry_type = Some [], dp_mold_entry_type = Some [], dp_config_base_id = None, dp_mold_base_id = None,
       dp_plugin_finished = None, dp_config_read = Some (\<lambda>_ entry mold e. Some (OK, Some 7, e)),
       dp_config_write = Some (\<lambda>_ entry config e. Some (OK, e)), dp_config_remove = None,
       dp_config_fd_read = None, dp_config_entries = None,
       dp_config_query = Some (\<lambda>_ entry _ e. Some (if entry \<in> set held then EXISTS else NOT_EXIST, None, e)),
       dp_mold_read = None, dp_mold_write = None, dp_mold_entries = None, dp_mold_query = None\<rparr>\<rparr>"

definition shelves :: "unit disir_instance" where
  "shelves = \<lparr>dio_plugin_queue = [shelf [''a''], shelf [''b'']], libdisir_config = None\<rparr>"

definition shelf_env :: "unit env" where
  "shelf_env = \<lparr>env_world = (), env_store = empty_store, env_entries = (\<lambda>_. None), disir_error_message = []\<rparr>"

theorem read_goes_to_first_holder_witness:
  "disir_config_read (Some shelves) (Some ''g'') (Some ''b'') None (Some None) shelf_env =
   Some (OK, Some (Some 7), disir_error_clear shelf_env)"
  by (subst read_goes_to_first_holder [where has = "\<lambda>p. p = shelf [''b'']"])
     (auto simp: shelves_def shelf_def)

theorem query_misses_first_holder_witness:
  "fst (the (disir_config_read (Some shelves) (Some ''g'') (Some ''a'') None (Some None) shelf_env)) = OK \<and>
   fst (the (disir_config_query (Some shelves) (Some ''g'') (Some ''a'') False shelf_env)) = NOT_EXIST"
  using query_misses_first_holder [of shelves "shelf [''a'']" "shelf [''b'']" "''g''" _ _ "''a''" shelf_env _ None "Some 7"]
  by (simp add: shelves_def shelf_def)

section \<open>The error text\<close>

text \<open>
  C34. What a client gets of the error text last set, in place and as a copy into a buffer of \<open>n\<close>
  bytes. In place it is the message. The copy is refused when \<open>n\<close> is below 4 and complete when there
  is room for the message, its terminator and one byte more. Without that byte the end of the
  message gives way to three dots. When the buffer is shorter still it is overrun: the partial copy
  is cut to the length of the message, not to that of the buffer.
\<close>

theorem error_text_copied:
  assumes "message \<noteq> []" and "nul \<notin> set message" and n: "n = length buffer"
    and e': "e' = disir_error_set message (disir_error_clear e)"
  shows "disir_error e' = Some message \<and>
    (n < 4 \<longrightarrow> disir_error_copy (Some e') (Some buffer) = Some (INSUFFICIENT_RESOURCES, None, Some buffer)) \<and>
    (4 \<le> n \<and> length message + 2 \<le> n \<longrightarrow>
       (\<exists>copy. disir_error_copy (Some e') (Some buffer) = Some (OK, Some (int (length message) + 1), Some copy) \<and>
          length copy = n \<and> cstr copy = message)) \<and>
    (4 \<le> n \<and> n = length message + 1 \<longrightarrow>
       (\<exists>copy. disir_error_copy (Some e') (Some buffer) =
          Some (INSUFFICIENT_RESOURCES, Some (int (length message) + 1), Some copy) \<and>
          length copy = n \<and> cstr copy = take (length message - 3) message @ ''...'')) \<and>
    (4 \<le> n \<and> n \<le> length message \<longrightarrow> disir_error_copy (Some e') (Some buffer) = None)"
proof -
  have c: "cstr (w @ nul # rest) = w" if "nul \<notin> set w" for w rest
    using that unfolding cstr_def by (subst takeWhile_append2) auto
  have m: "disir_error_message e' = message @ [nul]"
    using assms(1) by (simp add: e' disir_error_set_def disir_error_clear_def dx_internal_log_to_storage_def)
  have dots: "nul \<notin> set (take k message @ ''...'')" for k
    using assms(2) in_set_takeD [of nul k message] by (auto simp: nul_def)
  have shortened: "disir_error_copy (Some e') (Some buffer) =
      Some (INSUFFICIENT_RESOURCES, Some (int (length message) + 1), Some ((take (length message - 3) message @ ''...'') @ [nul]))"
    if "4 \<le> n" "n = length message + 1"
    using that n m by (auto simp: disir_error_copy_def Let_def)
  have "\<exists>copy. disir_error_copy (Some e') (Some buffer) =
      Some (INSUFFICIENT_RESOURCES, Some (int (length message) + 1), Some copy) \<and>
      length copy = n \<and> cstr copy = take (length message - 3) message @ ''...''" if "4 \<le> n" "n = length message + 1"
    using shortened [OF that] c [OF dots, of "length message - 3" "[]"] that by auto
  moreover have "disir_error e' = Some message"
    using m assms(1) c [OF assms(2), of "[]"] by (simp add: disir_error_def)
  ultimately show ?thesis using m n c [OF assms(2)] by (auto simp: disir_error_copy_def Let_def)
qed

theorem error_text_copied_witness:
  "disir_error_copy (Some (disir_error_set ''missing'' (disir_error_clear shelf_env))) (Some ''12345'') = None \<and>
   (\<exists>copy. disir_error_copy (Some (disir_error_set ''missing'' (disir_error_clear shelf_env))) (Some ''12345678'') =
      Some (INSUFFICIENT_RESOURCES, Some 8, Some copy) \<and> cstr copy = ''miss...'')"
proof -
  have m: "''missing'' \<noteq> []" "nul \<notin> set ''missing''" by (simp_all add: nul_def)
  show ?thesis
    using error_text_copied [OF m refl refl, of shelf_env "''12345''"] error_text_copied [OF m refl refl, of shelf_env "''12345678''"]
    by auto
qed

end
