(* ===== verification/Entries.thy ===== *)
theory Entries
  imports Instances
begin

text \<open>
  The lists of entries the plugins hand out, joined into one list without duplicates
  (\<^verbatim>\<open>disir_config_entries\<close>, \<^verbatim>\<open>disir_mold_entries\<close>) and given back entry by entry
  (src/lib/disir_entry.c). The entries are linked by the macros of src/lib/include/mqueue.h, and
  here by their pointers: the \<^verbatim>\<open>prev\<close> of the first entry is the last one.

  \<open>entry_queue h xs\<close> says that the addresses \<open>xs\<close> are such a list. The lemmas follow the joining
  loop over the list of a plugin while its front is moved to the result.
\<close>

type_synonym entry_heap = "ptr \<Rightarrow> disir_entry option"

section \<open>Links\<close>

definition link_next :: "ptr \<Rightarrow> ptr option \<Rightarrow> entry_heap \<Rightarrow> entry_heap option" where
  "link_next p x h = do { n \<leftarrow> h p; Some (h(p \<mapsto> n\<lparr>de_next := x\<rparr>)) }"

definition link_prev :: "ptr \<Rightarrow> ptr option \<Rightarrow> entry_heap \<Rightarrow> entry_heap option" where
  "link_prev p x h = do { n \<leftarrow> h p; Some (h(p \<mapsto> n\<lparr>de_prev := x\<rparr>)) }"

text \<open>\<^verbatim>\<open>MQ_ENQUEUE\<close>, with the new head of the queue.\<close>

definition mq_enqueue_entry :: "ptr option \<Rightarrow> ptr \<Rightarrow> entry_heap \<Rightarrow> (ptr option \<times> entry_heap) option" where
  "mq_enqueue_entry q x h = do {
     h \<leftarrow> link_next x None h;
     case q of
       None \<Rightarrow> do { h \<leftarrow> link_prev x (Some x) h; Some (Some x, h) }
     | Some head \<Rightarrow> do {
         n \<leftarrow> h head;
         last_entry \<leftarrow> de_prev n;
         h \<leftarrow> link_next last_entry (Some x) h;
         n \<leftarrow> h head;
         h \<leftarrow> link_prev x (de_prev n) h;
         h \<leftarrow> link_prev head (Some x) h;
         Some (q, h) } }"

text \<open>
  The walk back from the predecessor of the last entry to the head, which has the entry as its
  \<^verbatim>\<open>prev\<close>; past a NULL the code writes through it. The walk ends only when it meets one of
  the two.
\<close>

partial_function (option) retrieve_head :: "entry_heap \<Rightarrow> ptr \<Rightarrow> ptr option \<Rightarrow> ptr option" where
  "retrieve_head h entry current = do {
     c \<leftarrow> current;
     n \<leftarrow> h c;
     if de_prev n = Some entry then Some c else retrieve_head h entry (de_prev n) }"

declare retrieve_head.simps [code]

definition disir_entry_finished :: "ptr option \<Rightarrow> entry_heap \<Rightarrow> (status \<times> entry_heap) option" where
  "disir_entry_finished entry h =
     (case entry of None \<Rightarrow> Some (INVALID_ARGUMENT, h)
      | Some x \<Rightarrow> do {
          n \<leftarrow> h x;
          h \<leftarrow> (case de_next n of
                  Some y \<Rightarrow> link_prev y (de_prev n) h
                | None \<Rightarrow>
                    if de_prev n = None then Some h
                    else do { c \<leftarrow> retrieve_head h x (de_prev n); link_prev c (de_prev n) h });
          n \<leftarrow> h x;
          h \<leftarrow> (case de_prev n of None \<Rightarrow> Some h
                | Some v \<Rightarrow> do {
                    m \<leftarrow> h v;
                    if de_next m \<noteq> None then link_next v (de_next n) h else Some h });
          Some (OK, h(x := None)) })"

section \<open>The union of the lists of the plugins\<close>

text \<open>The loop over the list of one plugin; the map holds the names of the entries kept so far.\<close>

partial_function (option) add_unique :: "ptr option \<Rightarrow> ptr option \<Rightarrow> (string, unit) multimap \<Rightarrow> entry_heap \<Rightarrow>
    (ptr option \<times> (string, unit) multimap \<times> entry_heap) option" where
  "add_unique current queue names h =
     (case current of None \<Rightarrow> Some (queue, names, h)
      | Some c \<Rightarrow> do {
          n \<leftarrow> h c;
          let query = de_next n;
          if \<not> multimap_contains_key strcmp djb2 names (de_entry_name n) then do {
            (queue, h) \<leftarrow> mq_enqueue_entry queue c h;
            (_, names) \<leftarrow> multimap_push_value strcmp djb2 names (de_entry_name n) ();
            add_unique query queue names h }
          else do {
            (_, h) \<leftarrow> disir_entry_finished (Some c) h;
            add_unique query queue names h } })"

declare add_unique.simps [code]

text \<open>The loop over the plugins, with the status of the last one whose list could not be had.\<close>

fun join_entries :: "('w register_plugin \<Rightarrow> 'w entries_callback option) \<Rightarrow> string \<Rightarrow> 'w plugin_internal list \<Rightarrow>
    ptr option \<Rightarrow> (string, unit) multimap \<Rightarrow> status \<Rightarrow> 'w env \<Rightarrow> (status \<times> ptr option \<times> 'w env) option" where
  "join_entries listing grp [] queue names retstatus e = Some (retstatus, queue, e)"
| "join_entries listing grp (entry # plugins) queue names retstatus e =
     (if pi_group_id entry \<noteq> grp then join_entries listing grp plugins queue names retstatus e
      else case listing (pi_plugin entry) of
             None \<Rightarrow> join_entries listing grp plugins queue names retstatus e
           | Some entries \<Rightarrow> do {
               (status, query, e) \<leftarrow> entries (settings_of (pi_plugin entry)) e;
               if status \<noteq> OK then join_entries listing grp plugins queue names status e
               else do {
                 (queue, names, h) \<leftarrow> add_unique query queue names (env_entries e);
                 join_entries listing grp plugins queue names retstatus (e\<lparr>env_entries := h\<rparr>) } })"

definition disir_config_entries :: "'w disir_instance option \<Rightarrow> string option \<Rightarrow> bool \<Rightarrow> 'w env \<Rightarrow>
    (status \<times> ptr option \<times> 'w env) option" where
  "disir_config_entries instance group_id wanted e =
     (case (instance, group_id) of
        (Some i, Some grp) \<Rightarrow>
          if \<not> wanted then Some (INVALID_ARGUMENT, None, e)
          else join_entries dp_config_entries grp (dio_plugin_queue i) None multimap_create OK (disir_error_clear e)
      | _ \<Rightarrow> Some (INVALID_ARGUMENT, None, e))"

text \<open>The same for molds, where the plugins that fail leave no trace in the status.\<close>

definition disir_mold_entries :: "'w disir_instance option \<Rightarrow> string option \<Rightarrow> bool \<Rightarrow> 'w env \<Rightarrow>
    (status \<times> ptr option \<times> 'w env) option" where
  "disir_mold_entries instance group_id wanted e =
     (case (instance, group_id) of
        (Some i, Some grp) \<Rightarrow>
          if \<not> wanted then Some (INVALID_ARGUMENT, None, e)
          else do {
            (_, queue, e) \<leftarrow> join_entries dp_mold_entries grp (dio_plugin_queue i) None multimap_create OK (disir_error_clear e);
            Some (OK, queue, e) }
      | _ \<Rightarrow> Some (INVALID_ARGUMENT, None, e))"

section \<open>Lists of entries\<close>

text \<open>
  The entries \<open>xs\<close> are linked in both directions; \<open>p\<close> is the \<^verbatim>\<open>prev\<close> of the first and \<open>r\<close>
  the \<^verbatim>\<open>next\<close> of the last.
\<close>

fun linked :: "entry_heap \<Rightarrow> ptr \<Rightarrow> ptr list \<Rightarrow> ptr option \<Rightarrow> bool" where
  "linked h p [] r \<longleftrightarrow> True"
| "linked h p (x # xs) r \<longleftrightarrow> (\<exists>n. h x = Some n \<and> de_prev n = Some p \<and>
     de_next n = (case xs of [] \<Rightarrow> r | y # _ \<Rightarrow> Some y)) \<and> linked h x xs r"

definition entry_queue :: "entry_heap \<Rightarrow> ptr list \<Rightarrow> bool" where
  "entry_queue h xs \<longleftrightarrow> distinct xs \<and> (xs \<noteq> [] \<longrightarrow> linked h (last xs) xs None)"

definition queue_head :: "ptr list \<Rightarrow> ptr option" where
  "queue_head xs = (case xs of [] \<Rightarrow> None | x # _ \<Rightarrow> Some x)"

definition entry_names :: "entry_heap \<Rightarrow> ptr \<Rightarrow> string option" where
  "entry_names h p = map_option de_entry_name (h p)"

lemma entry_names_upd [simp]:
  "entry_names (h(p \<mapsto> n)) = (entry_names h)(p \<mapsto> de_entry_name n)"
  "entry_names (h(p := None)) = (entry_names h)(p := None)"
  by (auto simp: entry_names_def)

lemma linked_cong: "(\<And>x. x \<in> set xs \<Longrightarrow> h' x = h x) \<Longrightarrow> linked h' p xs r = linked h p xs r"
  by (induction xs arbitrary: p) auto

lemma linked_upd [simp]: "x \<notin> set xs \<Longrightarrow> linked (h(x := v)) p xs r = linked h p xs r"
  by (rule linked_cong) auto

lemma linked_snoc:
  "linked h p (xs @ [y]) r \<longleftrightarrow> linked h p xs (Some y) \<and>
     (\<exists>n. h y = Some n \<and> de_prev n = Some (last (p # xs)) \<and> de_next n = r)"
  by (induction xs arbitrary: p) (auto split: list.splits)

lemma entry_queue_cong: "(\<And>x. x \<in> set qs \<Longrightarrow> h' x = h x) \<Longrightarrow> entry_queue h' qs = entry_queue h qs"
  using linked_cong [of qs h' h] by (simp add: entry_queue_def)

lemma enqueue_entry:
  assumes qs: "entry_queue h qs" and c: "c \<notin> set qs" "h c = Some n"
  shows "\<exists>h'. mq_enqueue_entry (queue_head qs) c h = Some (queue_head (qs @ [c]), h') \<and>
    entry_queue h' (qs @ [c]) \<and> (\<forall>x. x \<notin> set (qs @ [c]) \<longrightarrow> h' x = h x) \<and> entry_names h' = entry_names h"
proof (cases qs rule: rev_cases)
  case Nil
  then show ?thesis using c
    by (auto simp: mq_enqueue_entry_def link_next_def link_prev_def queue_head_def entry_queue_def entry_names_def)
next
  case (snoc ys l)
  show ?thesis
  proof (cases ys)
    case Nil
    with qs snoc obtain nl where nl: "h l = Some nl" "de_prev nl = Some l" "de_next nl = None"
      by (auto simp: entry_queue_def)
    have "entry_names (h(c \<mapsto> n\<lparr>de_next := None, de_prev := Some l\<rparr>, l \<mapsto> nl\<lparr>de_next := Some c, de_prev := Some c\<rparr>)) = entry_names h"
      using c nl by (auto simp: entry_names_def fun_eq_iff)
    then show ?thesis using c nl snoc Nil
      by (auto simp: mq_enqueue_entry_def link_next_def link_prev_def queue_head_def entry_queue_def)
  next
    case (Cons q mid)
    from qs snoc Cons have "linked h l ((q # mid) @ [l]) None" and d1: "distinct (q # mid @ [l])"
      by (auto simp: entry_queue_def)
    then have d: "distinct (q # mid @ [l])" "linked h l (q # mid) (Some l)"
      and "\<exists>nl. h l = Some nl \<and> de_prev nl = Some (last (q # mid)) \<and> de_next nl = None"
      unfolding linked_snoc by simp_all
    then obtain nq nl where nq: "h q = Some nq" "de_prev nq = Some l"
      and nl: "h l = Some nl" "de_prev nl = Some (last (q # mid))" "de_next nl = None" by auto
    let ?h = "h(c \<mapsto> n\<lparr>de_next := None, de_prev := Some l\<rparr>, l \<mapsto> nl\<lparr>de_next := Some c\<rparr>, q \<mapsto> nq\<lparr>de_prev := Some c\<rparr>)"
    have "mq_enqueue_entry (queue_head qs) c h = Some (queue_head (qs @ [c]), ?h)"
      using c nq nl d(1) snoc Cons
      by (auto simp: mq_enqueue_entry_def link_next_def link_prev_def queue_head_def fun_eq_iff)
    moreover have "linked ?h c (q # mid) (Some l)" using d c snoc Cons nq by (auto split: list.splits)
    then have "linked ?h c (((q # mid) @ [l]) @ [c]) None"
      unfolding linked_snoc using c nl d(1) snoc Cons by simp
    then have "entry_queue ?h (qs @ [c])" using c d(1) snoc Cons by (simp add: entry_queue_def)
    moreover have "\<forall>x. x \<notin> set (qs @ [c]) \<longrightarrow> ?h x = h x" using snoc Cons by simp
    moreover have "entry_names ?h = entry_names h" using c nq nl by (auto simp: entry_names_def fun_eq_iff)
    ultimately show ?thesis by blast
  qed
qed

lemma linked_last:
  "linked h p xs r \<Longrightarrow> xs \<noteq> [] \<Longrightarrow> \<exists>n. h (last xs) = Some n \<and> de_next n = r"
  by (cases xs rule: rev_cases) (auto simp: linked_snoc)

lemma linked_prev:
  "linked h p xs r \<Longrightarrow> x \<in> set xs \<Longrightarrow> \<exists>n q. h x = Some n \<and> de_prev n = Some q \<and> q \<in> insert p (set xs)"
  by (induction xs arbitrary: p) fastforce+

section \<open>Giving an entry back\<close>

text \<open>The walk back stays among entries none of which leads to the one looked for.\<close>

lemma retrieve_head_stuck:
  assumes ring: "\<And>p. p \<in> S \<Longrightarrow> \<exists>n q. h p = Some n \<and> de_prev n = Some q \<and> q \<in> S"
    and c: "c \<in> S" and x: "x \<notin> S"
  shows "retrieve_head h x (Some c) = None"
proof -
  have stays: "start \<in> Some ` S \<longrightarrow> g = h \<longrightarrow> e = x \<longrightarrow> False" if "retrieve_head g e start = Some y" for g e start y
  proof (rule retrieve_head.raw_induct [where P = "\<lambda>g e start y. start \<in> Some ` S \<longrightarrow> g = h \<longrightarrow> e = x \<longrightarrow> False", OF _ that],
      intro impI)
    fix walk :: "entry_heap \<Rightarrow> ptr \<Rightarrow> ptr option \<Rightarrow> ptr option" and g e start y
    assume IH: "\<And>g e start y. walk g e start = Some y \<Longrightarrow> start \<in> Some ` S \<longrightarrow> g = h \<longrightarrow> e = x \<longrightarrow> False"
      and body: "(do { c \<leftarrow> start; n \<leftarrow> g c; if de_prev n = Some e then Some c else walk g e (de_prev n) }) = Some y"
      and start: "start \<in> Some ` S" and g: "g = h" "e = x"
    from start obtain p where p: "start = Some p" "p \<in> S" by blast
    from ring [OF p(2)] obtain n q where n: "h p = Some n" "de_prev n = Some q" "q \<in> S" by auto
    have "q \<noteq> x" using n(3) x by auto
    then have "walk h x (Some q) = Some y" using body g p n by simp
    from IH [OF this] n(3) show False by blast
  qed
  then show ?thesis using c by (cases "retrieve_head h x (Some c)") (auto dest: stays)
qed

lemma finish_single:
  "h x = Some n \<Longrightarrow> de_next n = None \<Longrightarrow> de_prev n = Some x \<Longrightarrow>
   disir_entry_finished (Some x) h = Some (OK, h(x := None))"
  by (simp add: disir_entry_finished_def retrieve_head.simps link_prev_def)

lemma finish_front:
  assumes l: "linked h p (x # y # zs) None" and d: "distinct (x # y # zs)"
    and m: "h p = Some m" "de_next m = None"
  shows "\<exists>h'. disir_entry_finished (Some x) h = Some (OK, h') \<and> linked h' p (y # zs) None \<and>
    (\<forall>q. q \<noteq> x \<longrightarrow> q \<noteq> y \<longrightarrow> h' q = h q) \<and> entry_names h' = (entry_names h)(x := None)"
proof -
  from l obtain nx ny where x: "h x = Some nx" "de_prev nx = Some p" "de_next nx = Some y"
    and y: "h y = Some ny" "de_prev ny = Some x" "de_next ny = (case zs of [] \<Rightarrow> None | z # _ \<Rightarrow> Some z)"
    and zs: "linked h y zs None" by auto
  have "p \<noteq> x" using m x by auto
  then have "disir_entry_finished (Some x) h = Some (OK, h(y \<mapsto> ny\<lparr>de_prev := Some p\<rparr>, x := None))"
    using x y m d by (auto simp: disir_entry_finished_def link_prev_def link_next_def)
  moreover have "entry_names (h(y \<mapsto> ny\<lparr>de_prev := Some p\<rparr>, x := None)) = (entry_names h)(x := None)"
    using y by (auto simp: entry_names_def fun_eq_iff)
  ultimately show ?thesis using y zs d by auto
qed

lemma finish_moved:
  assumes "entry_queue h qs" and "qs \<noteq> []" and "x \<notin> set qs" and "h x = Some n"
    and "de_next n = None" and "de_prev n = Some (last qs)"
  shows "disir_entry_finished (Some x) h = None"
proof -
  have "retrieve_head h x (Some (last qs)) = None"
    using assms by (intro retrieve_head_stuck [where S = "set qs"]) (auto simp: entry_queue_def dest: linked_prev)
  then show ?thesis using assms by (simp add: disir_entry_finished_def)
qed

section \<open>Joining the list of a plugin\<close>

text \<open>
  The entries that are kept, those with a name not seen before, and whether the loop gets stuck:
  at a last entry that is not kept, when one before it was.
\<close>

fun fresh :: "(ptr \<Rightarrow> string) \<Rightarrow> string set \<Rightarrow> ptr list \<Rightarrow> ptr list" where
  "fresh nm seen [] = []"
| "fresh nm seen (c # cs) = (if nm c \<in> seen then fresh nm seen cs else c # fresh nm (insert (nm c) seen) cs)"

fun stuck :: "(ptr \<Rightarrow> string) \<Rightarrow> string set \<Rightarrow> bool \<Rightarrow> ptr list \<Rightarrow> bool" where
  "stuck nm seen moved [] \<longleftrightarrow> False"
| "stuck nm seen moved (c # cs) \<longleftrightarrow>
     (if nm c \<in> seen then (if cs = [] then moved else stuck nm seen moved cs)
      else stuck nm (insert (nm c) seen) True cs)"

lemma set_fresh: "set (fresh nm seen cs) \<subseteq> set cs"
  by (induction cs arbitrary: seen) (fastforce split: if_splits)+

definition joining :: "(ptr \<Rightarrow> string) \<Rightarrow> bool \<Rightarrow> ptr list \<Rightarrow> ptr list \<Rightarrow> entry_heap \<Rightarrow> bool" where
  "joining nm moved qs cs h \<longleftrightarrow> entry_queue h qs \<and> distinct (qs @ cs) \<and> (moved \<longrightarrow> qs \<noteq> []) \<and>
     linked h (if moved then last qs else last cs) cs None \<and>
     (\<forall>x \<in> set cs. entry_names h x = Some (nm x))"

lemma joining_keep:
  assumes j: "joining nm moved qs (c # cs) h"
  shows "\<exists>n h'. h c = Some n \<and> de_entry_name n = nm c \<and> de_next n = queue_head cs \<and>
    mq_enqueue_entry (queue_head qs) c h = Some (queue_head (qs @ [c]), h') \<and> joining nm True (qs @ [c]) cs h' \<and>
    (\<forall>x. x \<notin> set (qs @ [c]) \<longrightarrow> h' x = h x) \<and> entry_names h' = entry_names h"
proof -
  from j obtain n where n: "h c = Some n" "de_next n = queue_head cs" "de_entry_name n = nm c"
    and cs: "linked h c cs None" and q: "entry_queue h qs" "c \<notin> set qs"
    by (auto simp: joining_def entry_names_def queue_head_def)
  obtain h' where h': "mq_enqueue_entry (queue_head qs) c h = Some (queue_head (qs @ [c]), h')"
    "entry_queue h' (qs @ [c])" "\<forall>x. x \<notin> set (qs @ [c]) \<longrightarrow> h' x = h x" "entry_names h' = entry_names h"
    using enqueue_entry [OF q n(1)] by blast
  have "linked h' c cs None" using cs h'(3) j by (subst linked_cong [of _ h' h]) (auto simp: joining_def)
  with h' n j show ?thesis by (auto simp: joining_def)
qed

lemma joining_drop:
  assumes j: "joining nm moved qs (c # cs) h" and go: "cs = [] \<longrightarrow> \<not> moved"
  shows "\<exists>n h'. h c = Some n \<and> de_entry_name n = nm c \<and> de_next n = queue_head cs \<and>
    disir_entry_finished (Some c) h = Some (OK, h') \<and> joining nm moved qs cs h' \<and>
    (\<forall>x. x \<notin> set (c # cs) \<longrightarrow> h' x = h x) \<and> entry_names h' = (entry_names h)(c := None)"
proof (cases cs)
  case Nil
  with j go obtain n where n: "h c = Some n" "de_next n = None" "de_prev n = Some c" "de_entry_name n = nm c"
    by (auto simp: joining_def entry_names_def)
  have fin: "disir_entry_finished (Some c) h = Some (OK, h(c := None))" using n by (intro finish_single) simp_all
  have "joining nm moved qs [] (h(c := None))" using j by (auto simp: joining_def entry_queue_def)
  then show ?thesis using fin n Nil by (intro exI [of _ n] exI [of _ "h(c := None)"]) (simp add: queue_head_def)
next
  case (Cons y zs)
  let ?p = "if moved then last qs else last cs"
  from j Cons have l: "linked h ?p (c # y # zs) None" and d: "distinct (c # y # zs)"
    by (auto simp: joining_def)
  obtain m where m: "h ?p = Some m" "de_next m = None"
    using linked_last [OF l] linked_last [of h "last qs" qs None] j Cons
    by (cases moved) (auto simp: joining_def entry_queue_def)
  obtain h' where h': "disir_entry_finished (Some c) h = Some (OK, h')" "linked h' ?p (y # zs) None"
    "\<forall>q. q \<noteq> c \<longrightarrow> q \<noteq> y \<longrightarrow> h' q = h q" "entry_names h' = (entry_names h)(c := None)"
    using finish_front [OF l d m] by blast
  have "entry_queue h' qs"
    using j h'(3) Cons entry_queue_cong [of qs h' h] by (fastforce simp: joining_def)
  moreover have "\<forall>x \<in> set cs. entry_names h' x = Some (nm x)" using h'(4) j d Cons by (auto simp: joining_def)
  moreover have "linked h' (if moved then last qs else last cs) cs None" using h'(2) Cons by simp
  ultimately have "joining nm moved qs cs h'" using j by (simp add: joining_def)
  moreover obtain n where "h c = Some n" "de_entry_name n = nm c" "de_next n = queue_head cs"
    using l j Cons by (auto simp: joining_def entry_names_def queue_head_def)
  ultimately show ?thesis using h'(1,3,4) Cons by (intro exI [of _ n] exI [of _ h']) simp
qed

lemma joining_stuck:
  "joining nm True qs [c] h \<Longrightarrow> \<exists>n. h c = Some n \<and> de_entry_name n = nm c \<and> disir_entry_finished (Some c) h = None"
  using finish_moved [of h qs c] by (auto simp: joining_def entry_names_def)


text \<open>The whole loop: what it returns unless it gets stuck, and that it does not return then.\<close>

lemma add_unique_joins:
  assumes "joining nm moved qs cs h" and "map_of_names names seen"
  shows "(if stuck nm seen moved cs then add_unique (queue_head cs) (queue_head qs) names h = None
     else \<exists>names' h'. add_unique (queue_head cs) (queue_head qs) names h =
         Some (queue_head (qs @ fresh nm seen cs), names', h') \<and>
       entry_queue h' (qs @ fresh nm seen cs) \<and> map_of_names names' (seen \<union> nm ` set cs) \<and>
       (\<forall>x. x \<notin> set (qs @ cs) \<longrightarrow> h' x = h x) \<and>
       entry_names h' = (\<lambda>x. if x \<in> set cs \<and> x \<notin> set (fresh nm seen cs) then None else entry_names h x))"
  using assms
proof (induction cs arbitrary: moved qs h names seen)
  case Nil
  then show ?case by (auto simp: add_unique.simps queue_head_def joining_def)
next
  case (Cons c cs)
  have hd: "queue_head (c # cs) = Some c" by (simp add: queue_head_def)
  have has: "multimap_contains_key strcmp djb2 names (nm c) \<longleftrightarrow> nm c \<in> seen"
    using Cons.prems(2) by (simp add: map_of_names_def)
  show ?case
  proof (cases "nm c \<in> seen")
    case False
    obtain n h1 where n: "h c = Some n" "de_entry_name n = nm c" "de_next n = queue_head cs"
      and enq: "mq_enqueue_entry (queue_head qs) c h = Some (queue_head (qs @ [c]), h1)"
      and j: "joining nm True (qs @ [c]) cs h1" and h1: "\<forall>x. x \<notin> set (qs @ [c]) \<longrightarrow> h1 x = h x"
      "entry_names h1 = entry_names h"
      using joining_keep [OF Cons.prems(1)] by blast
    obtain r names1 where push: "multimap_push_value strcmp djb2 names (nm c) () = Some (r, names1)"
      "map_of_names names1 (insert (nm c) seen)" using map_of_names_push [OF Cons.prems(2)] by blast
    have "add_unique (queue_head (c # cs)) (queue_head qs) names h =
        add_unique (queue_head cs) (queue_head (qs @ [c])) names1 h1"
      using n enq push has False by (subst add_unique.simps) (simp add: hd)
    note loop = this
    have c: "c \<notin> set cs" "set (fresh nm (insert (nm c) seen) cs) \<subseteq> set cs"
      using Cons.prems(1) set_fresh by (auto simp: joining_def)
    show ?thesis
    proof (cases "stuck nm (insert (nm c) seen) True cs")
      case True
      then show ?thesis using Cons.IH [OF j push(2)] False loop by simp
    next
      case go: False
      obtain names' h' where "add_unique (queue_head cs) (queue_head (qs @ [c])) names1 h1 =
          Some (queue_head ((qs @ [c]) @ fresh nm (insert (nm c) seen) cs), names', h')"
        "entry_queue h' ((qs @ [c]) @ fresh nm (insert (nm c) seen) cs)"
        "map_of_names names' (insert (nm c) seen \<union> nm ` set cs)" "\<forall>x. x \<notin> set ((qs @ [c]) @ cs) \<longrightarrow> h' x = h1 x"
        "entry_names h' = (\<lambda>x. if x \<in> set cs \<and> x \<notin> set (fresh nm (insert (nm c) seen) cs) then None else entry_names h1 x)"
        using Cons.IH [OF j push(2)] go by auto
      then show ?thesis using False go loop h1 c
        by (subst if_not_P, simp, intro exI [of _ names'] exI [of _ h']) (auto simp: fun_eq_iff)
    qed
  next
    case True
    show ?thesis
    proof (cases "cs = [] \<and> moved")
      case True
      with joining_stuck [of nm qs c h] Cons.prems(1) obtain n where
        "h c = Some n" "de_entry_name n = nm c" "disir_entry_finished (Some c) h = None" by auto
      then show ?thesis using has \<open>nm c \<in> seen\<close> True
        by (subst add_unique.simps) (simp add: queue_head_def)
    next
      case False
      obtain n h1 where n: "h c = Some n" "de_entry_name n = nm c" "de_next n = queue_head cs"
        and fin: "disir_entry_finished (Some c) h = Some (OK, h1)" and j: "joining nm moved qs cs h1"
        and h1: "\<forall>x. x \<notin> set (c # cs) \<longrightarrow> h1 x = h x" "entry_names h1 = (entry_names h)(c := None)"
        using joining_drop [OF Cons.prems(1)] False by blast
      have "add_unique (queue_head (c # cs)) (queue_head qs) names h =
          add_unique (queue_head cs) (queue_head qs) names h1"
        using n fin has \<open>nm c \<in> seen\<close> by (subst add_unique.simps) (simp add: hd)
      note loop = this
      have c: "c \<notin> set cs" "set (fresh nm seen cs) \<subseteq> set cs"
        using Cons.prems(1) set_fresh by (auto simp: joining_def)
      have st: "stuck nm seen moved (c # cs) \<longleftrightarrow> stuck nm seen moved cs" using False True by auto
      show ?thesis
      proof (cases "stuck nm seen moved cs")
        case True
        then show ?thesis using Cons.IH [OF j Cons.prems(2)] st loop by simp
      next
        case go: False
        obtain names' h' where "add_unique (queue_head cs) (queue_head qs) names h1 =
            Some (queue_head (qs @ fresh nm seen cs), names', h')"
          "entry_queue h' (qs @ fresh nm seen cs)" "map_of_names names' (seen \<union> nm ` set cs)"
          "\<forall>x. x \<notin> set (qs @ cs) \<longrightarrow> h' x = h1 x"
          "entry_names h' = (\<lambda>x. if x \<in> set cs \<and> x \<notin> set (fresh nm seen cs) then None else entry_names h1 x)"
          using Cons.IH [OF j Cons.prems(2)] go by auto
        then show ?thesis using st go loop h1 c \<open>nm c \<in> seen\<close>
          by (subst if_not_P, simp, intro exI [of _ names'] exI [of _ h']) (auto simp: fun_eq_iff insert_absorb)
      qed
    qed
  qed
qed


lemma stuck_iff:
  "stuck nm seen moved cs \<longleftrightarrow> cs \<noteq> [] \<and> nm (last cs) \<in> seen \<union> nm ` set (butlast cs) \<and>
     (moved \<or> \<not> nm ` set (butlast cs) \<subseteq> seen)"
  by (induction nm seen moved cs rule: stuck.induct) auto

lemma fresh_names: "seen \<union> nm ` set (fresh nm seen cs) = seen \<union> nm ` set cs"
  by (induction nm seen cs rule: fresh.induct) auto

lemma fresh_distinct: "distinct (map nm (fresh nm seen cs)) \<and> nm ` set (fresh nm seen cs) \<inter> seen = {}"
  by (induction nm seen cs rule: fresh.induct) auto

lemma joining_start:
  "entry_queue h qs \<Longrightarrow> entry_queue h cs \<Longrightarrow> set qs \<inter> set cs = {} \<Longrightarrow>
   \<forall>x \<in> set cs. entry_names h x = Some (nm x) \<Longrightarrow> joining nm False qs cs h"
  by (cases cs) (auto simp: joining_def entry_queue_def)

section \<open>The properties\<close>

text \<open>
  C2. The list of a plugin joined to the entries \<open>qs\<close> the plugins before it gave: unless its last
  name is a duplicate behind a new one, the loop returns the old entries followed by the new
  ones, one for each name of either list and in their order, correctly linked; the entries
  that are not kept are freed.
\<close>

theorem joined_entries:
  assumes "entry_queue h qs" and "entry_queue h cs" and "set qs \<inter> set cs = {}"
    and "\<forall>x \<in> set cs. entry_names h x = Some (nm x)"
    and "map_of_names names (nm ` set qs)" and "distinct (map nm qs)"
    and "cs = [] \<or> nm (last cs) \<notin> nm ` set (qs @ butlast cs) \<or> nm ` set (butlast cs) \<subseteq> nm ` set qs"
  shows "\<exists>kept names' h'. add_unique (queue_head cs) (queue_head qs) names h = Some (queue_head (qs @ kept), names', h') \<and>
    kept = fresh nm (nm ` set qs) cs \<and> entry_queue h' (qs @ kept) \<and> distinct (map nm (qs @ kept)) \<and>
    nm ` set (qs @ kept) = nm ` set (qs @ cs) \<and> (\<forall>x \<in> set cs - set kept. h' x = None)"
proof -
  let ?kept = "fresh nm (nm ` set qs) cs"
  have "\<not> stuck nm (nm ` set qs) False cs" using assms(7) by (auto simp: stuck_iff)
  with add_unique_joins [OF joining_start [OF assms(1-4)] assms(5)] obtain names' h' where
    run: "add_unique (queue_head cs) (queue_head qs) names h = Some (queue_head (qs @ ?kept), names', h')"
      "entry_queue h' (qs @ ?kept)"
    and freed: "entry_names h' = (\<lambda>x. if x \<in> set cs \<and> x \<notin> set ?kept then None else entry_names h x)"
    by auto
  have "distinct (map nm (qs @ ?kept))" using assms(6) fresh_distinct [of nm "nm ` set qs" cs] by auto
  moreover have "nm ` set (qs @ ?kept) = nm ` set (qs @ cs)"
    using fresh_names [of "nm ` set qs" nm cs] by (simp add: image_Un)
  moreover have "h' x = None" if "x \<in> set cs - set ?kept" for x
    using fun_cong [OF freed, of x] that by (simp add: entry_names_def)
  ultimately show ?thesis using run by blast
qed

text \<open>Two lists: one entry named x, and one named a followed by another one named x.\<close>

definition sample_entry :: "string \<Rightarrow> ptr option \<Rightarrow> ptr \<Rightarrow> disir_entry" where
  "sample_entry name after before = \<lparr>de_entry_name = name, de_attributes = 0, de_next = after, de_prev = Some before\<rparr>"

definition sample_entries :: entry_heap where
  "sample_entries = [1 \<mapsto> sample_entry ''x'' None 1, 2 \<mapsto> sample_entry ''a'' (Some 3) 3, 3 \<mapsto> sample_entry ''x'' None 2]"

lemma sample_lists: "entry_queue sample_entries [1]" "entry_queue sample_entries [2, 3]"
  by (simp_all add: entry_queue_def sample_entries_def sample_entry_def)

definition sample_names :: "ptr \<Rightarrow> string" where
  "sample_names p = (if p = 2 then ''a'' else ''x'')"

lemma sample_entry_names: "p \<in> {1, 2, 3} \<Longrightarrow> entry_names sample_entries p = Some (sample_names p)"
  by (auto simp: entry_names_def sample_entries_def sample_entry_def sample_names_def)

lemma map_of_names_exists: "\<exists>names :: (string, unit) multimap. map_of_names names (set xs)"
proof (induction xs)
  case Nil
  then show ?case using map_of_no_names by auto
next
  case (Cons x xs)
  then obtain names :: "(string, unit) multimap" where "map_of_names names (set xs)" by blast
  from map_of_names_push [OF this, of x "()"] show ?case by auto
qed

theorem joined_entries_witness:
  "\<exists>names names' h'. add_unique (Some 1) (Some 2) names sample_entries = Some (Some 2, names', h') \<and>
     entry_queue h' [2, 3] \<and> h' 1 = None"
proof -
  obtain names :: "(string, unit) multimap" where "map_of_names names (sample_names ` set [2, 3])"
    using map_of_names_exists [of "map sample_names [2, 3]"] by auto
  from joined_entries [OF sample_lists(2,1) _ _ this] sample_entry_names show ?thesis
    by (auto simp: queue_head_def sample_names_def)
qed

text \<open>
  C1. When the last entry of the list of a plugin has a name seen before, and one before it in the
  list was new, the loop never returns: giving back the last entry walks back in search of the
  head of a list its predecessor has left for the result.
\<close>

theorem joining_never_returns:
  assumes "entry_queue h qs" and "entry_queue h cs" and "set qs \<inter> set cs = {}"
    and "\<forall>x \<in> set cs. entry_names h x = Some (nm x)" and "map_of_names names (nm ` set qs)"
    and "c \<in> set (butlast cs)" and "nm c \<notin> nm ` set qs" and "nm (last cs) \<in> nm ` set (qs @ butlast cs)"
  shows "add_unique (queue_head cs) (queue_head qs) names h = None"
proof -
  have "stuck nm (nm ` set qs) False cs" using assms(6-8) by (auto simp: stuck_iff)
  with add_unique_joins [OF joining_start [OF assms(1-4)] assms(5)] show ?thesis by simp
qed

text \<open>Two plugins of one group that list these entries.\<close>

definition listing_plugin :: "ptr \<Rightarrow> unit plugin_internal" where
  "listing_plugin q = \<lparr>pi_dl_handler = None, pi_filepath = None, pi_io_id = ''io'', pi_group_id = ''g'',
     pi_plugin = \<lparr>dp_major_version = 0, dp_minor_version = 0, dp_name = Some ''p'', dp_description = Some [],
       dp_config_entry_type = Some [], dp_mold_entry_type = Some [], dp_config_base_id = None, dp_mold_base_id = None,
       dp_plugin_finished = None, dp_config_read = None, dp_config_write = None, dp_config_remove = None,
       dp_config_fd_read = None, dp_config_entries = Some (\<lambda>_ e. Some (OK, Some q, e)), dp_config_query = None,
       dp_mold_read = None, dp_mold_write = None, dp_mold_entries = None, dp_mold_query = None\<rparr>\<rparr>"

definition two_listers :: "unit disir_instance" where
  "two_listers = \<lparr>dio_plugin_queue = [listing_plugin 1, listing_plugin 2], libdisir_config = None\<rparr>"

definition listing_env :: "unit env" where
  "listing_env = \<lparr>env_world = (), env_store = empty_store, env_entries = sample_entries, disir_error_message = []\<rparr>"

theorem joining_never_returns_witness:
  "disir_config_entries (Some two_listers) (Some ''g'') True listing_env = None"
proof -
  have "joining sample_names False [] [1] sample_entries"
    using sample_lists(1) sample_entry_names [of 1] by (intro joining_start) (simp_all add: entry_queue_def)
  from add_unique_joins [OF this map_of_no_names] obtain names h where
    first: "add_unique (Some 1) None multimap_create sample_entries = Some (Some 1, names, h)" "entry_queue h [1]"
      "map_of_names names (sample_names ` set [1])" "h 2 = sample_entries 2" "h 3 = sample_entries 3"
    by (auto simp: queue_head_def)
  have "entry_queue h [2, 3]" "\<forall>x \<in> set [2, 3]. entry_names h x = Some (sample_names x)"
    using first(4,5) sample_entry_names [of 2] sample_entry_names [of 3] sample_lists(2)
    by (auto simp: entry_queue_def entry_names_def)
  from joining_never_returns [OF first(2) this(1) _ this(2) first(3), of 2]
  have "add_unique (Some 2) (Some 1) names h = None" by (simp add: queue_head_def sample_names_def)
  with first(1) show ?thesis
    by (simp add: disir_config_entries_def two_listers_def listing_plugin_def listing_env_def disir_error_clear_def)
qed

end
