(* ===== verification/Startup.thy ===== *)
theory Startup
  imports Instances Api
begin

text \<open>
  The creation of an instance from its configuration and its end (src/lib/disir.c), and the mold
  that configuration has (src/lib/instance_mold.c). Shared objects are loaded through a parameter,
  the record of the functions of the dynamic linker; a registration function gets the zeroed
  settings of the plugin and returns them filled in. The reader of TOML files, over a third-party
  parser, and the opening of files are parameters, too.
\<close>

type_synonym 'w plugin_register = "'w register_plugin \<Rightarrow> 'w env \<Rightarrow> (status \<times> 'w register_plugin \<times> 'w env) option"

record 'w linker =
  dlopen :: "string \<Rightarrow> 'w env \<Rightarrow> nat option \<times> 'w env"
  dlsym :: "nat \<Rightarrow> 'w plugin_register option"
  dlclose :: "nat option \<Rightarrow> 'w env \<Rightarrow> 'w env option"
  dlerror :: "'w env \<Rightarrow> string"

section \<open>Loading plugins\<close>

definition empty_plugin :: "'w register_plugin" where
  "empty_plugin = \<lparr>dp_major_version = 0, dp_minor_version = 0, dp_name = None, dp_description = None,
     dp_config_entry_type = None, dp_mold_entry_type = None, dp_config_base_id = None, dp_mold_base_id = None,
     dp_plugin_finished = None, dp_config_read = None, dp_config_write = None, dp_config_remove = None,
     dp_config_fd_read = None, dp_config_entries = None, dp_config_query = None,
     dp_mold_read = None, dp_mold_write = None, dp_mold_entries = None, dp_mold_query = None\<rparr>"

declare empty_plugin_def [code_unfold]

definition load_plugin :: "'w linker \<Rightarrow> 'w disir_instance \<Rightarrow> string \<Rightarrow> string \<Rightarrow> string \<Rightarrow> string option \<Rightarrow> string option \<Rightarrow>
    'w env \<Rightarrow> (status \<times> 'w disir_instance \<times> 'w env) option" where
  "load_plugin dl i plugin_filepath io_id grp config_base_id mold_base_id e =
     (case dlopen dl plugin_filepath e of
        (None, e) \<Rightarrow> Some (LOAD_ERROR, i, disir_error_set
            (''Plugin '' @ quoted io_id @ '' could not be loaded: '' @ dlerror dl e) e)
      | (Some handle, e) \<Rightarrow>
          (case dlsym dl handle of
             None \<Rightarrow> do {
               e \<leftarrow> dlclose dl (Some handle) (disir_error_set
                 (''Plugin could not locate symbol '' @ quoted ''dio_register_plugin'' @ '' in SO '' @
                  quoted plugin_filepath @ '': '' @ dlerror dl e) e);
               Some (PLUGIN_ERROR, i, e) }
           | Some dio_reg \<Rightarrow> do {
               (status, plugin, e) \<leftarrow> dio_reg
                 (empty_plugin\<lparr>dp_config_base_id := map_option (take 512) config_base_id,
                               dp_mold_base_id := map_option (take 512) mold_base_id\<rparr>) e;
               if status \<noteq> OK then do {
                 e \<leftarrow> dlclose dl (Some handle) e;
                 Some (PLUGIN_ERROR, i, e) }
               else do {
                 (status, registered) \<leftarrow> disir_plugin_register (Some i) (Some plugin) (Some io_id) (Some grp);
                 i \<leftarrow> registered;
                 if status \<noteq> OK then do {
                   e \<leftarrow> dlclose dl (Some handle) e;
                   Some (status, i, e) }
                 else
                   let q = dio_plugin_queue i;
                       internal = (last q)\<lparr>pi_dl_handler := Some handle, pi_filepath := Some (take 512 plugin_filepath)\<rparr>
                   in Some (OK, i\<lparr>dio_plugin_queue := butlast q @ [internal]\<rparr>, e) } }))"

text \<open>The text of a keyval of a section of the configuration, \<open>None\<close> when it cannot be read.\<close>

definition plugin_text :: "ptr option \<Rightarrow> string \<Rightarrow> store \<Rightarrow> (string option \<times> store) option" where
  "plugin_text plugin name s = do {
     (_, v, s) \<leftarrow> dc_config_get_keyval_string plugin True (Some name) s;
     Some (case v of Some (QString x) \<Rightarrow> x | _ \<Rightarrow> None, s) }"

definition missing :: "string option \<Rightarrow> bool" where
  "missing x \<longleftrightarrow> x = None \<or> x = Some []"

text \<open>The loop, bounded by the number of sections; with it the section it stopped at.\<close>

primrec load_plugins :: "'w linker \<Rightarrow> nat \<Rightarrow> disir_collection \<Rightarrow> 'w disir_instance \<Rightarrow> 'w env \<Rightarrow>
    (status \<times> ptr option \<times> disir_collection \<times> 'w disir_instance \<times> 'w env) option" where
  "load_plugins dl 0 coll i e = None"
| "load_plugins dl (Suc n) coll i e = do {
     (status, plugin, coll, s) \<leftarrow> dc_collection_next coll (env_store e);
     if status \<noteq> OK then Some (OK, plugin, coll, i, e\<lparr>env_store := s\<rparr>)
     else do {
       (plugin_filepath, s) \<leftarrow> plugin_text plugin ''plugin_filepath'' s;
       (group_id, s) \<leftarrow> plugin_text plugin ''group_id'' s;
       (io_id, s) \<leftarrow> plugin_text plugin ''io_id'' s;
       (config_base_id, s) \<leftarrow> plugin_text plugin ''config_base_id'' s;
       (mold_base_id, s) \<leftarrow> plugin_text plugin ''mold_base_id'' s;
       let e = e\<lparr>env_store := s\<rparr>;
       if missing plugin_filepath \<or> missing group_id \<or> missing io_id then Some (CONFIG_INVALID, plugin, coll, i, e)
       else do {
         (status, i, e) \<leftarrow> load_plugin dl i (the plugin_filepath) (the io_id) (the group_id) config_base_id mold_base_id e;
         if status \<noteq> OK then Some (status, plugin, coll, i, e)
         else do {
           (_, s) \<leftarrow> dc_putcontext plugin (env_store e);
           load_plugins dl n coll i (e\<lparr>env_store := s\<rparr>) } } } }"

definition load_plugins_from_config :: "'w linker \<Rightarrow> 'w disir_instance \<Rightarrow> ptr option \<Rightarrow> 'w env \<Rightarrow>
    (status \<times> 'w disir_instance \<times> 'w env) option" where
  "load_plugins_from_config dl i config e = do {
     (context, s) \<leftarrow> dc_config_getcontext config (env_store e);
     if context = None then
       Some (INVALID_ARGUMENT, i, disir_error_set ''Failed to retrieve context from config object.'' (e\<lparr>env_store := s\<rparr>))
     else do {
       (status, coll, s) \<leftarrow> dc_find_elements context (Some ''plugin'') s;
       if status \<noteq> OK then do {
         (_, s) \<leftarrow> dc_putcontext context s;
         s \<leftarrow> (if coll = None then Some s else do { (_, s) \<leftarrow> dc_collection_finished coll s; Some s });
         Some (status, i, e\<lparr>env_store := s\<rparr>) }
       else do {
         coll \<leftarrow> coll;
         (status, plugin, coll, i, e) \<leftarrow> load_plugins dl (cc_numentries coll + 1) coll i (e\<lparr>env_store := s\<rparr>);
         s \<leftarrow> (if plugin = None then Some (env_store e) else do { (_, s) \<leftarrow> dc_putcontext plugin (env_store e); Some s });
         (_, s) \<leftarrow> dc_putcontext context s;
         (_, s) \<leftarrow> dc_collection_finished (Some coll) s;
         Some (status, i, e\<lparr>env_store := s\<rparr>) } } }"

section \<open>The mold of the configuration\<close>

text \<open>The keyvals of the section of a plugin: name, default and documentation.\<close>

definition plugin_keyvals :: "(string \<times> string \<times> string) list" where
  "plugin_keyvals =
     [(''group_id'', [], ''Which group this plugin shall identify with.''),
      (''io_id'', [], ''A unique, human-readable, identifier for this plugin instance.''),
      (''config_base_id'', ''/etc/disir/configs'',
       ''The base identifier used to resolve config entries. For filesystem based plugins, this will be the base'' @
       '' directory path where configuration file entries are located.''),
      (''mold_base_id'', ''/etc/disir/configs'',
       ''The base identifier used to resolve mold entries. For filesystem based plugins, this will be the base'' @
       '' directory path where mold definition entries are located.''),
      (''plugin_filepath'', ''/usr/lib/disir/plugins/'', ''Filepath to specified I/O plugin shared library'')]"

fun add_strings :: "ptr option \<Rightarrow> (string \<times> string \<times> string) list \<Rightarrow> store \<Rightarrow> (status \<times> store) option" where
  "add_strings parent [] s = Some (OK, s)"
| "add_strings parent ((name, default_text, doc) # keyvals) s = do {
     (status, _, s) \<leftarrow> dc_add_keyval_string parent (Some name) (Some default_text) (Some doc) None False s;
     if status \<noteq> OK then Some (status, s) else add_strings parent keyvals s }"

text \<open>The section of a plugin; a section that fails half way stays with the mold.\<close>

definition plugin_section :: "ptr option \<Rightarrow> store \<Rightarrow> (status \<times> store) option" where
  "plugin_section context s = do {
     (status, section, s) \<leftarrow> dc_begin context CT_SECTION True s;
     if status \<noteq> OK then Some (status, s)
     else do {
       (status, s) \<leftarrow> dc_set_name section (Some ''plugin'') 6 s;
       if status \<noteq> OK then Some (status, s)
       else do {
         (status, s) \<leftarrow> dc_add_restriction_entries_max section 0 None s;
         if status \<noteq> OK then Some (status, s)
         else do {
           (status, s) \<leftarrow> add_strings section plugin_keyvals s;
           if status \<noteq> OK then Some (status, s)
           else do {
             (status, _, s) \<leftarrow> dc_finalize section s;
             Some (status, s) } } } } }"

definition INTERNAL_MOLD_DOCSTRING :: string where
  "INTERNAL_MOLD_DOCSTRING = ''The Disir Schema for the internal libdisir configuration.''"

definition disir_libdisir_mold :: "store \<Rightarrow> (status \<times> ptr option \<times> store) option" where
  "disir_libdisir_mold s = do {
     (status, context, s) \<leftarrow> dc_mold_begin True s;
     if status \<noteq> OK then Some (status, None, s)
     else do {
       (status, s) \<leftarrow> dc_add_documentation context (Some INTERNAL_MOLD_DOCSTRING) (int (length INTERNAL_MOLD_DOCSTRING)) s;
       (status, s) \<leftarrow> (if status \<noteq> OK then Some (status, s) else plugin_section context s);
       (status, mold, context, s) \<leftarrow>
         (if status \<noteq> OK then Some (status, None, context, s) else dc_mold_finalize context True s);
       if status = OK then Some (OK, mold, s)
       else do {
         s \<leftarrow> (if context = None then Some s else do { (_, s) \<leftarrow> dc_destroy context s; Some s });
         Some (status, None, s) } } }"

section \<open>Instances\<close>

text \<open>The configuration in a file: what the TOML reader makes of it, when the file can be opened.\<close>

definition disir_libdisir_config_from_disk :: "(string \<Rightarrow> 'w env \<Rightarrow> nat option \<times> 'w env) \<Rightarrow> (nat \<Rightarrow> 'w env \<Rightarrow> 'w env) \<Rightarrow>
    (nat \<Rightarrow> ptr option \<Rightarrow> 'w env \<Rightarrow> (status \<times> ptr option \<times> 'w env) option) \<Rightarrow> string \<Rightarrow> ptr option \<Rightarrow> 'w env \<Rightarrow>
    (status \<times> ptr option \<times> 'w env) option" where
  "disir_libdisir_config_from_disk fopen fclose unserialize filepath mold e =
     (case fopen filepath e of
        (None, e) \<Rightarrow> Some (INVALID_ARGUMENT, None, e)
      | (Some file, e) \<Rightarrow> do {
          (status, config, e) \<leftarrow> unserialize file mold e;
          Some (status, config, fclose file e) })"

definition disir_libdisir_config_to_disk :: "(string \<Rightarrow> 'w env \<Rightarrow> nat option \<times> 'w env) \<Rightarrow> (nat \<Rightarrow> 'w env \<Rightarrow> 'w env) \<Rightarrow>
    (ptr option \<Rightarrow> nat \<Rightarrow> 'w env \<Rightarrow> (status \<times> 'w env) option) \<Rightarrow> ptr option \<Rightarrow> string \<Rightarrow> 'w env \<Rightarrow>
    (status \<times> 'w env) option" where
  "disir_libdisir_config_to_disk fopen fclose serialize config filepath e =
     (case fopen filepath e of
        (None, e) \<Rightarrow> Some (INVALID_ARGUMENT, e)
      | (Some file, e) \<Rightarrow> do {
          (status, e) \<leftarrow> serialize config file e;
          Some (status, fclose file e) })"

text \<open>The default configuration: a generated config without the section of a plugin it starts with.\<close>

definition default_config :: "ptr option \<Rightarrow> store \<Rightarrow> (status \<times> ptr option \<times> store) option" where
  "default_config libmold s = do {
     (_, libconf, s) \<leftarrow> disir_generate_config_from_mold libmold None s;
     config \<leftarrow> libconf;
     (context, s) \<leftarrow> dc_config_getcontext (Some config) s;
     (status, plugin, s) \<leftarrow> dc_find_element context (Some ''plugin'') 0 s;
     s \<leftarrow> (if status = OK then do { (_, s) \<leftarrow> dc_destroy plugin s; Some s } else Some s);
     Some (status, Some config, s) }"

text \<open>Giving back the mold of the configuration; the variable is cleared on success only.\<close>

definition release_mold :: "ptr option \<Rightarrow> store \<Rightarrow> (ptr option \<times> store) option" where
  "release_mold libmold s =
     (if libmold = None then Some (None, s)
      else do {
        (status, s) \<leftarrow> disir_mold_finished libmold s;
        Some (if status = OK then None else libmold, s) })"

definition disir_instance_create :: "'w linker \<Rightarrow> (string \<Rightarrow> ptr option \<Rightarrow> 'w env \<Rightarrow> (status \<times> ptr option \<times> 'w env) option) \<Rightarrow>
    string option \<Rightarrow> ptr option \<Rightarrow> bool \<Rightarrow> 'w env \<Rightarrow> (status \<times> 'w disir_instance option \<times> 'w env) option" where
  "disir_instance_create dl config_from_disk config_filepath config has_output e =
     (if \<not> has_output then Some (INVALID_ARGUMENT, None, e)
      else do {
        let dis = \<lparr>dio_plugin_queue = [], libdisir_config = None\<rparr>;
        (status, libmold, s) \<leftarrow> (if config = None then disir_libdisir_mold (env_store e) else Some (OK, None, env_store e));
        let e = e\<lparr>env_store := s\<rparr>;
        if status \<noteq> OK then Some (status, None, e)
        else do {
          (status, libconf, e) \<leftarrow>
            (if config \<noteq> None then Some (OK, config, e)
             else case config_filepath of
               Some path \<Rightarrow> config_from_disk path libmold e
             | None \<Rightarrow> do { (status, libconf, s) \<leftarrow> default_config libmold s; Some (status, libconf, e\<lparr>env_store := s\<rparr>) });
          (libmold, s) \<leftarrow> release_mold libmold (env_store e);
          let e = e\<lparr>env_store := s\<rparr>;
          (loaded, status, dis, e) \<leftarrow>
            (if status \<noteq> OK then Some (False, status, dis, e)
             else do {
               (status, dis, e) \<leftarrow> load_plugins_from_config dl dis libconf e;
               Some (status = OK \<or> status = NOT_EXIST, status, dis, e) });
          if loaded then Some (OK, Some (dis\<lparr>libdisir_config := libconf\<rparr>), e)
          else do {
            (_, s) \<leftarrow> release_mold libmold (env_store e);
            Some (status, None, e\<lparr>env_store := s\<rparr>) } } })"

text \<open>The plugins are told and unloaded in the order they were registered in.\<close>

fun unload_plugins :: "'w linker \<Rightarrow> 'w plugin_internal list \<Rightarrow> 'w env \<Rightarrow> 'w env option" where
  "unload_plugins dl [] e = Some e"
| "unload_plugins dl (plugin # queue) e = do {
     e \<leftarrow> (case dp_plugin_finished (pi_plugin plugin) of None \<Rightarrow> Some e | Some finished \<Rightarrow> finished e);
     e \<leftarrow> dlclose dl (pi_dl_handler plugin) e;
     unload_plugins dl queue e }"

definition disir_instance_destroy :: "'w linker \<Rightarrow> 'w disir_instance option \<Rightarrow> 'w env \<Rightarrow>
    (status \<times> 'w disir_instance option \<times> 'w env) option" where
  "disir_instance_destroy dl instance e =
     (case instance of None \<Rightarrow> Some (INVALID_ARGUMENT, None, e)
      | Some i \<Rightarrow> do {
          e \<leftarrow> unload_plugins dl (dio_plugin_queue i) e;
          (_, _, s) \<leftarrow> disir_config_finished (libdisir_config i) (env_store e);
          Some (OK, None, e\<lparr>env_store := s, disir_error_message := []\<rparr>) })"

section \<open>What a created instance holds\<close>

text \<open>A plugin loaded from the configuration: named and identified, with the object it comes from.\<close>

definition loaded_plugin :: "'w plugin_internal \<Rightarrow> bool" where
  "loaded_plugin p \<longleftrightarrow> pi_group_id p \<noteq> [] \<and> pi_io_id p \<noteq> [] \<and> pi_dl_handler p \<noteq> None \<and>
     \<not> missing (pi_filepath p) \<and> dp_name (pi_plugin p) \<noteq> None"

definition all_loaded :: "'w disir_instance \<Rightarrow> bool" where
  "all_loaded i \<longleftrightarrow> (\<forall>p \<in> set (dio_plugin_queue i). loaded_plugin p)"

lemma load_plugin_keeps:
  assumes "load_plugin dl i path io_id grp base_c base_m e = Some (status, i', e')"
  shows "if status = OK
    then \<exists>p. dio_plugin_queue i' = dio_plugin_queue i @ [p] \<and> pi_group_id p = grp \<and> pi_io_id p = io_id \<and>
           pi_dl_handler p \<noteq> None \<and> pi_filepath p = Some (take 512 path) \<and> dp_name (pi_plugin p) \<noteq> None
    else i' = i"
  using assms
  by (auto simp: load_plugin_def disir_plugin_register_def Let_def split: prod.splits option.splits if_splits
      elim!: bind_SomeE)

lemma load_plugins_loaded:
  "load_plugins dl n coll i e = Some (status, plugin, coll', i', e') \<Longrightarrow> all_loaded i \<Longrightarrow> all_loaded i'"
proof (induction n arbitrary: coll i e)
  case (Suc n)
  from Suc.prems(1) obtain st q coll1 s where next_section: "dc_collection_next coll (env_store e) = Some (st, q, coll1, s)"
    by (auto elim!: bind_SomeE)
  show ?case
  proof (cases "st = OK")
    case False
    then show ?thesis using Suc.prems next_section by auto
  next
    case True
    from Suc.prems(1) next_section True obtain path grp io_id base_c base_m s1 where
      rest: "(if missing path \<or> missing grp \<or> missing io_id then Some (CONFIG_INVALID, q, coll1, i, e\<lparr>env_store := s1\<rparr>)
         else do {
           (status, i, e) \<leftarrow> load_plugin dl i (the path) (the io_id) (the grp) base_c base_m (e\<lparr>env_store := s1\<rparr>);
           if status \<noteq> OK then Some (status, q, coll1, i, e)
           else do {
             (_, s) \<leftarrow> dc_putcontext q (env_store e);
             load_plugins dl n coll1 i (e\<lparr>env_store := s\<rparr>) } }) = Some (status, plugin, coll', i', e')"
      by (auto simp: Let_def elim!: bind_SomeE split del: if_split)
    show ?thesis
    proof (cases "missing path \<or> missing grp \<or> missing io_id")
      case True
      then show ?thesis using rest Suc.prems(2) by auto
    next
      case False
      with rest obtain st1 i1 e1 where
        load: "load_plugin dl i (the path) (the io_id) (the grp) base_c base_m (e\<lparr>env_store := s1\<rparr>) = Some (st1, i1, e1)"
        and go: "(if st1 \<noteq> OK then Some (st1, q, coll1, i1, e1)
           else do { (_, s) \<leftarrow> dc_putcontext q (env_store e1); load_plugins dl n coll1 i1 (e1\<lparr>env_store := s\<rparr>) }) =
           Some (status, plugin, coll', i', e')"
        by (auto elim!: bind_SomeE split del: if_split)
      have "the path \<noteq> []" "the grp \<noteq> []" "the io_id \<noteq> []" using False by (auto simp: missing_def)
      then have "all_loaded i1"
        using load_plugin_keeps [OF load] Suc.prems(2)
        by (cases "st1 = OK") (auto simp: all_loaded_def loaded_plugin_def missing_def)
      then show ?thesis using go Suc.IH by (auto elim!: bind_SomeE split: if_splits)
    qed
  qed
qed simp

lemma load_from_config_loaded:
  "load_plugins_from_config dl i config e = Some (status, i', e') \<Longrightarrow> all_loaded i \<Longrightarrow> all_loaded i'"
  unfolding load_plugins_from_config_def
  by (auto simp del: load_plugins.simps elim!: bind_SomeE split: if_splits; erule (1) load_plugins_loaded)

text \<open>
  C8. Every plugin of an instance that was created belongs to a group, has an identifier, a name
  and the object it was loaded from: a section of the configuration that lacks one of them
  makes the creation fail.
\<close>

theorem created_instance_loaded:
  assumes "disir_instance_create dl config_from_disk path config has_output e = Some (status, Some i, e')"
  shows "status = OK \<and> (\<forall>p \<in> set (dio_plugin_queue i). loaded_plugin p)"
proof -
  have "all_loaded \<lparr>dio_plugin_queue = [], libdisir_config = None\<rparr>" by (simp add: all_loaded_def)
  from assms this have "status = OK \<and> all_loaded i" unfolding disir_instance_create_def
    by (auto simp: Let_def all_loaded_def elim!: bind_SomeE split: if_splits dest!: load_from_config_loaded)
  then show ?thesis by (simp add: all_loaded_def)
qed

end
