(* ===== verification/Imports.thy ===== *)
theory Imports
  imports Instances Update Compare
begin

text \<open>
  Importing the configs of an archive (src/lib/disir_import.c, src/lib/include/import.h, and the
  loop of src/lib/disir_archive.cc that builds the import): each entry of the archive is compared
  with the mold and the config the plugin of its group has, the caller resolves the entries one by
  one, and the entries marked for import are written when the import is finalized.

  The files of the archive are opened through the parameters \<open>fopen\<close> and \<open>fclose\<close>, a handle
  being a number; \<^verbatim>\<open>strtod\<close> is the parameter of the updates. \<^verbatim>\<open>di_num_entries\<close> is the length
  of the list of entries.
\<close>

section \<open>Entries\<close>

record import_entry =
  ie_entry_id :: string
  ie_group_id :: string
  ie_backend_id :: string
  ie_info :: "string option"
  ie_version :: string
  ie_status :: status
  ie_import :: bool
  ie_conflict :: bool
  ie_config :: "ptr option"

record disir_import =
  di_entries :: "import_entry option list"

datatype import_option =
    IMPORT_UPDATE | IMPORT_FORCE | IMPORT_DO | IMPORT_DISCARD | IMPORT_UPDATE_WITH_DISCARD | IMPORT_UNKNOWN

text \<open>The message is formatted into 1000 bytes, and its terminator put at its full length.\<close>

definition import_info_set :: "string \<Rightarrow> import_entry \<Rightarrow> import_entry option" where
  "import_info_set message entry = (if 1000 \<le> length message then None else Some (entry\<lparr>ie_info := Some message\<rparr>))"

section \<open>What the system has for an entry\<close>

definition verify_mold_support :: "'w disir_instance \<Rightarrow> import_entry \<Rightarrow> 'w env \<Rightarrow>
    (status \<times> ptr option \<times> import_entry \<times> 'w env) option" where
  "verify_mold_support i current e =
     (case dx_retrieve_plugin_by_group i (ie_group_id current) of
        None \<Rightarrow> do {
          current \<leftarrow> import_info_set (''group '' @ quoted (ie_group_id current) @ '' is not supported by system'') current;
          Some (GROUP_MISSING, None, current, e) }
      | Some plugin \<Rightarrow> do {
          name \<leftarrow> dp_name plugin;
          if ie_backend_id current \<noteq> name then do {
            current \<leftarrow> import_info_set ''mismatch between groups on system'' current;
            Some (NOT_EXIST, None, current, e) }
          else case dp_mold_read plugin of None \<Rightarrow> Some (NO_CAN_DO, None, current, e)
          | Some read \<Rightarrow> do {
              (status, mold, e) \<leftarrow> read (settings_of plugin) (ie_entry_id current) e;
              current \<leftarrow> (if status = NOT_EXIST
                         then import_info_set ''system does not recognize archive entry'' current else Some current);
              Some (status, mold, current, e) } })"

text \<open>
  The comparison with the config of the system, when there is one: the versions first, then the
  contents. The references to the contexts and the config of the system are given back.
\<close>

definition versions_text :: "string \<Rightarrow> version \<Rightarrow> string \<Rightarrow> version \<Rightarrow> string option" where
  "versions_text what v other w = do {
     a \<leftarrow> dc_version_string True 256 (Some v);
     b \<leftarrow> dc_version_string True 256 (Some w);
     Some (''version of '' @ what @ '' ('' @ a @ '') is higher than '' @ other @ '' ('' @ b @ '')'') }"

definition compare_existing :: "import_entry \<Rightarrow> ptr \<Rightarrow> ptr \<Rightarrow> 'w env \<Rightarrow> (status \<times> import_entry \<times> 'w env) option" where
  "compare_existing current existing imported e = do {
     x \<leftarrow> get_config (env_store e) existing;
     y \<leftarrow> get_config (env_store e) imported;
     let res = dc_version_compare (cf_version x) (cf_version y);
     (status_version, current) \<leftarrow>
       (if 0 < res then do {
          text \<leftarrow> versions_text ''existing entry'' (cf_version x) ''archive entry'' (cf_version y);
          current \<leftarrow> import_info_set text current;
          Some (CONFLICTING_SEMVER, current\<lparr>ie_conflict := True\<rparr>) }
        else if res < 0 then do {
          text \<leftarrow> versions_text ''archive entry'' (cf_version y) ''existing entry'' (cf_version x);
          current \<leftarrow> import_info_set text current;
          Some (CONFLICTING_SEMVER, current\<lparr>ie_conflict := True\<rparr>) }
        else Some (OK, current));
     (context_existing, s) \<leftarrow> dc_config_getcontext (Some existing) (env_store e);
     (context_imported, s) \<leftarrow> dc_config_getcontext (Some imported) s;
     (status, _, s) \<leftarrow> dc_compare context_existing context_imported False s;
     current \<leftarrow>
       (if status = CONFLICT \<and> status_version = OK then
          import_info_set ''archive entry conflicts with existing entry'' (current\<lparr>ie_conflict := True\<rparr>)
        else if status = OK \<and> status_version = OK then
          import_info_set ''archive_entry is identical to existing entry'' (current\<lparr>ie_conflict := True\<rparr>)
        else Some current);
     (_, s) \<leftarrow> dc_putcontext context_existing s;
     (_, s) \<leftarrow> dc_putcontext context_imported s;
     Some (if status = OK then status_version else status, current, e\<lparr>env_store := s\<rparr>) }"

definition import_determine_conflict :: "'w disir_instance \<Rightarrow> import_entry \<Rightarrow> ptr option \<Rightarrow> ptr option \<Rightarrow> 'w env \<Rightarrow>
    (status \<times> import_entry \<times> 'w env) option" where
  "import_determine_conflict i current mold imported e =
     (case dx_retrieve_plugin_by_group i (ie_group_id current) of
        None \<Rightarrow> Some (GROUP_MISSING, current, e)
      | Some plugin \<Rightarrow> do {
          name \<leftarrow> dp_name plugin;
          if ie_backend_id current \<noteq> name then do {
            current \<leftarrow> import_info_set ''mismatch between groups on system'' current;
            Some (NO_CAN_DO, current, e) }
          else case dp_config_read plugin of None \<Rightarrow> Some (NO_CAN_DO, current, e)
          | Some read \<Rightarrow> do {
              (status, existing, e) \<leftarrow> read (settings_of plugin) (ie_entry_id current) mold e;
              if status = NOT_EXIST then Some (NOT_EXIST, current, e)
              else do {
                (status, current, e) \<leftarrow>
                  (if status \<noteq> OK then
                     Some (if status = INVALID_CONTEXT then CONFIG_INVALID else status, current, e)
                   else do {
                     x \<leftarrow> existing;
                     y \<leftarrow> imported;
                     compare_existing current x y e });
                s \<leftarrow> (if existing = None then Some (env_store e)
                     else do { (_, _, s) \<leftarrow> disir_config_finished existing (env_store e); Some s });
                Some (status, current, e\<lparr>env_store := s\<rparr>) } } })"

definition read_config_imported :: "(string \<Rightarrow> 'w env \<Rightarrow> nat option \<times> 'w env) \<Rightarrow> (nat \<Rightarrow> 'w env \<Rightarrow> 'w env) \<Rightarrow>
    'w disir_instance \<Rightarrow> string \<Rightarrow> string \<Rightarrow> ptr option \<Rightarrow> 'w env \<Rightarrow> (status \<times> ptr option \<times> 'w env) option" where
  "read_config_imported fopen fclose i filepath grp mold e =
     (case dx_retrieve_plugin_by_group i grp of
        None \<Rightarrow> Some (NO_CAN_DO, None, e)
      | Some plugin \<Rightarrow>
          (case fopen filepath e of
             (None, e) \<Rightarrow> Some (FS_ERROR, None, e)
           | (Some file, e) \<Rightarrow> do {
               (status, config, e) \<leftarrow>
                 (case dp_config_fd_read plugin of None \<Rightarrow> Some (NO_CAN_DO, None, e) | Some read \<Rightarrow> read file mold e);
               Some (status, config, fclose file e) }))"

text \<open>What the status of an entry becomes when its config could not be read.\<close>

definition unreadable :: "status \<Rightarrow> import_entry \<Rightarrow> (status \<times> import_entry) option" where
  "unreadable status import =
     (if status = CONFLICTING_SEMVER then do {
        import \<leftarrow> import_info_set ''archive entry is newer than system version'' import;
        Some (NO_CAN_DO, import) }
      else if status = FS_ERROR \<or> status = INVALID_CONTEXT then do {
        import \<leftarrow> import_info_set ''archive entry is invalid'' import;
        Some (CONFIG_INVALID, import) }
      else if status = NO_CAN_DO then do {
        import \<leftarrow> import_info_set ''group does implement support for import'' import;
        Some (NO_CAN_DO, import) }
      else Some (status, import))"

text \<open>An entry the system does not have: it conflicts only when its version is not that of the mold.\<close>

definition new_entry :: "import_entry \<Rightarrow> ptr option \<Rightarrow> ptr option \<Rightarrow> 'w env \<Rightarrow> (status \<times> import_entry) option" where
  "new_entry import mold config e = do {
     q \<leftarrow> mold;
     m \<leftarrow> get_mold (env_store e) q;
     p \<leftarrow> config;
     g \<leftarrow> get_config (env_store e) p;
     let import = import\<lparr>ie_conflict := False\<rparr>;
     if dc_version_compare (mo_version m) (cf_version g) = 0 then Some (OK, import)
     else do {
       a \<leftarrow> dc_version_string True 256 (Some (cf_version g));
       b \<leftarrow> dc_version_string True 256 (Some (mo_version m));
       import \<leftarrow> import_info_set
         (''archive entry version is ('' @ a @ '') but system version is ('' @ b @ '')'') import;
       Some (CONFLICTING_SEMVER, import) } }"

definition dx_resolve_config_import_status :: "(string \<Rightarrow> 'w env \<Rightarrow> nat option \<times> 'w env) \<Rightarrow> (nat \<Rightarrow> 'w env \<Rightarrow> 'w env) \<Rightarrow>
    'w disir_instance \<Rightarrow> string \<Rightarrow> import_entry \<Rightarrow> 'w env \<Rightarrow> (status \<times> import_entry \<times> 'w env) option" where
  "dx_resolve_config_import_status fopen fclose i config_path import e = do {
     (status, mold, import, e) \<leftarrow> verify_mold_support i import e;
     if status \<noteq> OK then Some (NO_CAN_DO, import, e)
     else do {
       (status, config, e) \<leftarrow> read_config_imported fopen fclose i config_path (ie_group_id import) mold e;
       let import = import\<lparr>ie_config := config\<rparr>;
       (status, import, e) \<leftarrow>
         (if status \<noteq> OK then do {
            (status, import) \<leftarrow> unreadable status import;
            Some (status, import, e) }
          else do {
            (status, import, e) \<leftarrow> import_determine_conflict i import mold config e;
            import \<leftarrow> (if status \<notin> {OK, CONFLICT, CONFLICTING_SEMVER, NOT_EXIST}
                       then import_info_set ''archive entry cannot be imported'' import else Some import);
            if status \<noteq> NOT_EXIST then Some (status, import, e)
            else do {
              (status, import) \<leftarrow> new_entry import mold config e;
              Some (status, import, e) } });
       s \<leftarrow> (if mold = None then Some (env_store e)
            else do { (_, s) \<leftarrow> disir_mold_finished mold (env_store e); Some s });
       Some (status, import, e\<lparr>env_store := s\<rparr>) } }"

section \<open>Giving an import back\<close>

definition dx_import_entry_destroy :: "import_entry \<Rightarrow> store \<Rightarrow> store option" where
  "dx_import_entry_destroy entry s =
     (if ie_config entry = None then Some s
      else do { (_, _, s) \<leftarrow> disir_config_finished (ie_config entry) s; Some s })"

fun destroy_entries :: "import_entry option list \<Rightarrow> store \<Rightarrow> store option" where
  "destroy_entries [] s = Some s"
| "destroy_entries (None # entries) s = destroy_entries entries s"
| "destroy_entries (Some entry # entries) s = do {
     s \<leftarrow> dx_import_entry_destroy entry s;
     destroy_entries entries s }"

text \<open>The entries are given back from the last one on; without any, the last one is read all the same.\<close>

definition dx_import_destroy :: "disir_import option \<Rightarrow> store \<Rightarrow> (status \<times> store) option" where
  "dx_import_destroy import s =
     (case import of None \<Rightarrow> Some (OK, s)
      | Some im \<Rightarrow>
          if di_entries im = [] then None
          else do { s \<leftarrow> destroy_entries (rev (di_entries im)) s; Some (OK, s) })"

section \<open>The import of an archive\<close>

text \<open>What the archive says of a config: entry, group, backend, version and the path of its file.\<close>

type_synonym archive_config = "string \<times> string \<times> string \<times> string \<times> string"

definition new_import_entry :: "string \<Rightarrow> string \<Rightarrow> string \<Rightarrow> string \<Rightarrow> import_entry" where
  "new_import_entry entry_id grp backend version =
     \<lparr>ie_entry_id = entry_id, ie_group_id = grp, ie_backend_id = backend, ie_info = None, ie_version = version,
      ie_status = OK, ie_import = False, ie_conflict = False, ie_config = None\<rparr>"

text \<open>
  The loop, which keeps \<open>k\<close> entries of the import empty for the configs still to come; an
  unexpected status gives the import back, but for the entry at hand.
\<close>

fun import_entries :: "(string \<Rightarrow> 'w env \<Rightarrow> nat option \<times> 'w env) \<Rightarrow> (nat \<Rightarrow> 'w env \<Rightarrow> 'w env) \<Rightarrow>
    'w disir_instance \<Rightarrow> archive_config list \<Rightarrow> import_entry list \<Rightarrow> 'w env \<Rightarrow>
    (status \<times> disir_import option \<times> 'w env) option" where
  "import_entries fopen fclose i [] filled e = Some (OK, Some \<lparr>di_entries = map Some filled\<rparr>, e)"
| "import_entries fopen fclose i ((entry_id, grp, backend, version, path) # configs) filled e = do {
     (status, entry, e) \<leftarrow> dx_resolve_config_import_status fopen fclose i path (new_import_entry entry_id grp backend version) e;
     if status \<notin> {OK, CONFLICT, NO_CAN_DO, CONFIG_INVALID, CONFLICTING_SEMVER} then do {
       (_, s) \<leftarrow> dx_import_destroy
         (Some \<lparr>di_entries = map Some filled @ replicate (Suc (length configs)) None\<rparr>) (env_store e);
       Some (status, None, e\<lparr>env_store := s\<rparr>) }
     else import_entries fopen fclose i configs (filled @ [entry\<lparr>ie_status := status\<rparr>]) e }"

definition archive_import_config_entries :: "(string \<Rightarrow> 'w env \<Rightarrow> nat option \<times> 'w env) \<Rightarrow> (nat \<Rightarrow> 'w env \<Rightarrow> 'w env) \<Rightarrow>
    'w disir_instance \<Rightarrow> archive_config list \<Rightarrow> 'w env \<Rightarrow> (status \<times> disir_import option \<times> 'w env) option" where
  "archive_import_config_entries fopen fclose i configs e = import_entries fopen fclose i configs [] e"

section \<open>Resolving an entry\<close>

definition disir_import_entry_status :: "disir_import option \<Rightarrow> int \<Rightarrow> bool \<Rightarrow>
    (status \<times> (string \<times> string \<times> string \<times> string option) option) option" where
  "disir_import_entry_status import entry has_output =
     (case import of None \<Rightarrow> Some (INVALID_ARGUMENT, None)
      | Some im \<Rightarrow>
          if \<not> has_output \<or> entry < 0 \<or> int (length (di_entries im)) \<le> entry then Some (INVALID_ARGUMENT, None)
          else do {
            current \<leftarrow> di_entries im ! nat entry;
            Some (if ie_status current = OK \<and> ie_conflict current then CONFLICT else ie_status current,
                  Some (ie_entry_id current, ie_group_id current, ie_version current, ie_info current)) })"

text \<open>
  The option of the caller: whether the entry may be imported as it is, after an update of its
  config, or not at all. Discarding ends the operation.
\<close>

definition import_update :: "(string \<Rightarrow> double option) \<Rightarrow> bool \<Rightarrow> import_entry \<Rightarrow> store \<Rightarrow> (status \<times> import_entry \<times> store) option" where
  "import_update strtod discard current s =
     (if ie_status current = CONFLICT \<or> ie_status current = CONFLICTING_SEMVER then do {
        config \<leftarrow> ie_config current;
        (status, config, s) \<leftarrow> dx_update_config_with_changes strtod config discard s;
        Some (status, current\<lparr>ie_config := config\<rparr>, s) }
      else Some (NO_CAN_DO, current, s))"

definition import_do :: "import_entry \<Rightarrow> status" where
  "import_do current =
     (if ie_status current = OK \<and> ie_conflict current then NO_CAN_DO
      else if ie_status current \<noteq> OK \<and> ie_conflict current then NO_CAN_DO
      else OK)"

definition resolve_option :: "(string \<Rightarrow> double option) \<Rightarrow> import_option \<Rightarrow> import_entry \<Rightarrow> store \<Rightarrow>
    (status \<times> import_entry \<times> store) option" where
  "resolve_option strtod opt current s =
     (case opt of
        IMPORT_UPDATE \<Rightarrow> import_update strtod False current s
      | IMPORT_FORCE \<Rightarrow> Some (OK, current, s)
      | IMPORT_DO \<Rightarrow> Some (import_do current, current, s)
      | IMPORT_UPDATE_WITH_DISCARD \<Rightarrow> import_update strtod True current s
      | _ \<Rightarrow> Some (INVALID_ARGUMENT, current, s))"

definition resolve_current :: "(string \<Rightarrow> double option) \<Rightarrow> import_option \<Rightarrow> import_entry \<Rightarrow> store \<Rightarrow>
    (status \<times> import_entry \<times> store) option" where
  "resolve_current strtod opt current s =
     (if ie_status current = NO_CAN_DO \<or> ie_status current = CONFIG_INVALID then Some (NO_CAN_DO, current, s)
      else if ie_status current = OK \<and> ie_import current \<and> opt \<noteq> IMPORT_DISCARD then Some (NO_CAN_DO, current, s)
      else if opt = IMPORT_DISCARD then Some (OK, current\<lparr>ie_import := False\<rparr>, s)
      else do {
        (status, current, s) \<leftarrow> resolve_option strtod opt current s;
        if status \<noteq> OK then Some (status, current, s)
        else do {
          (status, _, s) \<leftarrow> disir_config_valid (ie_config current) False s;
          if status \<noteq> OK then Some (status, current, s)
          else Some (OK, current\<lparr>ie_import := True, ie_status := OK\<rparr>, s) } })"

definition disir_import_resolve_entry :: "(string \<Rightarrow> double option) \<Rightarrow> disir_import option \<Rightarrow> int \<Rightarrow> import_option \<Rightarrow> store \<Rightarrow>
    (status \<times> disir_import option \<times> store) option" where
  "disir_import_resolve_entry strtod import entry opt s =
     (case import of None \<Rightarrow> Some (INVALID_ARGUMENT, None, s)
      | Some im \<Rightarrow>
          if entry < 0 \<or> int (length (di_entries im)) \<le> entry then Some (INVALID_ARGUMENT, import, s)
          else do {
            current \<leftarrow> di_entries im ! nat entry;
            (status, current, s) \<leftarrow> resolve_current strtod opt current s;
            Some (status, Some (im\<lparr>di_entries := (di_entries im)[nat entry := Some current]\<rparr>), s) })"

section \<open>Finalizing an import\<close>

text \<open>
  The line of the report for an entry, after the write of a marked one had \<open>status\<close>: a later
  case overwrites the line of an earlier one.
\<close>

definition report_line :: "status \<Rightarrow> import_entry \<Rightarrow> 'w env \<Rightarrow> string option option" where
  "report_line status current e = do {
     line \<leftarrow>
       (if status \<noteq> OK \<and> ie_status current = OK \<and> ie_import current then
          Some (Some (''Failed:         '' @ ie_entry_id current))
        else if status = OK \<and> ie_import current then do {
          p \<leftarrow> ie_config current;
          g \<leftarrow> get_config (env_store e) p;
          v \<leftarrow> dc_version_string True 256 (Some (cf_version g));
          Some (Some (''Imported:       '' @ ie_entry_id current @ '' ('' @ v @ '')'')) }
        else Some None);
     let line = (if ie_status current \<noteq> NO_CAN_DO \<and> ie_status current \<noteq> CONFIG_INVALID \<and> \<not> ie_import current
                 then Some (''Discarded:      '' @ ie_entry_id current) else line);
     let line = (if ie_status current = NO_CAN_DO \<or> ie_status current = CONFIG_INVALID
                 then Some (''Not importable: '' @ ie_entry_id current) else line);
     Some (map_option (take 4095) line) }"

text \<open>The loop: how many entries failed and how many were tried, and the lines of the report.\<close>

fun finalize_entries :: "'w disir_instance \<Rightarrow> bool \<Rightarrow> import_entry option list \<Rightarrow> nat \<Rightarrow> nat \<Rightarrow> string option list \<Rightarrow>
    'w env \<Rightarrow> (nat \<times> nat \<times> string option list \<times> 'w env) option" where
  "finalize_entries i has_report [] failed tried lines e = Some (failed, tried, lines, e)"
| "finalize_entries i has_report (None # entries) failed tried lines e =
     finalize_entries i has_report entries failed tried (lines @ [None]) e"
| "finalize_entries i has_report (Some current # entries) failed tried lines e = do {
     let marked = (ie_status current = OK \<and> ie_import current);
     (status, e) \<leftarrow> (if marked then disir_config_write (Some i) (Some (ie_group_id current)) (Some (ie_entry_id current))
                                    (ie_config current) e
                    else Some (OK, e));
     line \<leftarrow> (if has_report then report_line status current e else Some None);
     finalize_entries i has_report entries (if marked \<and> status \<noteq> OK then failed + 1 else failed)
       (if marked then tried + 1 else tried) (lines @ [line]) e }"

text \<open>
  The outer option of \<open>import\<close> is the pointer to the variable of the caller; discarding gives the
  import back and leaves the variable as it was. The report is handed out when it is wanted.
\<close>

definition disir_import_finalize :: "'w disir_instance option \<Rightarrow> import_option \<Rightarrow> disir_import option option \<Rightarrow> bool \<Rightarrow>
    'w env \<Rightarrow> (status \<times> disir_import option option \<times> string option list option \<times> 'w env) option" where
  "disir_import_finalize instance opt import has_report e =
     (case (instance, import) of
        (Some i, Some variable) \<Rightarrow>
          let e = disir_error_clear e in
          (case variable of None \<Rightarrow> Some (INVALID_ARGUMENT, import, None, e)
           | Some im \<Rightarrow>
               if opt = IMPORT_DISCARD then do {
                 (status, s) \<leftarrow> dx_import_destroy variable (env_store e);
                 Some (status, import, None, e\<lparr>env_store := s\<rparr>) }
               else if opt \<noteq> IMPORT_DO then Some (INVALID_ARGUMENT, import, None, e)
               else do {
                 (failed, tried, lines, e) \<leftarrow> finalize_entries i has_report (di_entries im) 0 0 [] e;
                 let e = (if failed \<noteq> 0 then disir_error_set
                           (show_nat failed @ '' of '' @ show_nat tried @ '' entries were not imported'') e else e);
                 (status, s) \<leftarrow> dx_import_destroy variable (env_store e);
                 Some (status, Some None, if has_report then Some lines else None, e\<lparr>env_store := s\<rparr>) })
      | _ \<Rightarrow> Some (INVALID_ARGUMENT, import, None, e))"

end
