(* ===== verification/Importing.thy ===== *)
theory Importing
  imports Imports
begin

text \<open>
  Properties of imports: whatever the caller resolves, an entry that cannot be imported is never
  marked; what the options decide; finalizing writes exactly the marked entries, in order, counts
  the failures and gives everything back; the report tells for each entry what became of it. Their
  applications to concrete imports are in theory InstanceRuns.
\<close>

section \<open>The states of an entry\<close>

definition entry_ok :: "import_entry \<Rightarrow> bool" where
  "entry_ok c \<longleftrightarrow> ie_status c \<in> {OK, CONFLICT, NO_CAN_DO, CONFIG_INVALID, CONFLICTING_SEMVER} \<and>
     (ie_import c \<longrightarrow> ie_status c = OK)"

definition import_ok :: "disir_import \<Rightarrow> bool" where
  "import_ok im \<longleftrightarrow> (\<forall>x \<in> set (di_entries im). \<exists>c. x = Some c \<and> entry_ok c)"

text \<open>An entry that cannot be imported is the same afterwards.\<close>

definition refused_kept :: "import_entry option \<Rightarrow> import_entry option \<Rightarrow> bool" where
  "refused_kept x y \<longleftrightarrow> (\<forall>c. x = Some c \<longrightarrow> ie_status c \<in> {NO_CAN_DO, CONFIG_INVALID} \<longrightarrow> y = x)"

lemma refused_kept_refl: "list_all2 refused_kept xs xs"
  by (simp add: list_all2_same refused_kept_def)

lemma refused_kept_trans:
  "list_all2 refused_kept xs ys \<Longrightarrow> list_all2 refused_kept ys zs \<Longrightarrow> list_all2 refused_kept xs zs"
  by (rule list_all2_trans [of refused_kept refused_kept]) (auto simp: refused_kept_def)

text \<open>The calls of a client that resolves entries, with the status of each.\<close>

fun resolve_run :: "(string \<Rightarrow> double option) \<Rightarrow> (int \<times> import_option) list \<Rightarrow> disir_import option \<Rightarrow> store \<Rightarrow>
    (status list \<times> disir_import option \<times> store) option" where
  "resolve_run strtod [] import s = Some ([], import, s)"
| "resolve_run strtod ((entry, opt) # choices) import s = do {
     (status, import, s) \<leftarrow> disir_import_resolve_entry strtod import entry opt s;
     (statuses, import, s) \<leftarrow> resolve_run strtod choices import s;
     Some (status # statuses, import, s) }"

lemma info_set_import [simp]: "import_info_set text c = Some c' \<Longrightarrow> ie_import c' = ie_import c"
  by (auto simp: import_info_set_def split: if_splits)

lemma verify_import: "verify_mold_support i c e = Some (st, m, c', e') \<Longrightarrow> ie_import c' = ie_import c"
  unfolding verify_mold_support_def by (elim do_elims Pair_inject) auto

lemma compare_import: "compare_existing c x y e = Some (st, c', e') \<Longrightarrow> ie_import c' = ie_import c"
  unfolding compare_existing_def by (elim do_elims Pair_inject) auto

lemma conflict_import: "import_determine_conflict i c m p e = Some (st, c', e') \<Longrightarrow> ie_import c' = ie_import c"
  unfolding import_determine_conflict_def by (elim do_elims Pair_inject) (auto dest: compare_import)

lemma unreadable_import: "unreadable st c = Some (st', c') \<Longrightarrow> ie_import c' = ie_import c"
  unfolding unreadable_def by (elim do_elims Pair_inject) auto

lemma new_entry_import: "new_entry c m p e = Some (st, c') \<Longrightarrow> ie_import c' = ie_import c"
  unfolding new_entry_def by (elim do_elims Pair_inject) auto

lemma resolve_status_import:
  "dx_resolve_config_import_status fopen fclose i path c e = Some (st, c', e') \<Longrightarrow> ie_import c' = ie_import c"
  unfolding dx_resolve_config_import_status_def
  by (elim do_elims Pair_inject)
    (auto dest!: verify_import conflict_import unreadable_import new_entry_import)

lemma import_entries_ok:
  "import_entries fopen fclose i configs filled e = Some (OK, Some im, e') \<Longrightarrow> \<forall>c \<in> set filled. entry_ok c \<Longrightarrow>
   import_ok im \<and> length (di_entries im) = length filled + length configs"
proof (induction fopen fclose i configs filled e rule: import_entries.induct)
  case (2 fopen fclose i entry_id grp backend version path configs filled e)
  from 2(2) obtain st c e1 where st: "dx_resolve_config_import_status fopen fclose i path (new_import_entry entry_id grp backend version) e =
      Some (st, c, e1)"
    by (auto elim!: bind_SomeE)
  have c: "\<not> ie_import c" using resolve_status_import [OF st] by (simp add: new_import_entry_def)
  show ?case
  proof (cases "st \<in> {OK, CONFLICT, NO_CAN_DO, CONFIG_INVALID, CONFLICTING_SEMVER}")
    case True
    then have "import_entries fopen fclose i configs (filled @ [c\<lparr>ie_status := st\<rparr>]) e1 = Some (OK, Some im, e')"
      using 2(2) st by auto
    moreover have "\<forall>x \<in> set (filled @ [c\<lparr>ie_status := st\<rparr>]). entry_ok x"
      using 2(3) True c by (auto simp: entry_ok_def)
    ultimately show ?thesis using 2(1) [OF st refl refl _ ] True by auto
  next
    case False
    then show ?thesis using 2(2) st by (auto elim!: bind_SomeE)
  qed
qed (auto simp: import_ok_def)

lemma import_update_keeps:
  "import_update strtod discard c s = Some (st, c', s') \<Longrightarrow> ie_status c' = ie_status c \<and> ie_import c' = ie_import c"
  unfolding import_update_def by (elim do_elims Pair_inject) auto

lemma resolve_option_keeps:
  "resolve_option strtod opt c s = Some (st, c', s') \<Longrightarrow> ie_status c' = ie_status c \<and> ie_import c' = ie_import c"
  by (cases opt) (auto simp: resolve_option_def dest: import_update_keeps)

lemma resolve_current_ok:
  assumes "resolve_current strtod opt c s = Some (st, c', s')" and "entry_ok c"
  shows "entry_ok c'"
proof -
  have "entry_ok c'" if "resolve_option strtod opt c s = Some (st1, c1, s1)" "ie_status c' = ie_status c1"
    "ie_import c' = ie_import c1" for st1 c1 s1
    using resolve_option_keeps [OF that(1)] that(2,3) assms(2) by (simp add: entry_ok_def)
  with assms show ?thesis unfolding resolve_current_def
    by (elim do_elims Pair_inject) (auto simp: entry_ok_def)
qed

lemma resolve_entry_ok:
  assumes "disir_import_resolve_entry strtod (Some im) k opt s = Some (st, import, s')" and "import_ok im"
  shows "\<exists>im'. import = Some im' \<and> import_ok im' \<and> list_all2 refused_kept (di_entries im) (di_entries im')"
proof (cases "k < 0 \<or> int (length (di_entries im)) \<le> k")
  case False
  then have k: "nat k < length (di_entries im)" by auto
  from assms(1) False obtain c c1 where c: "di_entries im ! nat k = Some c"
    and run: "resolve_current strtod opt c s = Some (st, c1, s')"
    and im': "import = Some (im\<lparr>di_entries := (di_entries im)[nat k := Some c1]\<rparr>)"
    by (auto simp: disir_import_resolve_entry_def elim!: bind_SomeE)
  have "entry_ok c" using assms(2) c k nth_mem [OF k] by (auto simp: import_ok_def)
  then have "entry_ok c1" using resolve_current_ok [OF run] by simp
  moreover have "refused_kept (Some c) (Some c1)" using run by (auto simp: refused_kept_def resolve_current_def)
  then have "list_all2 refused_kept (di_entries im) ((di_entries im)[nat k := Some c1])"
    using c k by (auto simp: list_all2_conv_all_nth nth_list_update refused_kept_def)
  ultimately show ?thesis using im' assms(2) set_update_subset_insert [of "di_entries im" "nat k" "Some c1"]
    by (auto simp: import_ok_def)
qed (use assms refused_kept_refl in \<open>auto simp: disir_import_resolve_entry_def\<close>)

lemma resolve_run_ok:
  "resolve_run strtod choices (Some im) s = Some (statuses, import, s') \<Longrightarrow> import_ok im \<Longrightarrow>
   \<exists>im'. import = Some im' \<and> import_ok im' \<and> list_all2 refused_kept (di_entries im) (di_entries im')"
proof (induction choices arbitrary: im s statuses)
  case Nil
  then show ?case using refused_kept_refl by auto
next
  case (Cons choice choices)
  obtain k opt where "choice = (k, opt)" by (cases choice)
  with Cons.prems(1) obtain st imp1 s1 sts where
    step: "disir_import_resolve_entry strtod (Some im) k opt s = Some (st, imp1, s1)"
    and run: "resolve_run strtod choices imp1 s1 = Some (sts, import, s')"
    by (auto elim!: bind_SomeE)
  obtain im1 where im1: "imp1 = Some im1" "import_ok im1" "list_all2 refused_kept (di_entries im) (di_entries im1)"
    using resolve_entry_ok [OF step Cons.prems(2)] by blast
  with Cons.IH [OF run [unfolded im1(1)] im1(2)] show ?case using refused_kept_trans by blast
qed

text \<open>
  C3. From the import of an archive on, through any calls that resolve its entries: there is one
  entry for each config of the archive, its status is one of the five a client is told about, and
  an entry is marked for import only while its status is OK, and
  an entry that is invalid or cannot be imported stays exactly as it was.
\<close>

theorem import_stays_consistent:
  assumes "archive_import_config_entries fopen fclose i configs e = Some (OK, Some im, e')"
    and "resolve_run strtod choices (Some im) s = Some (statuses, import, s')"
  shows "\<exists>im'. import = Some im' \<and> import_ok im' \<and> length (di_entries im') = length configs \<and>
    list_all2 refused_kept (di_entries im) (di_entries im')"
proof -
  have im: "import_ok im" "length (di_entries im) = length configs"
    using import_entries_ok [OF assms(1) [unfolded archive_import_config_entries_def]] by simp_all
  obtain im' where "import = Some im'" "import_ok im'" "list_all2 refused_kept (di_entries im) (di_entries im')"
    using resolve_run_ok [OF assms(2) im(1)] by blast
  with list_all2_lengthD [OF this(3)] im(2) show ?thesis by simp
qed

text \<open>
  C32. What the options decide for an entry that can be imported and is not marked yet: forcing it
  asks for a valid config only and marks the entry, a plain import is refused when there is a
  conflict with the system and otherwise does the same; a refusal leaves the entry as it was. (So a
  plain import takes an entry of another version than that of the mold, too, as long as the system
  does not have it; the documentation of DISIR_IMPORT_DO allows equal versions only.)
\<close>

theorem resolve_by_option:
  assumes "nat k < length (di_entries im)" and "0 \<le> k" and "di_entries im ! nat k = Some c"
    and "ie_status c \<in> {OK, CONFLICT, CONFLICTING_SEMVER}" and "\<not> ie_import c"
    and "disir_config_valid (ie_config c) False s = Some (valid, col, s')"
  shows "disir_import_resolve_entry strtod (Some im) k IMPORT_FORCE s =
      Some (valid, Some (if valid = OK
                         then im\<lparr>di_entries := (di_entries im)[nat k := Some (c\<lparr>ie_import := True, ie_status := OK\<rparr>)]\<rparr>
                         else im), s') \<and>
    disir_import_resolve_entry strtod (Some im) k IMPORT_DO s =
      (if ie_conflict c then Some (NO_CAN_DO, Some im, s) else disir_import_resolve_entry strtod (Some im) k IMPORT_FORCE s)"
proof -
  have "(di_entries im)[nat k := Some c] = di_entries im" using assms(3) list_update_id by metis
  moreover have "\<not> int (length (di_entries im)) \<le> k" using assms(1,2) by auto
  ultimately show ?thesis using assms(2-6)
    by (auto simp: disir_import_resolve_entry_def resolve_current_def resolve_option_def import_do_def)
qed

section \<open>Finalizing\<close>

definition marked :: "import_entry option list \<Rightarrow> import_entry list" where
  "marked entries = filter (\<lambda>c. ie_status c = OK \<and> ie_import c) (List.map_filter id entries)"

fun write_all :: "'w disir_instance \<Rightarrow> import_entry list \<Rightarrow> 'w env \<Rightarrow> (status list \<times> 'w env) option" where
  "write_all i [] e = Some ([], e)"
| "write_all i (c # cs) e = do {
     (status, e) \<leftarrow> disir_config_write (Some i) (Some (ie_group_id c)) (Some (ie_entry_id c)) (ie_config c) e;
     (statuses, e) \<leftarrow> write_all i cs e;
     Some (status # statuses, e) }"

lemma marked_simps [simp]:
  "marked [] = []"
  "marked (None # entries) = marked entries"
  "marked (Some c # entries) = (if ie_status c = OK \<and> ie_import c then c # marked entries else marked entries)"
  by (simp_all add: marked_def map_filter_def)

lemma finalize_entries_writes:
  "finalize_entries i has_report entries failed tried lines e = Some (failed', tried', lines', e') \<Longrightarrow>
   \<exists>statuses. write_all i (marked entries) e = Some (statuses, e') \<and> tried' = tried + length statuses \<and>
     failed' = failed + length (filter (\<lambda>st. st \<noteq> OK) statuses)"
proof (induction i has_report entries failed tried lines e rule: finalize_entries.induct)
  case (3 i has_report c entries failed tried lines e)
  let ?m = "ie_status c = OK \<and> ie_import c"
  from 3(2) obtain st e1 line where
    st: "(if ?m then disir_config_write (Some i) (Some (ie_group_id c)) (Some (ie_entry_id c)) (ie_config c) e
          else Some (OK, e)) = Some (st, e1)"
    and line: "(if has_report then report_line st c e1 else Some None) = Some line"
    and rest: "finalize_entries i has_report entries (if ?m \<and> st \<noteq> OK then failed + 1 else failed)
        (if ?m then tried + 1 else tried) (lines @ [line]) e1 = Some (failed', tried', lines', e')"
    by (auto simp: Let_def elim!: bind_SomeE simp del: finalize_entries.simps(1,2) split del: if_split)
  from 3(1) [OF refl st refl line rest] obtain statuses where
    IH: "write_all i (marked entries) e1 = Some (statuses, e')"
      "tried' = (if ?m then tried + 1 else tried) + length statuses"
      "failed' = (if ?m \<and> st \<noteq> OK then failed + 1 else failed) + length (filter (\<lambda>st. st \<noteq> OK) statuses)"
    by blast
  show ?case
  proof (cases ?m)
    case True
    then show ?thesis using IH st by (intro exI [of _ "st # statuses"]) auto
  next
    case False
    then show ?thesis using IH st by (intro exI [of _ statuses]) auto
  qed
qed auto

text \<open>
  C4. Finalizing an import writes the entries that are marked, each once and in the order of the
  archive, goes on when a write fails, tells how many of them failed, and then gives every
  config and the import back.
\<close>

theorem finalize_writes_marked:
  assumes "disir_import_finalize (Some i) IMPORT_DO (Some (Some im)) has_report e = Some (status, variable, report, e')"
  shows "\<exists>statuses e1 s. write_all i (marked (di_entries im)) (disir_error_clear e) = Some (statuses, e1) \<and>
    dx_import_destroy (Some im) (env_store e1) = Some (OK, s) \<and> status = OK \<and> variable = Some None \<and>
    e' = (if \<forall>st \<in> set statuses. st = OK then e1
          else disir_error_set (show_nat (length (filter (\<lambda>st. st \<noteq> OK) statuses)) @ '' of '' @
                 show_nat (length statuses) @ '' entries were not imported'') e1)\<lparr>env_store := s\<rparr>"
proof -
  from assms obtain failed tried lines e1 s where
    run: "finalize_entries i has_report (di_entries im) 0 0 [] (disir_error_clear e) = Some (failed, tried, lines, e1)"
    and gone: "dx_import_destroy (Some im) (env_store e1) = Some (status, s)" and v: "variable = Some None"
    and e': "e' = (if failed \<noteq> 0 then disir_error_set (show_nat failed @ '' of '' @ show_nat tried @
        '' entries were not imported'') e1 else e1)\<lparr>env_store := s\<rparr>"
    by (auto simp: disir_import_finalize_def Let_def disir_error_set_def elim!: bind_SomeE split: if_splits)
  obtain statuses where w: "write_all i (marked (di_entries im)) (disir_error_clear e) = Some (statuses, e1)"
    "tried = length statuses" "failed = length (filter (\<lambda>st. st \<noteq> OK) statuses)"
    using finalize_entries_writes [OF run] by auto
  have "status = OK" using gone by (auto simp: dx_import_destroy_def elim!: bind_SomeE split: if_splits)
  then show ?thesis using w gone v e' by (auto simp: filter_empty_conv)
qed

text \<open>
  What the report tells, given the statuses of the writes of the marked entries in their order: for
  a marked entry whether its write succeeded, with its version, or failed; of the others which
  cannot be imported and which were discarded; always with the identifier of the entry.
\<close>

fun told :: "status list \<Rightarrow> import_entry option list \<Rightarrow> string option list \<Rightarrow> bool" where
  "told statuses [] lines \<longleftrightarrow> statuses = [] \<and> lines = []"
| "told statuses (x # xs) lines \<longleftrightarrow> (\<exists>c line rest. x = Some c \<and> lines = Some line # rest \<and>
     (if ie_status c = OK \<and> ie_import c
      then \<exists>st sts. statuses = st # sts \<and> told sts xs rest \<and>
        (if st = OK
         then \<exists>v w. dc_version_string True 256 (Some w) = Some v \<and>
                line = take 4095 (''Imported:       '' @ ie_entry_id c @ '' ('' @ v @ '')'')
         else line = take 4095 (''Failed:         '' @ ie_entry_id c))
      else told statuses xs rest \<and>
        line = take 4095 ((if ie_status c \<in> {NO_CAN_DO, CONFIG_INVALID} then ''Not importable: '' else ''Discarded:      '')
                 @ ie_entry_id c)))"

lemma report_line_marked:
  assumes "report_line st c e = Some line" and "ie_status c = OK" "ie_import c"
  shows "\<exists>text. line = Some text \<and>
    (if st = OK then \<exists>v w. dc_version_string True 256 (Some w) = Some v \<and>
                text = take 4095 (''Imported:       '' @ ie_entry_id c @ '' ('' @ v @ '')'')
     else text = take 4095 (''Failed:         '' @ ie_entry_id c))"
  using assms by (auto simp: report_line_def elim!: bind_SomeE split: if_splits)

lemma report_line_other:
  assumes "report_line OK c e = Some line" and "\<not> ie_import c"
  shows "line = Some (take 4095 ((if ie_status c \<in> {NO_CAN_DO, CONFIG_INVALID} then ''Not importable: '' else ''Discarded:      '')
                 @ ie_entry_id c))"
  using assms by (auto simp: report_line_def elim!: bind_SomeE split: if_splits)

lemma finalize_entries_tells:
  "finalize_entries i True entries failed tried lines e = Some (failed', tried', lines', e') \<Longrightarrow>
   \<forall>x \<in> set entries. \<exists>c. x = Some c \<and> entry_ok c \<Longrightarrow>
   \<exists>statuses new. write_all i (marked entries) e = Some (statuses, e') \<and> lines' = lines @ new \<and> told statuses entries new"
proof (induction i True entries failed tried lines e rule: finalize_entries.induct)
  case (3 i c entries failed tried lines e)
  let ?m = "ie_status c = OK \<and> ie_import c"
  from 3(2) obtain st e1 line where
    st: "(if ?m then disir_config_write (Some i) (Some (ie_group_id c)) (Some (ie_entry_id c)) (ie_config c) e
          else Some (OK, e)) = Some (st, e1)"
    and line: "report_line st c e1 = Some line"
    and rest: "finalize_entries i True entries (if ?m \<and> st \<noteq> OK then failed + 1 else failed)
        (if ?m then tried + 1 else tried) (lines @ [line]) e1 = Some (failed', tried', lines', e')"
    by (auto simp: Let_def elim!: bind_SomeE simp del: finalize_entries.simps(1,2) split del: if_split)
  obtain statuses new where IH: "write_all i (marked entries) e1 = Some (statuses, e')"
    "lines' = (lines @ [line]) @ new" "told statuses entries new"
    using 3(1) [OF refl st refl _ rest] 3(3) line by auto
  show ?case
  proof (cases ?m)
    case True
    then show ?thesis using IH st report_line_marked [OF line]
      by (intro exI [of _ "st # statuses"] exI [of _ "line # new"]) auto
  next
    case False
    have "\<not> ie_import c" using 3(3) False by (auto simp: entry_ok_def)
    then show ?thesis using False IH st line report_line_other [of c e1 line]
      by (intro exI [of _ statuses] exI [of _ "line # new"]) auto
  qed
qed auto

text \<open>
  C33. The report of a consistent import has one line for each entry, in their order, and the lines
  tell what happened: the marked entries whose write succeeded are imported, those whose write
  failed failed, and the others could not be imported or were discarded.
\<close>

theorem report_tells_outcomes:
  assumes "import_ok im"
    and "disir_import_finalize (Some i) IMPORT_DO (Some (Some im)) True e = Some (status, variable, Some report, e')"
  shows "\<exists>statuses e1. write_all i (marked (di_entries im)) (disir_error_clear e) = Some (statuses, e1) \<and>
    told statuses (di_entries im) report"
proof -
  from assms(2) obtain failed tried e1 where
    "finalize_entries i True (di_entries im) 0 0 [] (disir_error_clear e) = Some (failed, tried, report, e1)"
    by (auto simp: disir_import_finalize_def Let_def elim!: bind_SomeE split: if_splits)
  from finalize_entries_tells [OF this] assms(1) show ?thesis by (auto simp: import_ok_def)
qed

section \<open>A config of the system that cannot be read\<close>

text \<open>
  C35. A plain import replaces a config of the system that is newer than its mold. When the plugin
  answers the reading of that config with CONFLICTING_SEMVER, as it does for a config of a higher
  version than the mold, the entry of the archive gets this status, which stands for an entry the
  system does not have, and no mark of a conflict; so a plain import marks it as soon as its own
  config is valid.
\<close>

theorem newer_config_replaced:
  assumes p: "dx_retrieve_plugin_by_group i grp = Some p" "dp_name p = Some backend"
    and mold: "dp_mold_read p = Some mold_read" "mold_read (settings_of p) entry_id e = Some (OK, Some m, e1)"
    and imported: "fopen path e1 = (Some file, e2)" "dp_config_fd_read p = Some fd_read" "fd_read file (Some m) e2 = Some (OK, Some c, e3)"
    and existing: "dp_config_read p = Some config_read"
      "config_read (settings_of p) entry_id (Some m) (fclose file e3) = Some (CONFLICTING_SEMVER, existing, e4)"
    and im: "archive_import_config_entries fopen fclose i [(entry_id, grp, backend, version, path)] e = Some (st, Some im, e5)"
    and valid: "disir_config_valid (Some c) False s = Some (OK, col, s')"
  shows "\<exists>entry. im = \<lparr>di_entries = [Some entry]\<rparr> \<and> ie_status entry = CONFLICTING_SEMVER \<and> \<not> ie_conflict entry \<and>
    disir_import_resolve_entry strtod (Some im) 0 IMPORT_DO s =
      Some (OK, Some \<lparr>di_entries = [Some (entry\<lparr>ie_import := True, ie_status := OK\<rparr>)]\<rparr>, s')"
proof -
  let ?new = "new_import_entry entry_id grp backend version"
  obtain x e6 where r: "dx_resolve_config_import_status fopen fclose i path ?new e = Some (CONFLICTING_SEMVER, x, e6)"
    and x: "x = ?new\<lparr>ie_config := Some c\<rparr>" and ims: "im = \<lparr>di_entries = [Some (x\<lparr>ie_status := CONFLICTING_SEMVER\<rparr>)]\<rparr>"
    using im p mold imported existing
    by (auto simp: archive_import_config_entries_def dx_resolve_config_import_status_def verify_mold_support_def
        read_config_imported_def import_determine_conflict_def new_import_entry_def elim!: bind_SomeE split: option.splits)
  have new: "\<not> ie_conflict ?new" "\<not> ie_import ?new" by (simp_all add: new_import_entry_def)
  show ?thesis using valid new
    by (intro exI [of _ "x\<lparr>ie_status := CONFLICTING_SEMVER\<rparr>"])
      (simp add: ims x disir_import_resolve_entry_def resolve_current_def resolve_option_def import_do_def)
qed

end
