(* ===== verification/InstanceRuns.thy ===== *)
theory InstanceRuns
  imports Startup Importing "HOL-Library.Code_Target_Nat"
begin

text \<open>
  Runs of an instance, evaluated by the kernel: its default configuration, creating it from one
  that names a plugin, and imports of configs; with them the properties of theories Startup and
  Importing at concrete inputs.
\<close>

section \<open>Creating an instance\<close>

text \<open>What is outside the library is the list of what happened there.\<close>

definition start_env :: "store \<Rightarrow> string list env" where
  "start_env s = \<lparr>env_world = [], env_store = s, env_entries = (\<lambda>_. None), disir_error_message = []\<rparr>"

definition noted :: "string \<Rightarrow> string list env \<Rightarrow> string list env" where
  "noted x e = e\<lparr>env_world := env_world e @ [x]\<rparr>"

definition sample_register :: "string list plugin_register" where
  "sample_register p e = Some (OK, p\<lparr>dp_name := Some ''shelf'', dp_description := Some [],
     dp_config_entry_type := Some [], dp_mold_entry_type := Some [],
     dp_plugin_finished := Some (\<lambda>e. Some (noted ''finished'' e))\<rparr>, noted ''registered'' e)"

definition sample_linker :: "string list linker" where
  "sample_linker = \<lparr>dlopen = (\<lambda>path e. if path = ''/p.so'' then (Some 1, noted ''opened'' e) else (None, e)),
     dlsym = (\<lambda>_. Some sample_register), dlclose = (\<lambda>_ e. Some (noted ''closed'' e)), dlerror = (\<lambda>_. ''no file'')\<rparr>"

definition no_reader :: "string \<Rightarrow> ptr option \<Rightarrow> string list env \<Rightarrow> (status \<times> ptr option \<times> string list env) option" where
  "no_reader path mold e = Some (INVALID_ARGUMENT, None, e)"

definition contexts_left :: "'w env \<Rightarrow> ptr list" where
  "contexts_left e = filter (\<lambda>p. ctxs (env_store e) p \<noteq> None) [0..<next_ptr (env_store e)]"

text \<open>
  A mold like that of the configuration, but smaller, with the section of a plugin and nothing in it.
\<close>

definition small_mold :: "api_call list" where
  "small_mold =
     [MoldBegin, Begin (Some 0) CT_SECTION, SetName (Some 1) (Some ''plugin'') 6, Finalize (Some 1), MoldFinalize (Some 0)]"

text \<open>
  The default configuration of an instance, on a mold with the section of a plugin: after the
  config and the mold are given back, two contexts stay in use, the config (2) and the section
  removed from it (3). The references taken to remove the section are never given back.
\<close>

theorem default_config_leaks:
  "do { (_, s) \<leftarrow> run (\<lambda>_. None) small_mold empty_store;
        (status, config, s) \<leftarrow> default_config (Some 0) s;
        (finished, _, s) \<leftarrow> disir_config_finished config s;
        (released, s) \<leftarrow> disir_mold_finished (Some 0) s;
        Some (status, config, finished, released, contexts_left (start_env s)) } =
   Some (OK, Some 2, OK, OK, [2, 3])"
  by code_simp

text \<open>Loading a plugin that registers itself, with the note of what happened.\<close>

lemma sample_plugin_loads:
  "\<exists>i' e'. load_plugin sample_linker \<lparr>dio_plugin_queue = [], libdisir_config = None\<rparr> ''/p.so'' ''io'' ''g'' None None
       (start_env empty_store) = Some (OK, i', e') \<and>
     env_world e' = [''opened'', ''registered''] \<and> map pi_group_id (dio_plugin_queue i') = [''g'']"
proof -
  obtain i' e' where run: "load_plugin sample_linker \<lparr>dio_plugin_queue = [], libdisir_config = None\<rparr> ''/p.so'' ''io'' ''g'' None None
       (start_env empty_store) = Some (OK, i', e')" and e': "env_world e' = [''opened'', ''registered'']"
    by (simp add: load_plugin_def sample_linker_def sample_register_def noted_def start_env_def
        disir_plugin_register_def empty_plugin_def Let_def)
  from load_plugin_keeps [OF run] show ?thesis using run e' by auto
qed

text \<open>
  A config (0) with the section of one plugin (1), which names the object of the plugin, its group
  and its identifier (2 to 4).
\<close>

definition finalized_context :: "context_type \<Rightarrow> disir_object \<Rightarrow> ptr option \<Rightarrow> disir_context" where
  "finalized_context t x parent =
     \<lparr>cx_type = t, constructing = False, finalized = True, invalid = False, fatal = False, destroyed = False,
      in_parent = True, cx_obj = Some x, cx_parent = parent, cx_root = Some 0, cx_refcount = 1, cx_error = None\<rparr>"

definition text_keyval :: "string \<Rightarrow> disir_context" where
  "text_keyval x = finalized_context CT_KEYVAL (OKeyval (dx_keyval_create\<lparr>kv_value :=
     \<lparr>dv_type = VT_STRING, dv_data = PStr (length x + 1) x, dv_size = length x\<rparr>\<rparr>)) (Some 1)"

fun storage_with :: "(string \<times> ptr) list \<Rightarrow> element_storage \<Rightarrow> element_storage option" where
  "storage_with [] st = Some st"
| "storage_with ((n, p) # xs) st = do { (_, st) \<leftarrow> storage_add st (Some n) (Some p); storage_with xs st }"

definition plugin_config :: "store option" where
  "plugin_config = do {
     st \<leftarrow> storage_with [(''plugin'', 1)] storage_create;
     st1 \<leftarrow> storage_with [(''plugin_filepath'', 2), (''group_id'', 3), (''io_id'', 4)] storage_create;
     Some \<lparr>ctxs = [0 \<mapsto> finalized_context CT_CONFIG (OConfig (dx_config_create\<lparr>cf_elements := Some st\<rparr>)) None,
                 1 \<mapsto> finalized_context CT_SECTION (OSection (dx_section_create\<lparr>se_elements := Some st1\<rparr>)) (Some 0),
                 2 \<mapsto> text_keyval ''/p.so'', 3 \<mapsto> text_keyval ''g'', 4 \<mapsto> text_keyval ''io''],
           next_ptr = 5\<rparr> }"

definition created_with_plugin :: "(status \<times> string list disir_instance option \<times> string list env) option" where
  "created_with_plugin = do {
     s \<leftarrow> plugin_config;
     disir_instance_create sample_linker no_reader None (Some 0) True (start_env s) }"

lemma created_with_plugin_OK:
  "map_option (\<lambda>(status, i, e). (status, map_option (\<lambda>i. map (\<lambda>p. (pi_group_id p, pi_io_id p, pi_filepath p)) (dio_plugin_queue i)) i,
     env_world e)) created_with_plugin =
   Some (OK, Some [(''g'', ''io'', Some ''/p.so'')], [''opened'', ''registered''])"
  by code_simp

theorem created_instance_loaded_witness:
  "\<exists>i e' p. created_with_plugin = Some (OK, Some i, e') \<and> dio_plugin_queue i = [p] \<and> pi_group_id p = ''g'' \<and> loaded_plugin p"
proof -
  obtain i e' where c: "created_with_plugin = Some (OK, Some i, e')"
    and q: "map pi_group_id (dio_plugin_queue i) = [''g'']"
    using created_with_plugin_OK by (auto simp: map_option_case split: option.splits prod.splits)
  then obtain s where "disir_instance_create sample_linker no_reader None (Some 0) True (start_env s) = Some (OK, Some i, e')"
    unfolding created_with_plugin_def by (elim bind_SomeE prod_SomeE)
  from created_instance_loaded [OF this] c q show ?thesis by auto
qed

section \<open>Importing\<close>

text \<open>
  A plugin that hands out the mold of the config 1, answers the reading of an entry with what it
  holds, reads a file as the config with the number of its handle, and cannot write the entry
  \<open>bad\<close>.
\<close>

definition keeper :: "(string \<Rightarrow> status \<times> ptr option) \<Rightarrow> string list plugin_internal" where
  "keeper answer = \<lparr>pi_dl_handler = None, pi_filepath = None, pi_io_id = ''io'', pi_group_id = ''g'',
     pi_plugin = empty_plugin\<lparr>dp_name := Some ''keeper'',
       dp_mold_read := Some (\<lambda>_ entry e. do {
         (status, mold, s) \<leftarrow> disir_config_get_mold (Some 1) True (env_store e);
         Some (status, mold, e\<lparr>env_store := s\<rparr>) }),
       dp_config_read := Some (\<lambda>_ entry mold e. Some (fst (answer entry), snd (answer entry), e)),
       dp_config_fd_read := Some (\<lambda>file mold e. Some (OK, Some file, e)),
       dp_config_write := Some (\<lambda>_ entry config e. Some (if entry = ''bad'' then FS_ERROR else OK, noted entry e))\<rparr>\<rparr>"

definition keeping :: "(string \<Rightarrow> status \<times> ptr option) \<Rightarrow> string list disir_instance" where
  "keeping answer = \<lparr>dio_plugin_queue = [keeper answer], libdisir_config = None\<rparr>"

definition file_of :: "string \<Rightarrow> string list env \<Rightarrow> nat option \<times> string list env" where
  "file_of path e = (if path = ''one'' then Some 1 else if path = ''two'' then Some 2 else None, e)"

text \<open>Two configs, 1 and 2, of a mold without elements.\<close>

definition two_configs :: "api_call list" where
  "two_configs = [MoldBegin, MoldFinalize (Some 0), ConfigBegin (Some 0), ConfigFinalize (Some 1), ConfigBegin (Some 0),
     ConfigFinalize (Some 2)]"

definition absent :: "string \<Rightarrow> status \<times> ptr option" where
  "absent entry = (NOT_EXIST, None)"

definition three_entries :: "archive_config list" where
  "three_entries = [(''a'', ''g'', ''keeper'', ''1.0'', ''one''), (''bad'', ''g'', ''keeper'', ''1.0'', ''two''),
     (''c'', ''h'', ''keeper'', ''1.0'', ''one'')]"

definition three_choices :: "(int \<times> import_option) list" where
  "three_choices = [(0, IMPORT_DO), (1, IMPORT_FORCE), (2, IMPORT_FORCE)]"

text \<open>
  An import of three entries, the last of a group the system does not have: the first two are
  marked, of which the second cannot be written.
\<close>

definition imported_three :: "(status list \<times> disir_import \<times> disir_import \<times> string list env) option" where
  "imported_three = do {
     (_, s) \<leftarrow> run (\<lambda>_. None) two_configs empty_store;
     (status, im, e) \<leftarrow> archive_import_config_entries file_of (\<lambda>_ e. e) (keeping absent) three_entries (start_env s);
     im \<leftarrow> im;
     (statuses, im', s) \<leftarrow> resolve_run (\<lambda>_. None) three_choices (Some im) (env_store e);
     im' \<leftarrow> im';
     Some (status # statuses, im, im', e\<lparr>env_store := s\<rparr>) }"

definition finalized_three :: "(status \<times> string option list option \<times> string list) option" where
  "finalized_three = do {
     (_, _, im, e) \<leftarrow> imported_three;
     (status, _, report, e) \<leftarrow> disir_import_finalize (Some (keeping absent)) IMPORT_DO (Some (Some im)) True e;
     Some (status, report, env_world e) }"

lemma imported_three_OK:
  "map_option (\<lambda>(sts, im, im', _). (sts, map (map_option ie_import) (di_entries im'))) imported_three =
     Some ([OK, OK, OK, NO_CAN_DO], [Some True, Some True, Some False])"
  "finalized_three = Some (OK, Some [Some ''Imported:       a (1.0)'', Some ''Failed:         bad'', Some ''Not importable: c''], [''a'', ''bad''])"
  by code_simp+

lemma imported_three_run:
  obtains e and im :: disir_import and e1 s and im' :: disir_import where
    "archive_import_config_entries file_of (\<lambda>_ e. e) (keeping absent) three_entries e = Some (OK, Some im, e1)"
    "resolve_run (\<lambda>_. None) three_choices (Some im) (env_store e1) = Some ([OK, OK, NO_CAN_DO], Some im', s)"
    "map (map_option ie_import) (di_entries im') = [Some True, Some True, Some False]"
    "imported_three = Some ([OK, OK, OK, NO_CAN_DO], im, im', e1\<lparr>env_store := s\<rparr>)"
proof -
  obtain im im' e where i: "imported_three = Some ([OK, OK, OK, NO_CAN_DO], im, im', e)"
    and m: "map (map_option ie_import) (di_entries im') = [Some True, Some True, Some False]"
    using imported_three_OK(1) by (auto simp: map_option_case split: option.splits prod.splits)
  then show thesis unfolding imported_three_def
    by (elim bind_SomeE prod_SomeE Pair_inject) (auto intro!: that simp: imported_three_def)
qed

theorem import_stays_consistent_witness:
  "\<exists>e (im :: disir_import) e1 (im' :: disir_import) s. archive_import_config_entries file_of (\<lambda>_ e. e) (keeping absent) three_entries e = Some (OK, Some im, e1) \<and>
     resolve_run (\<lambda>_. None) three_choices (Some im) (env_store e1) = Some ([OK, OK, NO_CAN_DO], Some im', s) \<and>
     map (map_option ie_import) (di_entries im') = [Some True, Some True, Some False] \<and> import_ok im'"
proof -
  obtain e im e1 s im' where r:
    "archive_import_config_entries file_of (\<lambda>_ e. e) (keeping absent) three_entries e = Some (OK, Some im, e1)"
    "resolve_run (\<lambda>_. None) three_choices (Some im) (env_store e1) = Some ([OK, OK, NO_CAN_DO], Some im', s)"
    "map (map_option ie_import) (di_entries im') = [Some True, Some True, Some False]"
    by (rule imported_three_run)
  from import_stays_consistent [OF r(1,2)] have "import_ok im'" by auto
  with r(1-3) show ?thesis by (intro exI conjI)
qed

lemma finalized_three_run:
  obtains im :: disir_import and e variable e' where
    "disir_import_finalize (Some (keeping absent)) IMPORT_DO (Some (Some im)) True e =
       Some (OK, variable, Some [Some ''Imported:       a (1.0)'', Some ''Failed:         bad'', Some ''Not importable: c''], e')"
    "import_ok im" "map (map_option ie_import) (di_entries im) = [Some True, Some True, Some False]"
proof -
  obtain e0 im0 e1 s im where r:
    "archive_import_config_entries file_of (\<lambda>_ e. e) (keeping absent) three_entries e0 = Some (OK, Some im0, e1)"
    "resolve_run (\<lambda>_. None) three_choices (Some im0) (env_store e1) = Some ([OK, OK, NO_CAN_DO], Some im, s)"
    "map (map_option ie_import) (di_entries im) = [Some True, Some True, Some False]"
    "imported_three = Some ([OK, OK, OK, NO_CAN_DO], im0, im, e1\<lparr>env_store := s\<rparr>)"
    by (rule imported_three_run)
  have "import_ok im0" using import_entries_ok [OF r(1) [unfolded archive_import_config_entries_def]] by simp
  then have ok: "import_ok im" using resolve_run_ok [OF r(2)] by blast
  obtain variable e' where "disir_import_finalize (Some (keeping absent)) IMPORT_DO (Some (Some im)) True (e1\<lparr>env_store := s\<rparr>) =
       Some (OK, variable, Some [Some ''Imported:       a (1.0)'', Some ''Failed:         bad'', Some ''Not importable: c''], e')"
    using imported_three_OK(2) unfolding finalized_three_def r(4) by (auto elim!: bind_SomeE)
  then show thesis using ok r(3) by (rule that)
qed

theorem finalize_writes_marked_witness:
  "\<exists>(im :: disir_import) e statuses e1. map (map_option ie_import) (di_entries im) = [Some True, Some True, Some False] \<and>
     write_all (keeping absent) (marked (di_entries im)) (disir_error_clear e) = Some (statuses, e1)"
proof -
  obtain im e variable e' where r: "disir_import_finalize (Some (keeping absent)) IMPORT_DO (Some (Some im)) True e =
       Some (OK, variable, Some [Some ''Imported:       a (1.0)'', Some ''Failed:         bad'', Some ''Not importable: c''], e')"
    "import_ok im" "map (map_option ie_import) (di_entries im) = [Some True, Some True, Some False]" by (rule finalized_three_run)
  from finalize_writes_marked [OF r(1)] obtain statuses e1 where
    "write_all (keeping absent) (marked (di_entries im)) (disir_error_clear e) = Some (statuses, e1)" by blast
  with r(3) show ?thesis by (intro exI conjI)
qed

theorem report_tells_outcomes_witness:
  "\<exists>(im :: disir_import) statuses. told statuses (di_entries im)
     [Some ''Imported:       a (1.0)'', Some ''Failed:         bad'', Some ''Not importable: c'']"
proof -
  obtain im e variable e' where r: "disir_import_finalize (Some (keeping absent)) IMPORT_DO (Some (Some im)) True e =
       Some (OK, variable, Some [Some ''Imported:       a (1.0)'', Some ''Failed:         bad'', Some ''Not importable: c''], e')"
    "import_ok im" "map (map_option ie_import) (di_entries im) = [Some True, Some True, Some False]" by (rule finalized_three_run)
  from report_tells_outcomes [OF r(2,1)] show ?thesis by blast
qed

text \<open>The config 1 is valid; an entry with it that has another version than the mold is marked by a plain import.\<close>

lemma two_configs_run:
  obtains s s' where "map_option snd (run (\<lambda>_. None) two_configs empty_store) = Some s"
    "disir_config_valid (Some 1) False s = Some (OK, None, s')"
proof -
  have "(case run (\<lambda>_. None) two_configs empty_store of None \<Rightarrow> False
     | Some (_, s) \<Rightarrow> (case disir_config_valid (Some 1) False s of None \<Rightarrow> False | Some (st, r, _) \<Rightarrow> st = OK \<and> r = None))"
    by code_simp
  then show thesis using that by (auto split: option.splits prod.splits)
qed

definition older_entry :: import_entry where
  "older_entry = (new_import_entry ''a'' ''g'' ''keeper'' ''1.0'')\<lparr>ie_status := CONFLICTING_SEMVER, ie_config := Some 1\<rparr>"

theorem resolve_by_option_witness:
  "\<exists>s s'. disir_import_resolve_entry (\<lambda>_. None) (Some \<lparr>di_entries = [Some older_entry]\<rparr>) 0 IMPORT_DO s =
     Some (OK, Some \<lparr>di_entries = [Some (older_entry\<lparr>ie_import := True, ie_status := OK\<rparr>)]\<rparr>, s')"
proof -
  obtain s s' where v: "disir_config_valid (Some 1) False s = Some (OK, None, s')" using two_configs_run by metis
  let ?im = "\<lparr>di_entries = [Some older_entry]\<rparr>"
  have "nat 0 < length (di_entries ?im)" "(0 :: int) \<le> 0" "di_entries ?im ! nat 0 = Some older_entry"
    "ie_status older_entry \<in> {OK, CONFLICT, CONFLICTING_SEMVER}" "\<not> ie_import older_entry" "\<not> ie_conflict older_entry"
    and c: "ie_config older_entry = Some 1"
    by (simp_all add: older_entry_def new_import_entry_def)
  from resolve_by_option [OF this(1-5), unfolded c, OF v, of "\<lambda>_. None"] this(6)
  have "disir_import_resolve_entry (\<lambda>_. None) (Some ?im) 0 IMPORT_DO s =
     Some (OK, Some \<lparr>di_entries = [Some (older_entry\<lparr>ie_import := True, ie_status := OK\<rparr>)]\<rparr>, s')" by simp
  then show ?thesis by (intro exI)
qed

text \<open>A system whose plugin cannot read the config \<open>a\<close> it holds, as that is newer than its mold.\<close>

definition too_new :: "string \<Rightarrow> status \<times> ptr option" where
  "too_new entry = (CONFLICTING_SEMVER, None)"

definition one_entry :: archive_config where
  "one_entry = (''a'', ''g'', ''keeper'', ''1.0'', ''one'')"

theorem newer_config_replaced_witness:
  "\<exists>e im e' s entry s'. archive_import_config_entries file_of (\<lambda>_ e. e) (keeping too_new) [one_entry] e = Some (OK, Some im, e') \<and>
     ie_status entry = CONFLICTING_SEMVER \<and> disir_import_resolve_entry (\<lambda>_. None) (Some im) 0 IMPORT_DO s =
       Some (OK, Some \<lparr>di_entries = [Some (entry\<lparr>ie_import := True, ie_status := OK\<rparr>)]\<rparr>, s')"
proof -
  let ?p = "pi_plugin (keeper too_new)"
  have "(case run (\<lambda>_. None) two_configs empty_store of None \<Rightarrow> False
     | Some (_, s) \<Rightarrow>
        (case archive_import_config_entries file_of (\<lambda>_ e. e) (keeping too_new) [one_entry] (start_env s) of None \<Rightarrow> False
         | Some (st, im, _) \<Rightarrow> st = OK \<and> im \<noteq> None) \<and>
        (case disir_config_get_mold (Some 1) True s of None \<Rightarrow> False | Some (st, m, _) \<Rightarrow> st = OK \<and> m \<noteq> None) \<and>
        (case disir_config_valid (Some 1) False s of None \<Rightarrow> False | Some (st, r, _) \<Rightarrow> st = OK \<and> r = None))"
    by code_simp
  then obtain s im e' m s1 s' where
    im: "archive_import_config_entries file_of (\<lambda>_ e. e) (keeping too_new) [one_entry] (start_env s) = Some (OK, Some im, e')"
    and mold: "disir_config_get_mold (Some 1) True s = Some (OK, Some m, s1)"
    and v: "disir_config_valid (Some 1) False s = Some (OK, None, s')"
    by (auto split: option.splits prod.splits)
  have p: "dx_retrieve_plugin_by_group (keeping too_new) ''g'' = Some ?p" "dp_name ?p = Some ''keeper''"
    by (simp_all add: keeping_def keeper_def dx_retrieve_plugin_by_group_def empty_plugin_def)
  have mold_read: "dp_mold_read ?p = Some (\<lambda>_ entry e. do {
         (status, mold, s) \<leftarrow> disir_config_get_mold (Some 1) True (env_store e);
         Some (status, mold, e\<lparr>env_store := s\<rparr>) })"
    "(\<lambda>_ entry e. do {
         (status, mold, s) \<leftarrow> disir_config_get_mold (Some 1) True (env_store e);
         Some (status, mold, e\<lparr>env_store := s\<rparr>) }) (settings_of ?p) ''a'' (start_env s) =
       Some (OK, Some m, (start_env s)\<lparr>env_store := s1\<rparr>)"
    using mold by (simp_all add: keeper_def start_env_def)
  have fd: "file_of ''one'' e = (Some 1, e)" "dp_config_fd_read ?p = Some (\<lambda>file mold e. Some (OK, Some file, e))"
    "(\<lambda>file mold e. Some (OK, Some file, e)) 1 (Some m) e = Some (OK, Some 1, e)" for e
    by (simp_all add: file_of_def keeper_def)
  have cr: "dp_config_read ?p = Some (\<lambda>_ entry mold e. Some (fst (too_new entry), snd (too_new entry), e))"
    "(\<lambda>_ entry mold e. Some (fst (too_new entry), snd (too_new entry), e)) (settings_of ?p) ''a'' (Some m) ((\<lambda>_ e. e) 1 e) =
       Some (CONFLICTING_SEMVER, None, e)" for e
    by (simp_all add: keeper_def too_new_def)
  obtain entry where "ie_status entry = CONFLICTING_SEMVER"
    "disir_import_resolve_entry (\<lambda>_. None) (Some im) 0 IMPORT_DO s =
       Some (OK, Some \<lparr>di_entries = [Some (entry\<lparr>ie_import := True, ie_status := OK\<rparr>)]\<rparr>, s')"
    using newer_config_replaced [OF p mold_read fd cr im [unfolded one_entry_def] v] by blast
  with im show ?thesis by (intro exI conjI)
qed

end
