(* ===== verification/Spec2Isabelle.thy ===== *)
theory Spec2Isabelle
  imports Versioning Constraints Runs Access Scenarios Differences Generation Entries InstanceRuns
begin

text \<open>
  A model of libdisir, the C library under src/lib that keeps configuration trees and the
  schemas (molds) they follow, with the theorems that say what its operations do.

  \<^bold>\<open>The program.\<close> Everything a client handles is a context: a config, a mold, a section, a keyval, a
  default, a documentation or a restriction. Contexts are reference counted, form a tree by their
  parents, and pass through the states constructing, finalized, invalid, fatal and destroyed. A
  config or mold keeps its elements in an element storage: a hash map from names to contexts for
  the lookups, and a linked list for the order. A client receives elements in collections, arrays
  with an iterator that hold a reference to each entry and drop entries destroyed meanwhile. The
  restrictions, defaults and documentations of a mold are kept in queues sorted by version; they
  decide which values a keyval of a config may take, how many elements of a name there may be,
  and what a generated config contains. Above this lie the queries by name, generation, update
  and comparison of configs, and the instance: the plugins that read and write configs and
  molds, the entries they list, and imports from archives.

  \<^bold>\<open>Theories and sources.\<close> The theories follow the files, from the containers up.

  \<^item> Prelude: the status codes (src/include/disir/disir.h), C integers, the \<^verbatim>\<open>double\<close>, the string
    functions the library calls, elimination rules for the option monad, lemma collections.
  \<^item> Values: src/lib/util.c, versions and typed values.
  \<^item> Multimap and VList: src/3rdparty/void-multimap and void-list, the containers. ElementStorage:
    the data of src/lib/element_storage.c; Elements: its operations with their reference counts,
    and the lookups of src/lib/context.c over them.
  \<^item> Context: src/lib/context_util.c and the structures of src/lib/include. Collection:
    src/lib/collection.c. Destroy: \<^verbatim>\<open>dc_destroy\<close>, \<^verbatim>\<open>dc_putcontext\<close> and every \<^verbatim>\<open>dx_*_destroy\<close>.
    Lookup: the readers of src/lib/context.c, context_mold.c and context_config.c.
  \<^item> Mqueue: src/lib/include/mqueue.h. Restriction, ContextValue, Documents: context_restriction.c,
    context_value.c, context_default.c and context_documentation.c. Validate: validate.c.
  \<^item> Lifecycle: begin and finalize of every context, names. Adding: the \<^verbatim>\<open>dc_add_*\<close> operations that
    build a complete entry in one call.
  \<^item> Query: query.c. ConfigQuery: disir_config_query.c. Generate: generate.c. Update: update.c.
    Compare: compare.c. Api: the public operations as one type of calls, runs of calls, and the
    heaps reachable by them.
  \<^item> Instances: disir_plugin.c, error.c, and reading, writing, removing and querying of disir_config.c
    and disir_mold.c. Entries: disir_entry.c and the listing of entries. Imports: disir_import.c and
    the loop of disir_archive.cc that builds an import. Startup: disir.c and instance_mold.c.
  \<^item> The properties are in Traversal (collections and lookups), Versioning (queues), Constraints
    (restrictions and values), Lifetime (states of a context), Resolution and Access (queries),
    Generation, Migration and Upgrade (updates), Differences (comparison), Entries, Instances,
    Importing and Startup, with Runs, Scenarios and InstanceRuns holding runs of calls that the
    kernel evaluates, most of them as applications of the properties.

  \<^bold>\<open>State and operations.\<close> The heap is the record \<open>store\<close>: a map from addresses to contexts and the
  next free address. A context and the object its union points to live equally long, so the object
  is a field of the context and both have one address. An operation takes the heap and returns
  its status, what its output arguments hold, and the new heap; it has the name of the C function,
  and its branches are those of the code in the order of the code. Output arguments that may be
  NULL are booleans (\<open>has_output\<close>) where the code looks at them. The instance adds an environment
  around the heap: the error text, the entries that are out, and the world of the plugins.

  The option type marks what C leaves undefined: \<open>None\<close> is a fault (a NULL or dangling pointer read, a
  buffer overrun, the wrong member of a union, an uninitialised variable used), an abort, or, in
  the loops defined by \<^theory_text>\<open>partial_function\<close>, a run that does not end. The theorems that claim an
  endless run say so in terms of the rounds themselves. Every other error is a status. An address
  names one allocation, not the number \<^verbatim>\<open>calloc\<close> returned: a dangling pointer stays dangling in
  the model, whatever is allocated later. Error messages are kept by their formats, and arguments
  that can fault are evaluated.

  \<^bold>\<open>Recursion and fuel.\<close> Loops over lists and arrays are recursive on them or on a decreasing
  distance. The recursion through the tree of contexts (destroying, validating, generating,
  comparing, collecting keyvals) is bounded by \<open>next_ptr + 1\<close> or \<open>next_ptr + 2\<close> levels: contexts are
  attached to their parent when they are created, so a nesting has at most as many levels as
  there were allocations. Loops over a collection are given one round more than the collection has
  entries, since a collection only shrinks while it is iterated. The push onto the hash map, which
  resizes it by pushing, has the entries of the map and two as its bound, and that this is enough is
  part of \<open>multimap_push_appends\<close>. Where the code may loop forever (the walk to the head of a queue of
  entries, the climb to the root of a name, the resolution of conflicts, list walks) there is no
  bound and \<^theory_text>\<open>partial_function\<close> is used.

  \<^bold>\<open>Interfaces.\<close> Three contracts are locales: \<open>key_callbacks\<close> (the comparison and hash of the keys of
  a map, under which all lemmas on the hash map are proved), \<open>value_list_store\<close> (what the linked list
  promises), and \<open>element_store\<close> (what the element storage promises its users: a list of named
  contexts). Each is interpreted on the operations of the code, and the properties use the
  resulting facts. References are treated as an algebra: \<open>add_refs\<close> adds to the counts of a heap, so
  that a lemma can say exactly which references an operation leaves behind. What holds through every
  operation is collected under \<open>evolving\<close> and composed along the code; from it follow the facts on runs
  of arbitrary calls.

  \<^bold>\<open>What the lemmas show.\<close>

  \<^item> Containers: the hash map through resizing, the list at the level of its links, and the storage
    refine lists; their lookups agree.
  \<^item> Collections and lookups: each element once and in order with all references restored, the element
    at an index, what coalescing keeps and where it leaves the iterator.
  \<^item> Life cycle: a context only advances; what finalizing leaves behind; beginning and destroying an
    element is the identity on the heap.
  \<^item> Versions and queues: printing and reading versions, the sorted queues, the active default.
  \<^item> Values and restrictions: when a value is accepted, that accepted values are read back, that a
    refused one leaves a finalized keyval alone, and when a text fits the buffer it is printed into.
  \<^item> Queries: the parser and its buffer, the element a path leads to, set then get along a path.
  \<^item> Generation, update, comparison: what a generated config is; what an update does to one keyval, that
    its loop does just this to all of them, which keyvals it never sees, and what it hands out; that a
    config does not differ from itself.
  \<^item> Instances: which plugin is asked, joining the lists of entries, the error text, the plugins of a
    created instance; imports: what may be marked, what is written, what the report tells.

  \<^bold>\<open>Parameters.\<close> \<^verbatim>\<open>strtod\<close>, the callbacks of plugins, the dynamic linker, the reader of TOML files and
  the opening and closing of files are arguments of the definitions that use them.

  \<^bold>\<open>Not modelled.\<close> Failing allocations and what only frees memory; the output of log messages
  (src/lib/log.c); packing and unpacking of archives and the plugins that store configs in files (C++
  over libarchive, JSON and TOML parsers and the file system); the command line client; the vendored
  parsers; the tests.

  \<^bold>\<open>What it found.\<close> Among the faults of the code that the theorems make precise: an update hands out a
  generated config that has none of the values the user had set, and looks at no keyval behind the
  first section (theories Upgrade and Migration); joining two lists of entries may never return
  (Entries); a collection skips contexts after others were destroyed, and \<^verbatim>\<open>dc_resolve_root_name\<close>
  loops for a context outside its parent (Traversal); reading and querying a config ask different
  plugins, and copying the error text may overrun the buffer (Instances); a plain import replaces a
  config newer than its mold (Importing); wrap-around and truncation in comparisons (Values).
\<close>

end
